(* ===== verification/Prelude.thy ===== *)
theory Prelude
  imports Main "HOL-Library.Word"
begin

text \<open>
  The prelude of the development: the result type of the Rust sources, the machine-integer
  operations the code calls, and the part of \<^verbatim>\<open>str\<close> of the Rust standard library that the
  parsers and validators use.

  A Rust \<^verbatim>\<open>String\<close> is its sequence of UTF-8 bytes, so it is a \<^typ>\<open>string\<close> here (one
  \<^typ>\<open>char\<close> per byte) and \<^verbatim>\<open>len()\<close> is \<^const>\<open>length\<close>.  The operations that Rust defines on
  Unicode scalar values (\<^verbatim>\<open>trim\<close>, \<^verbatim>\<open>char::is_whitespace\<close>, \<^verbatim>\<open>char::is_control\<close>) are given on the
  UTF-8 encodings of those scalar values.

  The locale \<open>state_machine\<close> is the contract every stateful component of the development
  meets: an initial state, a step function and an invariant that the steps keep.
\<close>

named_theorems result_simps \<open>equations of the result combinators\<close>

named_theorems str_defs \<open>definitions of the string operations, for evaluation\<close>

section \<open>Results\<close>

type_synonym ('e, 'a) result = "'e + 'a"

abbreviation Ok :: "'a \<Rightarrow> ('e, 'a) result" where
  "Ok \<equiv> Inr"

abbreviation Err :: "'e \<Rightarrow> ('e, 'a) result" where
  "Err \<equiv> Inl"

text \<open>\<^verbatim>\<open>Result::and_then\<close>, which is also what the \<^verbatim>\<open>?\<close> operator does.\<close>

definition and_then :: "('e, 'a) result \<Rightarrow> ('a \<Rightarrow> ('e, 'b) result) \<Rightarrow> ('e, 'b) result" where
  "and_then m f = (case m of Inl e \<Rightarrow> Inl e | Inr x \<Rightarrow> f x)"

text \<open>\<^verbatim>\<open>Result::map_err\<close>, \<^verbatim>\<open>Option::ok_or\<close>, and a guard: \<^verbatim>\<open>if !c { return Err(e) }\<close>.\<close>

definition map_err :: "('e \<Rightarrow> 'f) \<Rightarrow> ('e, 'a) result \<Rightarrow> ('f, 'a) result" where
  "map_err f m = (case m of Inl e \<Rightarrow> Inl (f e) | Inr x \<Rightarrow> Inr x)"

definition ok_or :: "'e \<Rightarrow> 'a option \<Rightarrow> ('e, 'a) result" where
  "ok_or e m = (case m of None \<Rightarrow> Inl e | Some x \<Rightarrow> Inr x)"

definition ensure :: "bool \<Rightarrow> 'e \<Rightarrow> ('e, unit) result" where
  "ensure c e = (if c then Inr () else Inl e)"

definition is_ok :: "('e, 'a) result \<Rightarrow> bool" where
  "is_ok m = (case m of Inl _ \<Rightarrow> False | Inr _ \<Rightarrow> True)"

lemma and_then_simps [simp, result_simps]:
  "and_then (Inl e) f = Inl e"
  "and_then (Inr x) f = f x"
  by (simp_all add: and_then_def)

lemma and_then_eq_Inr_iff [simp, result_simps]:
  "and_then m f = Inr y \<longleftrightarrow> (\<exists>x. m = Inr x \<and> f x = Inr y)"
  by (cases m) simp_all

lemma and_then_eq_Inl_iff [result_simps]:
  "and_then m f = Inl e \<longleftrightarrow> m = Inl e \<or> (\<exists>x. m = Inr x \<and> f x = Inl e)"
  by (cases m) auto

lemma map_err_simps [simp, result_simps]:
  "map_err f (Inl e) = Inl (f e)"
  "map_err f (Inr x) = Inr x"
  by (simp_all add: map_err_def)

lemma map_err_eq_Inr_iff [simp, result_simps]: "map_err f m = Inr x \<longleftrightarrow> m = Inr x"
  by (cases m) simp_all

lemma ok_or_simps [simp, result_simps]:
  "ok_or e None = Inl e"
  "ok_or e (Some x) = Inr x"
  by (simp_all add: ok_or_def)

lemma ok_or_eq_Inr_iff [simp, result_simps]: "ok_or e m = Inr x \<longleftrightarrow> m = Some x"
  by (cases m) simp_all

lemma ensure_simps [simp, result_simps]:
  "ensure True e = Inr ()"
  "ensure False e = Inl e"
  by (simp_all add: ensure_def)

lemma ensure_eq_Inr_iff [simp, result_simps]: "ensure c e = Inr u \<longleftrightarrow> c"
  by (simp add: ensure_def)

lemma ensure_eq_Inl_iff [result_simps]: "ensure c e = Inl f \<longleftrightarrow> \<not> c \<and> e = f"
  by (auto simp: ensure_def)

lemma is_ok_simps [simp, result_simps]:
  "\<not> is_ok (Inl e)"
  "is_ok (Inr x)"
  by (simp_all add: is_ok_def)

lemma is_ok_iff: "is_ok m \<longleftrightarrow> (\<exists>x. m = Inr x)"
  by (cases m) simp_all

text \<open>\<^verbatim>\<open>iter().map(f).collect::<Result<Vec<_>, _>>()\<close>: the first error stops the traversal.\<close>

fun collect_results :: "('a \<Rightarrow> ('e, 'b) result) \<Rightarrow> 'a list \<Rightarrow> ('e, 'b list) result" where
  "collect_results f [] = Inr []"
| "collect_results f (x # xs) =
     and_then (f x) (\<lambda>y. and_then (collect_results f xs) (\<lambda>ys. Inr (y # ys)))"

lemma collect_results_Inr_iff:
  "collect_results f xs = Inr ys \<longleftrightarrow> list_all2 (\<lambda>x y. f x = Inr y) xs ys"
proof (induction xs arbitrary: ys)
  case Nil
  then show ?case by auto
next
  case (Cons x xs)
  then show ?case by (cases ys) auto
qed

lemma collect_results_length: "collect_results f xs = Inr ys \<Longrightarrow> length ys = length xs"
  by (auto simp: collect_results_Inr_iff dest: list_all2_lengthD)

section \<open>Machine integers\<close>

type_synonym u8 = "8 word"
type_synonym u16 = "16 word"
type_synonym u32 = "32 word"
type_synonym u64 = "64 word"

text \<open>\<^verbatim>\<open>i64\<close> values are integers within these bounds; \<^verbatim>\<open>saturating_add\<close> and
  \<^verbatim>\<open>saturating_sub\<close> clamp to them.\<close>

definition i64_min :: int where "i64_min = - (2 ^ 63)"
definition i64_max :: int where "i64_max = 2 ^ 63 - 1"

definition i64_saturate :: "int \<Rightarrow> int" where
  "i64_saturate x = max i64_min (min i64_max x)"

lemma i64_saturate_bounds: "i64_min \<le> i64_saturate x \<and> i64_saturate x \<le> i64_max"
  by (simp add: i64_saturate_def i64_min_def i64_max_def)

lemma i64_saturate_id: "i64_min \<le> x \<Longrightarrow> x \<le> i64_max \<Longrightarrow> i64_saturate x = x"
  by (simp add: i64_saturate_def)

lemma i64_saturate_mono: "x \<le> y \<Longrightarrow> i64_saturate x \<le> i64_saturate y"
  by (auto simp: i64_saturate_def)

text \<open>\<^verbatim>\<open>usize\<close> is 64 bits wide on every supported target.\<close>

definition usize_max :: nat where "usize_max = 2 ^ 64 - 1"

definition usize_saturating_add :: "nat \<Rightarrow> nat \<Rightarrow> nat" where
  "usize_saturating_add a b = min usize_max (a + b)"

text \<open>\<^verbatim>\<open>u64::checked_add\<close>.\<close>

definition u64_checked_add :: "u64 \<Rightarrow> u64 \<Rightarrow> u64 option" where
  "u64_checked_add a b = (if uint a + uint b < 2 ^ 64 then Some (a + b) else None)"

lemma u64_checked_add_Some:
  "u64_checked_add a b = Some c \<Longrightarrow> uint c = uint a + uint b"
  by (auto simp: u64_checked_add_def uint_word_ariths split: if_splits)

lemma u64_checked_add_1_greater: "u64_checked_add a 1 = Some c \<Longrightarrow> a < c"
  by (drule u64_checked_add_Some) (simp add: word_less_alt)

lemma u64_checked_add_1_None: "u64_checked_add a 1 = None \<longleftrightarrow> a = - 1"
proof
  assume "u64_checked_add a 1 = None"
  then have "uint a + 1 \<ge> 2 ^ 64"
    by (simp add: u64_checked_add_def split: if_splits)
  moreover have "uint a < 2 ^ 64"
    using unsigned_less [of a, where ?'a = int] by simp
  ultimately have "uint a = uint (- 1 :: u64)"
    by (simp add: unsigned_minus_1_eq_mask mask_eq_exp_minus_1)
  then show "a = - 1" by (simp only: word_uint_eq_iff)
next
  assume "a = - 1"
  then show "u64_checked_add a 1 = None"
    by (simp add: u64_checked_add_def unsigned_minus_1_eq_mask mask_eq_exp_minus_1)
qed

section \<open>State machines\<close>

text \<open>
  A component with state, as its clients see it: where it starts, what one call does, and what
  is always true of it.
\<close>

fun run :: "('s \<Rightarrow> 'op \<Rightarrow> 's) \<Rightarrow> 's \<Rightarrow> 'op list \<Rightarrow> 's" where
  "run step s [] = s"
| "run step s (x # xs) = run step (step s x) xs"

lemma run_append: "run step s (xs @ ys) = run step (run step s xs) ys"
  by (induction xs arbitrary: s) simp_all

locale state_machine =
  fixes init :: 's
    and step :: "'s \<Rightarrow> 'op \<Rightarrow> 's"
    and inv :: "'s \<Rightarrow> bool"
  assumes inv_init: "inv init"
    and inv_step: "inv s \<Longrightarrow> inv (step s x)"
begin

lemma inv_run_from: "inv s \<Longrightarrow> inv (run step s xs)"
  by (induction xs arbitrary: s) (simp_all add: inv_step)

lemma inv_run: "inv (run step init xs)"
  by (rule inv_run_from) (rule inv_init)

end

text \<open>
  A machine whose steps never lower a stamp: what was stamped before stays behind every later
  state.
\<close>

locale stamped_machine = state_machine init step inv
  for init :: 's and step :: "'s \<Rightarrow> 'op \<Rightarrow> 's" and inv :: "'s \<Rightarrow> bool" +
  fixes stamp :: "'s \<Rightarrow> 't::order"
  assumes stamp_step: "inv s \<Longrightarrow> stamp s \<le> stamp (step s x)"
begin

lemma stamp_run: "inv s \<Longrightarrow> stamp s \<le> stamp (run step s xs)"
proof (induction xs arbitrary: s)
  case Nil
  then show ?case by simp
next
  case (Cons x xs)
  have "stamp s \<le> stamp (step s x)"
    using Cons.prems by (rule stamp_step)
  also have "\<dots> \<le> stamp (run step (step s x) xs)"
    using Cons.prems by (intro Cons.IH inv_step)
  finally show ?case by simp
qed

lemma stamp_run_between:
  "inv s \<Longrightarrow> stamp s \<le> stamp (run step s xs) \<and> stamp (run step s xs) \<le> stamp (run step s (xs @ ys))"
  by (simp add: stamp_run run_append inv_run_from)

end

end
