(* ===== verification/Rust_Str.thy ===== *)
theory Rust_Str
  imports Prelude "HOL-Library.Sublist"
begin

text \<open>
  The operations of Rust's \<^verbatim>\<open>str\<close>, \<^verbatim>\<open>u8\<close> and \<^verbatim>\<open>char\<close> that the sources call: ASCII classes,
  splitting and joining, \<^verbatim>\<open>lines\<close>, \<^verbatim>\<open>trim\<close>, decimal printing and parsing of unsigned integers.
  The lemmas are the round trips between splitting and joining and between printing and parsing.
\<close>

section \<open>Bytes\<close>

abbreviation byte_of :: "char \<Rightarrow> nat" where
  "byte_of c \<equiv> of_char c"

definition is_ascii_digit :: "char \<Rightarrow> bool" where
  "is_ascii_digit c \<longleftrightarrow> 48 \<le> byte_of c \<and> byte_of c \<le> 57"

definition is_ascii_lowercase :: "char \<Rightarrow> bool" where
  "is_ascii_lowercase c \<longleftrightarrow> 97 \<le> byte_of c \<and> byte_of c \<le> 122"

definition is_ascii_uppercase :: "char \<Rightarrow> bool" where
  "is_ascii_uppercase c \<longleftrightarrow> 65 \<le> byte_of c \<and> byte_of c \<le> 90"

definition is_ascii_alphabetic :: "char \<Rightarrow> bool" where
  "is_ascii_alphabetic c \<longleftrightarrow> is_ascii_lowercase c \<or> is_ascii_uppercase c"

definition is_ascii_alphanumeric :: "char \<Rightarrow> bool" where
  "is_ascii_alphanumeric c \<longleftrightarrow> is_ascii_alphabetic c \<or> is_ascii_digit c"

definition is_ascii_hexdigit :: "char \<Rightarrow> bool" where
  "is_ascii_hexdigit c \<longleftrightarrow>
     is_ascii_digit c \<or> (65 \<le> byte_of c \<and> byte_of c \<le> 70) \<or> (97 \<le> byte_of c \<and> byte_of c \<le> 102)"

definition is_ascii_graphic :: "char \<Rightarrow> bool" where
  "is_ascii_graphic c \<longleftrightarrow> 33 \<le> byte_of c \<and> byte_of c \<le> 126"

text \<open>\<^verbatim>\<open>str::is_ascii\<close>\<close>

definition str_is_ascii :: "string \<Rightarrow> bool" where
  "str_is_ascii s \<longleftrightarrow> (\<forall>c \<in> set s. byte_of c < 128)"

definition ascii_lower :: "char \<Rightarrow> char" where
  "ascii_lower c = (if is_ascii_uppercase c then char_of (byte_of c + 32) else c)"

definition to_ascii_lowercase :: "string \<Rightarrow> string" where
  "to_ascii_lowercase s = map ascii_lower s"

definition eq_ignore_ascii_case :: "string \<Rightarrow> string \<Rightarrow> bool" where
  "eq_ignore_ascii_case a b \<longleftrightarrow> to_ascii_lowercase a = to_ascii_lowercase b"

lemmas ascii_class_defs =
  is_ascii_digit_def is_ascii_lowercase_def is_ascii_uppercase_def is_ascii_alphabetic_def
  is_ascii_alphanumeric_def is_ascii_hexdigit_def is_ascii_graphic_def

lemmas [str_defs] =
  ascii_class_defs str_is_ascii_def ascii_lower_def to_ascii_lowercase_def eq_ignore_ascii_case_def

abbreviation newline_char :: char where "newline_char \<equiv> CHR 0x0A"
abbreviation cr_char :: char where "cr_char \<equiv> CHR 0x0D"

section \<open>Splitting and joining\<close>

text \<open>\<^verbatim>\<open>str::split(char)\<close>: never empty, one part more than separators.\<close>

fun split_on :: "char \<Rightarrow> string \<Rightarrow> string list" where
  "split_on c [] = [[]]"
| "split_on c (x # xs) =
     (if x = c then [] # split_on c xs
      else (case split_on c xs of [] \<Rightarrow> [[x]] | p # ps \<Rightarrow> (x # p) # ps))"

text \<open>\<^verbatim>\<open>str::split_inclusive(char)\<close>: each part keeps its terminator.\<close>

fun split_inclusive :: "char \<Rightarrow> string \<Rightarrow> string list" where
  "split_inclusive c [] = []"
| "split_inclusive c (x # xs) =
     (if x = c then [x] # split_inclusive c xs
      else (case split_inclusive c xs of [] \<Rightarrow> [[x]] | p # ps \<Rightarrow> (x # p) # ps))"

text \<open>\<^verbatim>\<open>str::split_once(char)\<close> and \<^verbatim>\<open>str::rsplit_once(char)\<close>\<close>

fun split_once :: "char \<Rightarrow> string \<Rightarrow> (string \<times> string) option" where
  "split_once c [] = None"
| "split_once c (x # xs) =
     (if x = c then Some ([], xs)
      else (case split_once c xs of None \<Rightarrow> None | Some (a, b) \<Rightarrow> Some (x # a, b)))"

definition rsplit_once :: "char \<Rightarrow> string \<Rightarrow> (string \<times> string) option" where
  "rsplit_once c s =
     (case split_once c (rev s) of None \<Rightarrow> None | Some (a, b) \<Rightarrow> Some (rev b, rev a))"

text \<open>\<^verbatim>\<open>str::strip_prefix(&str)\<close>, and \<^verbatim>\<open>split_once(&str)\<close> for a separator of several bytes.\<close>

fun strip_prefix :: "string \<Rightarrow> string \<Rightarrow> string option" where
  "strip_prefix [] s = Some s"
| "strip_prefix (p # ps) [] = None"
| "strip_prefix (p # ps) (x # xs) = (if p = x then strip_prefix ps xs else None)"

fun split_once_str :: "string \<Rightarrow> string \<Rightarrow> (string \<times> string) option" where
  "split_once_str p [] = (if p = [] then Some ([], []) else None)"
| "split_once_str p (x # xs) =
     (case strip_prefix p (x # xs) of
        Some rest \<Rightarrow> Some ([], rest)
      | None \<Rightarrow> (case split_once_str p xs of None \<Rightarrow> None | Some (a, b) \<Rightarrow> Some (x # a, b)))"

definition strip_suffix_char :: "char \<Rightarrow> string \<Rightarrow> string option" where
  "strip_suffix_char c s = (if s \<noteq> [] \<and> last s = c then Some (butlast s) else None)"

definition strip_prefix_char :: "char \<Rightarrow> string \<Rightarrow> string option" where
  "strip_prefix_char c s = (case s of [] \<Rightarrow> None | x # xs \<Rightarrow> if x = c then Some xs else None)"

definition starts_with_char :: "char \<Rightarrow> string \<Rightarrow> bool" where
  "starts_with_char c s \<longleftrightarrow> s \<noteq> [] \<and> hd s = c"

definition ends_with_char :: "char \<Rightarrow> string \<Rightarrow> bool" where
  "ends_with_char c s \<longleftrightarrow> s \<noteq> [] \<and> last s = c"

text \<open>\<^verbatim>\<open>str::contains(&str)\<close>\<close>

fun contains_str :: "string \<Rightarrow> string \<Rightarrow> bool" where
  "contains_str p [] \<longleftrightarrow> p = []"
| "contains_str p (x # xs) \<longleftrightarrow> strip_prefix p (x # xs) \<noteq> None \<or> contains_str p xs"

text \<open>\<^verbatim>\<open>[&str]::join(&str)\<close>\<close>

fun join :: "string \<Rightarrow> string list \<Rightarrow> string" where
  "join sep [] = []"
| "join sep [p] = p"
| "join sep (p # q # ps) = p @ sep @ join sep (q # ps)"

text \<open>\<^verbatim>\<open>str::lines\<close>: a line ends with a line feed, which is removed with a carriage return before
  it; a last line with no line feed is kept as it is.\<close>

definition chomp :: "string \<Rightarrow> string" where
  "chomp l =
     (case strip_suffix_char newline_char l of
        None \<Rightarrow> l
      | Some l' \<Rightarrow> (case strip_suffix_char cr_char l' of None \<Rightarrow> l' | Some l'' \<Rightarrow> l''))"

definition str_lines :: "string \<Rightarrow> string list" where
  "str_lines s = map chomp (split_inclusive newline_char s)"

lemmas [str_defs] =
  rsplit_once_def strip_suffix_char_def strip_prefix_char_def starts_with_char_def
  ends_with_char_def chomp_def str_lines_def

lemma split_on_not_Nil [simp]: "split_on c s \<noteq> []"
  by (cases s) (auto split: list.splits)

lemma join_Cons: "ps \<noteq> [] \<Longrightarrow> join sep (p # ps) = p @ sep @ join sep ps"
  by (cases ps) simp_all

lemma join_Cons_char: "ps \<noteq> [] \<Longrightarrow> join sep ((x # p) # ps) = x # join sep (p # ps)"
  by (cases ps) simp_all

lemma join_split_on: "join [c] (split_on c s) = s"
proof (induction s)
  case Nil
  then show ?case by simp
next
  case (Cons x xs)
  obtain p ps where ps: "split_on c xs = p # ps"
    by (cases "split_on c xs") auto
  show ?case
  proof (cases "x = c")
    case True
    with Cons ps show ?thesis by simp
  next
    case False
    with Cons ps show ?thesis by (cases ps) (simp_all add: join_Cons_char)
  qed
qed

lemma split_on_absent: "c \<notin> set s \<Longrightarrow> split_on c s = [s]"
  by (induction s) auto

lemma split_on_append: "c \<notin> set p \<Longrightarrow> split_on c (p @ c # s) = p # split_on c s"
  by (induction p) auto

lemma split_on_join:
  "ps \<noteq> [] \<Longrightarrow> \<forall>p \<in> set ps. c \<notin> set p \<Longrightarrow> split_on c (join [c] ps) = ps"
proof (induction "[c]" ps rule: join.induct)
  case (2 p)
  then show ?case by (simp add: split_on_absent)
next
  case (3 p q ps)
  then show ?case by (simp add: split_on_append)
qed simp

lemma split_on_parts: "p \<in> set (split_on c s) \<Longrightarrow> c \<notin> set p"
proof (induction s arbitrary: p)
  case Nil
  then show ?case by simp
next
  case (Cons x xs)
  obtain q qs where qs: "split_on c xs = q # qs"
    by (cases "split_on c xs") auto
  with Cons show ?case by (auto split: if_splits)
qed

lemma split_on_subset: "p \<in> set (split_on c s) \<Longrightarrow> set p \<subseteq> set s"
proof (induction s arbitrary: p)
  case Nil
  then show ?case by simp
next
  case (Cons x xs)
  obtain q qs where qs: "split_on c xs = q # qs"
    by (cases "split_on c xs") auto
  with Cons show ?case by (fastforce split: if_splits)
qed

lemma split_once_Some_iff:
  "split_once c s = Some (a, b) \<longleftrightarrow> s = a @ c # b \<and> c \<notin> set a"
proof (induction s arbitrary: a)
  case Nil
  then show ?case by simp
next
  case (Cons x xs)
  show ?case
  proof (cases "x = c")
    case True
    then show ?thesis by (cases a) auto
  next
    case False
    have "split_once c (x # xs) = Some (a, b) \<longleftrightarrow>
        (\<exists>a'. split_once c xs = Some (a', b) \<and> a = x # a')"
      using False by (auto split: option.splits)
    also have "\<dots> \<longleftrightarrow> (\<exists>a'. xs = a' @ c # b \<and> c \<notin> set a' \<and> a = x # a')"
      by (simp add: Cons.IH)
    also have "\<dots> \<longleftrightarrow> x # xs = a @ c # b \<and> c \<notin> set a"
      using False by (cases a) auto
    finally show ?thesis .
  qed
qed

lemma split_once_None_iff: "split_once c s = None \<longleftrightarrow> c \<notin> set s"
  by (induction s) (auto split: option.splits)

lemma rsplit_once_Some_iff:
  "rsplit_once c s = Some (a, b) \<longleftrightarrow> s = a @ c # b \<and> c \<notin> set b"
proof -
  have "rsplit_once c s = Some (a, b) \<longleftrightarrow> split_once c (rev s) = Some (rev b, rev a)"
    by (auto simp: rsplit_once_def split: option.splits)
  also have "\<dots> \<longleftrightarrow> rev s = rev (a @ c # b) \<and> c \<notin> set b"
    by (simp add: split_once_Some_iff)
  also have "rev s = rev (a @ c # b) \<longleftrightarrow> s = a @ c # b"
    by (simp only: rev_is_rev_conv)
  finally show ?thesis .
qed

lemma strip_prefix_Some_iff: "strip_prefix p s = Some r \<longleftrightarrow> s = p @ r"
  by (induction p s rule: strip_prefix.induct) auto

lemma strip_prefix_char_Some_iff: "strip_prefix_char c s = Some r \<longleftrightarrow> s = c # r"
  by (auto simp: strip_prefix_char_def split: list.splits)

lemma strip_suffix_char_Some_iff: "strip_suffix_char c s = Some r \<longleftrightarrow> s = r @ [c]"
proof
  assume "strip_suffix_char c s = Some r"
  then have "s \<noteq> []" "last s = c" "r = butlast s"
    by (auto simp: strip_suffix_char_def split: if_splits)
  then show "s = r @ [c]" using append_butlast_last_id by metis
qed (simp add: strip_suffix_char_def)

lemma concat_split_inclusive: "concat (split_inclusive c s) = s"
proof (induction s)
  case Nil
  then show ?case by simp
next
  case (Cons x xs)
  then show ?case by (cases "split_inclusive c xs") auto
qed

lemma split_inclusive_part_nonempty: "p \<in> set (split_inclusive c s) \<Longrightarrow> p \<noteq> []"
proof (induction s arbitrary: p)
  case Nil
  then show ?case by simp
next
  case (Cons x xs)
  then show ?case by (cases "split_inclusive c xs") (auto split: if_splits)
qed

lemma split_inclusive_append:
  "c \<notin> set p \<Longrightarrow> split_inclusive c (p @ c # s) = (p @ [c]) # split_inclusive c s"
  by (induction p) auto

lemma split_inclusive_absent: "c \<notin> set s \<Longrightarrow> s \<noteq> [] \<Longrightarrow> split_inclusive c s = [s]"
proof (induction s)
  case Nil
  then show ?case by simp
next
  case (Cons x xs)
  then show ?case by (cases xs) auto
qed

section \<open>Whitespace and control characters\<close>

text \<open>
  The Unicode \<^verbatim>\<open>White_Space\<close> scalar values in UTF-8: U+0009 to U+000D and U+0020 are one byte,
  U+0085 and U+00A0 two, and U+1680, U+2000 to U+200A, U+2028, U+2029, U+202F, U+205F and U+3000
  three.
\<close>

definition ws1 :: "char \<Rightarrow> bool" where
  "ws1 a \<longleftrightarrow> 9 \<le> byte_of a \<and> byte_of a \<le> 13 \<or> byte_of a = 32"

definition ws2 :: "char \<Rightarrow> char \<Rightarrow> bool" where
  "ws2 a b \<longleftrightarrow> byte_of a = 0xC2 \<and> (byte_of b = 0x85 \<or> byte_of b = 0xA0)"

definition ws3 :: "char \<Rightarrow> char \<Rightarrow> char \<Rightarrow> bool" where
  "ws3 a b c \<longleftrightarrow>
     byte_of a = 0xE1 \<and> byte_of b = 0x9A \<and> byte_of c = 0x80
   \<or> byte_of a = 0xE2 \<and> byte_of b = 0x80 \<and>
       (0x80 \<le> byte_of c \<and> byte_of c \<le> 0x8A \<or> byte_of c = 0xA8 \<or> byte_of c = 0xA9 \<or> byte_of c = 0xAF)
   \<or> byte_of a = 0xE2 \<and> byte_of b = 0x81 \<and> byte_of c = 0x9F
   \<or> byte_of a = 0xE3 \<and> byte_of b = 0x80 \<and> byte_of c = 0x80"

text \<open>\<open>trim_with w1 w2 w3\<close> drops whitespace scalar values from the front; \<open>trim_end\<close> runs it on the
  reversed bytes, where the bytes of each scalar value come in reverse order.\<close>

fun trim_with ::
  "(char \<Rightarrow> bool) \<Rightarrow> (char \<Rightarrow> char \<Rightarrow> bool) \<Rightarrow> (char \<Rightarrow> char \<Rightarrow> char \<Rightarrow> bool) \<Rightarrow> string \<Rightarrow> string"
where
  "trim_with w1 w2 w3 (a # s) =
     (if w1 a then trim_with w1 w2 w3 s
      else (case s of
              b # s' \<Rightarrow>
                if w2 a b then trim_with w1 w2 w3 s'
                else (case s' of
                        c # s'' \<Rightarrow> if w3 a b c then trim_with w1 w2 w3 s'' else a # s
                      | [] \<Rightarrow> a # s)
            | [] \<Rightarrow> a # s))"
| "trim_with w1 w2 w3 [] = []"

definition trim_start :: "string \<Rightarrow> string" where
  "trim_start s = trim_with ws1 ws2 ws3 s"

definition trim_end :: "string \<Rightarrow> string" where
  "trim_end s = rev (trim_with ws1 (\<lambda>b a. ws2 a b) (\<lambda>c b a. ws3 a b c) (rev s))"

definition trim :: "string \<Rightarrow> string" where
  "trim s = trim_end (trim_start s)"

text \<open>\<^verbatim>\<open>chars().any(char::is_whitespace)\<close> and \<^verbatim>\<open>chars().any(char::is_control)\<close> (the scalar values of
  category Cc: U+0000 to U+001F and U+007F to U+009F).\<close>

fun any_whitespace :: "string \<Rightarrow> bool" where
  "any_whitespace [] \<longleftrightarrow> False"
| "any_whitespace (a # s) \<longleftrightarrow>
     ws1 a \<or> (case s of b # s' \<Rightarrow> ws2 a b \<or> (case s' of c # _ \<Rightarrow> ws3 a b c | [] \<Rightarrow> False) | [] \<Rightarrow> False)
     \<or> any_whitespace s"

fun any_control :: "string \<Rightarrow> bool" where
  "any_control [] \<longleftrightarrow> False"
| "any_control (a # s) \<longleftrightarrow>
     byte_of a < 32 \<or> byte_of a = 127
     \<or> (case s of b # _ \<Rightarrow> byte_of a = 0xC2 \<and> 0x80 \<le> byte_of b \<and> byte_of b \<le> 0x9F | [] \<Rightarrow> False)
     \<or> any_control s"

lemmas [str_defs] = ws1_def ws2_def ws3_def trim_start_def trim_end_def trim_def

lemma trim_with_suffix: "suffix (trim_with w1 w2 w3 s) s"
  by (induction w1 w2 w3 s rule: trim_with.induct) (simp_all add: suffix_Cons split: list.splits)

lemma trim_with_idem: "trim_with w1 w2 w3 (trim_with w1 w2 w3 s) = trim_with w1 w2 w3 s"
proof (induction w1 w2 w3 s rule: trim_with.induct)
  case (1 w1 w2 w3 a s)
  then show ?case by (auto split: list.splits)
qed simp

lemma set_trim_start_subset: "set (trim_start s) \<subseteq> set s"
  unfolding trim_start_def by (intro set_mono_suffix trim_with_suffix)

lemma set_trim_end_subset: "set (trim_end s) \<subseteq> set s"
  using set_mono_suffix [OF trim_with_suffix [of ws1 "\<lambda>b a. ws2 a b" "\<lambda>c b a. ws3 a b c" "rev s"]]
  by (simp add: trim_end_def)

lemma trim_end_prefix: "prefix (trim_end s) s"
  using trim_with_suffix [of ws1 "\<lambda>b a. ws2 a b" "\<lambda>c b a. ws3 a b c" "rev s"]
  by (simp add: trim_end_def suffix_to_prefix)

lemma set_trim_subset: "set (trim s) \<subseteq> set s"
  using set_trim_start_subset set_trim_end_subset unfolding trim_def by blast

text \<open>An ASCII byte is no part of a longer whitespace encoding.\<close>

lemma ascii_not_ws:
  "byte_of c < 128 \<Longrightarrow> \<not> ws2 c b" "byte_of c < 128 \<Longrightarrow> \<not> ws2 a c"
  "byte_of c < 128 \<Longrightarrow> \<not> ws3 c a b" "byte_of c < 128 \<Longrightarrow> \<not> ws3 a b c"
  by (auto simp: ws2_def ws3_def)

lemma trim_start_ascii: "\<not> ws1 c \<Longrightarrow> byte_of c < 128 \<Longrightarrow> trim_start (c # s) = c # s"
  by (simp add: trim_start_def ascii_not_ws split: list.split)

lemma trim_end_ascii: "\<not> ws1 c \<Longrightarrow> byte_of c < 128 \<Longrightarrow> trim_end (s @ [c]) = s @ [c]"
  by (simp add: trim_end_def ascii_not_ws split: list.split)

lemma trim_ascii_ends:
  assumes "s \<noteq> []" and "\<not> ws1 (hd s)" and "byte_of (hd s) < 128" and "\<not> ws1 (last s)"
    and "byte_of (last s) < 128"
  shows "trim s = s"
proof -
  have "trim_start s = s"
    using trim_start_ascii [of "hd s" "tl s"] assms by simp
  moreover have "trim_end s = s"
    using trim_end_ascii [of "last s" "butlast s"] assms by simp
  ultimately show ?thesis by (simp add: trim_def)
qed

text \<open>A text that starts with a visible ASCII byte keeps it when trimmed.\<close>

lemma trim_Cons_ascii:
  assumes "\<not> ws1 c" and "byte_of c < 128"
  shows "\<exists>t. trim (c # s) = c # t \<or> trim (c # s) = []"
proof -
  have "prefix (trim (c # s)) (c # s)"
    using trim_end_prefix [of "c # s"] trim_start_ascii [OF assms] by (simp add: trim_def)
  then show ?thesis by (cases "trim (c # s)") auto
qed

lemma trim_with_unfold:
  "trim_with w1 w2 w3 [a] = (if w1 a then [] else [a])"
  "trim_with w1 w2 w3 [a, b] =
     (if w1 a then trim_with w1 w2 w3 [b] else if w2 a b then [] else [a, b])"
  "trim_with w1 w2 w3 (a # b # c # s) =
     (if w1 a then trim_with w1 w2 w3 (b # c # s)
      else if w2 a b then trim_with w1 w2 w3 (c # s)
      else if w3 a b c then trim_with w1 w2 w3 s else a # b # c # s)"
  by simp_all

lemma trim_with_snoc:
  assumes "\<And>a. \<not> w2 a c" and "\<And>a b. \<not> w3 a b c"
  shows "trim_with w1 w2 w3 (s @ [c]) =
    (if trim_with w1 w2 w3 s = [] then trim_with w1 w2 w3 [c] else trim_with w1 w2 w3 s @ [c])"
proof (induction "length s" arbitrary: s rule: less_induct)
  case less
  consider "s = []" | a where "s = [a]" | a b where "s = [a, b]" | a b d t where "s = a # b # d # t"
    by (cases s; cases "tl s"; cases "tl (tl s)") auto
  then show ?case
  proof cases
    case (4 a b d t)
    then show ?thesis
      using less [of "b # d # t"] less [of "d # t"] less [of t]
      by (simp add: trim_with_unfold del: trim_with.simps(1))
  qed (simp_all add: trim_with_unfold assms del: trim_with.simps(1))
qed

lemma trim_cr: "trim (s @ [cr_char]) = trim s"
proof -
  have cr: "ws1 cr_char" "byte_of cr_char < 128"
    by (simp_all add: ws1_def)
  have end_cr: "trim_end (t @ [cr_char]) = trim_end t" for t
    using cr by (simp add: trim_end_def)
  have "trim_start (s @ [cr_char]) = (if trim_start s = [] then [] else trim_start s @ [cr_char])"
    unfolding trim_start_def using cr ascii_not_ws by (subst trim_with_snoc) auto
  then show ?thesis
    using end_cr by (simp add: trim_def)
qed

lemma trim_Nil [simp]: "trim [] = []"
  by (simp add: trim_def trim_start_def trim_end_def)

lemma trim_chomp: "newline_char \<notin> set l \<Longrightarrow> trim (chomp (l @ [newline_char])) = trim l"
  by (auto simp: chomp_def strip_suffix_char_def trim_cr dest: append_butlast_last_id
      split: option.splits if_splits) (metis append_butlast_last_id trim_cr)

lemma split_inclusive_parts:
  "p \<in> set (split_inclusive c s) \<Longrightarrow> c \<notin> set p \<or> (\<exists>q. p = q @ [c] \<and> c \<notin> set q)"
proof (induction s arbitrary: p)
  case Nil
  then show ?case by simp
next
  case (Cons x xs)
  show ?case
  proof (cases "x = c \<or> split_inclusive c xs = []")
    case True
    with Cons show ?thesis by (auto split: if_splits)
  next
    case False
    then obtain q qs where qs: "split_inclusive c xs = q # qs" by (cases "split_inclusive c xs") auto
    show ?thesis
    proof (cases "p = x # q")
      case True
      from Cons.IH [of q] qs consider "c \<notin> set q" | r where "q = r @ [c]" "c \<notin> set r" by auto
      then show ?thesis
      proof cases
        case 2
        with True False show ?thesis by (intro disjI2 exI [of _ "x # r"]) auto
      qed (use True False in auto)
    next
      case False
      with Cons qs \<open>\<not> (x = c \<or> _)\<close> show ?thesis by auto
    qed
  qed
qed

lemma chomp_subset: "set (chomp l) \<subseteq> set l"
  by (auto simp: chomp_def strip_suffix_char_def dest: in_set_butlastD split: option.splits if_splits)

lemma str_lines_no_newline: "l \<in> set (str_lines s) \<Longrightarrow> newline_char \<notin> set l"
proof -
  assume "l \<in> set (str_lines s)"
  then obtain p where p: "p \<in> set (split_inclusive newline_char s)" "l = chomp p"
    by (auto simp: str_lines_def)
  from split_inclusive_parts [OF p(1)] consider "newline_char \<notin> set p"
    | q where "p = q @ [newline_char]" "newline_char \<notin> set q" by auto
  then show ?thesis
  proof cases
    case 1
    then show ?thesis using p(2) chomp_subset by blast
  next
    case 2
    then show ?thesis
      by (auto simp: p(2) chomp_def strip_suffix_char_def dest: in_set_butlastD split: option.splits)
  qed
qed

text \<open>The lines of a text as the parsers see them: trimmed, without the empty ones.\<close>

definition line_view :: "string \<Rightarrow> string list" where
  "line_view s = filter (\<lambda>l. l \<noteq> []) (map trim (str_lines s))"

lemma line_view_single: "newline_char \<notin> set p \<Longrightarrow> line_view p = filter (\<lambda>l. l \<noteq> []) [trim p]"
  by (cases "p = []") (auto simp: line_view_def str_lines_def split_inclusive_absent chomp_def
      strip_suffix_char_def dest: last_in_set)

lemma line_view_Cons:
  "newline_char \<notin> set p \<Longrightarrow>
   line_view (p @ newline_char # s) = filter (\<lambda>l. l \<noteq> []) [trim p] @ line_view s"
  by (simp add: line_view_def str_lines_def split_inclusive_append trim_chomp)

lemma line_view_Nil [simp]: "line_view [] = []"
  by (simp add: line_view_def str_lines_def)

lemma line_view_newline:
  assumes "nl = [newline_char] \<or> nl = [cr_char, newline_char]" and "newline_char \<notin> set p"
  shows "line_view (p @ nl @ s) = filter (\<lambda>l. l \<noteq> []) [trim p] @ line_view s"
  using assms(1)
proof
  assume "nl = [newline_char]"
  then show ?thesis using line_view_Cons [OF assms(2), of s] by simp
next
  assume "nl = [cr_char, newline_char]"
  then show ?thesis
    using line_view_Cons [of "p @ [cr_char]" s] assms(2) by (simp add: trim_cr)
qed

lemma line_view_join:
  assumes "nl = [newline_char] \<or> nl = [cr_char, newline_char]" and "\<forall>p \<in> set ps. newline_char \<notin> set p"
    and "trail = [] \<or> trail = nl"
  shows "line_view (join nl ps @ trail) = filter (\<lambda>l. l \<noteq> []) (map trim ps)"
  using assms(2)
proof (induction ps rule: induct_list012)
  case 1
  then show ?case
    using assms(3) line_view_newline [OF assms(1), of "[]" "[]"] by (elim disjE) simp_all
next
  case (2 p)
  then have p: "newline_char \<notin> set p" by simp
  show ?case
    using assms(3) line_view_single [OF p] line_view_newline [OF assms(1) p, of "[]"]
    by (elim disjE) simp_all
next
  case (3 p q ps)
  then show ?case by (simp add: line_view_newline [OF assms(1)])
qed

section \<open>Unsigned decimal integers\<close>

definition digit_char :: "nat \<Rightarrow> char" where
  "digit_char d = char_of (48 + d)"

fun show_nat :: "nat \<Rightarrow> string" where
  "show_nat n = (if n < 10 then [digit_char n] else show_nat (n div 10) @ [digit_char (n mod 10)])"

declare show_nat.simps [simp del]

definition digit_value :: "char \<Rightarrow> nat" where
  "digit_value c = byte_of c - 48"

definition digits_value :: "string \<Rightarrow> nat" where
  "digits_value s = foldl (\<lambda>n c. 10 * n + digit_value c) 0 s"

text \<open>\<^verbatim>\<open>str::parse::<uN>\<close>: an optional \<^verbatim>\<open>+\<close>, then at least one digit, and no overflow.\<close>

definition parse_uint :: "nat \<Rightarrow> string \<Rightarrow> nat option" where
  "parse_uint bits s =
     (let ds = (case s of [] \<Rightarrow> [] | c # cs \<Rightarrow> if c = CHR ''+'' then cs else s)
      in if ds \<noteq> [] \<and> list_all is_ascii_digit ds \<and> int (digits_value ds) < 2 ^ bits
         then Some (digits_value ds) else None)"

lemmas [str_defs] = digit_char_def digit_value_def digits_value_def parse_uint_def

lemma byte_of_digit_char: "d < 10 \<Longrightarrow> byte_of (digit_char d) = 48 + d"
  by (simp add: digit_char_def of_char_of)

lemma is_ascii_digit_digit_char [simp]: "d < 10 \<Longrightarrow> is_ascii_digit (digit_char d)"
  by (simp add: is_ascii_digit_def byte_of_digit_char)

lemma digit_value_digit_char [simp]: "d < 10 \<Longrightarrow> digit_value (digit_char d) = d"
  by (simp add: digit_value_def byte_of_digit_char)

lemma digits_value_append: "digits_value (s @ [c]) = 10 * digits_value s + digit_value c"
  by (simp add: digits_value_def)

lemma show_nat_digits: "list_all is_ascii_digit (show_nat n)"
proof (induction n rule: show_nat.induct)
  case (1 n)
  then show ?case by (subst show_nat.simps) simp
qed

lemma digits_value_show_nat [simp]: "digits_value (show_nat n) = n"
proof (induction n rule: show_nat.induct)
  case (1 n)
  show ?case
  proof (cases "n < 10")
    case True
    then show ?thesis by (subst show_nat.simps) (simp add: digits_value_def)
  next
    case False
    with 1 have "digits_value (show_nat (n div 10)) = n div 10" by simp
    with False show ?thesis by (subst show_nat.simps) (simp add: digits_value_append)
  qed
qed

lemma show_nat_not_Nil [simp]: "show_nat n \<noteq> []"
  by (subst show_nat.simps) simp

lemma plus_not_digit: "\<not> is_ascii_digit (CHR ''+'')"
  by (simp add: is_ascii_digit_def)

lemma show_nat_no_plus: "show_nat n = c # cs \<Longrightarrow> c \<noteq> CHR ''+''"
  using show_nat_digits [of n] plus_not_digit by auto

lemma parse_uint_show_nat: "n < 2 ^ bits \<Longrightarrow> parse_uint bits (show_nat n) = Some n"
proof -
  assume n: "n < 2 ^ bits"
  obtain c cs where ds: "show_nat n = c # cs"
    by (cases "show_nat n") auto
  then have "c \<noteq> CHR ''+''" by (rule show_nat_no_plus)
  with ds n show ?thesis
    using show_nat_digits [of n] digits_value_show_nat [of n]
    by (simp add: parse_uint_def)
qed

lemma parse_uint_bound: "parse_uint bits s = Some n \<Longrightarrow> n < 2 ^ bits"
  by (auto simp: parse_uint_def Let_def split: if_splits)

section \<open>Hexadecimal\<close>

text \<open>Lower-case hexadecimal of the digest bytes, \<^verbatim>\<open>{byte:02x}\<close> for each.\<close>

definition hex_digit :: "nat \<Rightarrow> char" where
  "hex_digit d = (if d < 10 then char_of (48 + d) else char_of (87 + d))"

definition hex_byte :: "u8 \<Rightarrow> string" where
  "hex_byte b = [hex_digit (unat b div 16), hex_digit (unat b mod 16)]"

definition hex_string :: "u8 list \<Rightarrow> string" where
  "hex_string bs = concat (map hex_byte bs)"

lemma byte_of_hex_digit: "d < 16 \<Longrightarrow> byte_of (hex_digit d) = (if d < 10 then 48 + d else 87 + d)"
  by (simp add: hex_digit_def of_char_of)

lemma hex_digit_inj:
  assumes "a < 16" and "b < 16"
  shows "hex_digit a = hex_digit b \<longleftrightarrow> a = b"
proof
  assume "hex_digit a = hex_digit b"
  then have "byte_of (hex_digit a) = byte_of (hex_digit b)" by simp
  with assms show "a = b" by (simp add: byte_of_hex_digit split: if_splits)
qed simp

lemma hex_byte_inj: "hex_byte a = hex_byte b \<longleftrightarrow> a = b"
proof
  assume eq: "hex_byte a = hex_byte b"
  have bound: "unat x div 16 < 16" for x :: u8
    using unsigned_less [of x, where ?'a = nat] by simp
  have "unat a div 16 = unat b div 16" "unat a mod 16 = unat b mod 16"
    using eq by (simp_all add: hex_byte_def hex_digit_inj bound)
  then have "unat a = unat b" by (metis div_mult_mod_eq)
  then show "a = b" by (simp add: word_unat_eq_iff)
qed simp

lemma hex_string_inj: "hex_string xs = hex_string ys \<Longrightarrow> xs = ys"
proof (induction xs arbitrary: ys)
  case Nil
  then show ?case by (cases ys) (simp_all add: hex_string_def hex_byte_def)
next
  case (Cons x xs)
  then obtain y ys' where ys: "ys = y # ys'"
    by (cases ys) (simp_all add: hex_string_def hex_byte_def)
  with Cons.prems have "hex_byte x = hex_byte y" "hex_string xs = hex_string ys'"
    by (simp_all add: hex_string_def hex_byte_def)
  with Cons.IH ys show ?case by (simp add: hex_byte_inj)
qed

lemma length_hex_string [simp]: "length (hex_string bs) = 2 * length bs"
  by (induction bs) (simp_all add: hex_string_def hex_byte_def)

lemma hex_digit_class:
  "d < 16 \<Longrightarrow> is_ascii_hexdigit (hex_digit d) \<and> \<not> is_ascii_uppercase (hex_digit d)"
  by (simp add: is_ascii_hexdigit_def is_ascii_uppercase_def is_ascii_digit_def byte_of_hex_digit)

lemma hex_string_class:
  "list_all (\<lambda>c. is_ascii_hexdigit c \<and> \<not> is_ascii_uppercase c) (hex_string bs)"
proof (induction bs)
  case Nil
  then show ?case by (simp add: hex_string_def)
next
  case (Cons b bs)
  have "unat b div 16 < 16"
    using unsigned_less [of b, where ?'a = nat] by simp
  with Cons show ?case by (simp add: hex_string_def hex_byte_def hex_digit_class)
qed

section \<open>Words\<close>

text \<open>\<^verbatim>\<open>split_whitespace\<close>: the maximal runs without whitespace; \<open>word\<close> is the run being read.\<close>

definition emit_word :: "string \<Rightarrow> string list \<Rightarrow> string list" where
  "emit_word word ws = (if word = [] then ws else word # ws)"

fun split_words :: "string \<Rightarrow> string \<Rightarrow> string list" where
  "split_words word [] = emit_word word []"
| "split_words word (a # s) =
     (if ws1 a then emit_word word (split_words [] s)
      else (case s of
              b # s' \<Rightarrow>
                if ws2 a b then emit_word word (split_words [] s')
                else (case s' of
                        c # s'' \<Rightarrow>
                          if ws3 a b c then emit_word word (split_words [] s'')
                          else split_words (word @ [a]) s
                      | [] \<Rightarrow> split_words (word @ [a]) s)
            | [] \<Rightarrow> split_words (word @ [a]) s))"

definition split_whitespace :: "string \<Rightarrow> string list" where
  "split_whitespace s = split_words [] s"

text \<open>A word of ASCII characters is read up to the blank that follows it.\<close>

definition plain_word :: "string \<Rightarrow> bool" where
  "plain_word s \<longleftrightarrow> s \<noteq> [] \<and> list_all (\<lambda>c. byte_of c < 128 \<and> \<not> ws1 c) s"

lemma split_words_ascii:
  "list_all (\<lambda>c. byte_of c < 128 \<and> \<not> ws1 c) s \<Longrightarrow> t = [] \<or> (\<exists>t'. t = CHR '' '' # t') \<Longrightarrow>
   split_words word (s @ t) = split_words (word @ s) t"
proof (induction s arbitrary: word)
  case Nil
  then show ?case by simp
next
  case (Cons a s)
  from Cons.prems(1) have "\<not> ws1 a" "\<And>b. \<not> ws2 a b" "\<And>b c. \<not> ws3 a b c"
    by (auto simp: ws2_def ws3_def)
  then have "split_words word (a # (s @ t)) = split_words (word @ [a]) (s @ t)"
    by (cases "s @ t"; cases "tl (s @ t)") auto
  also have "\<dots> = split_words ((word @ [a]) @ s) t"
    using Cons by (intro Cons.IH) auto
  finally show ?case by simp
qed

lemma split_words_blank: "split_words word (CHR '' '' # t) = emit_word word (split_words [] t)"
  by (simp add: ws1_def)

lemma split_whitespace_join:
  "list_all plain_word ps \<Longrightarrow> split_whitespace (join '' '' ps) = ps"
proof (induction "'' ''" ps rule: join.induct)
  case 1
  then show ?case by (simp add: split_whitespace_def emit_word_def)
next
  case (2 p)
  then show ?case
    using split_words_ascii [of p "[]" "[]"]
    by (simp add: split_whitespace_def emit_word_def plain_word_def)
next
  case (3 p q ps)
  have "split_words [] (p @ CHR '' '' # join '' '' (q # ps))
      = emit_word p (split_words [] (join '' '' (q # ps)))"
    using 3(2) split_words_ascii [of p "CHR '' '' # join '' '' (q # ps)" "[]"]
    by (simp add: plain_word_def split_words_blank del: split_words.simps)
  with 3 show ?case by (simp add: split_whitespace_def emit_word_def plain_word_def)
qed

end
