(* ===== verification/Ip_Addr.thy ===== *)
theory Ip_Addr
  imports Rust_Str
begin

text \<open>
  The addresses of Rust's \<^verbatim>\<open>std::net\<close>: \<^verbatim>\<open>Ipv4Addr\<close>, \<^verbatim>\<open>Ipv6Addr\<close> and \<^verbatim>\<open>IpAddr\<close> with their
  \<^verbatim>\<open>Display\<close> and \<^verbatim>\<open>FromStr\<close> implementations.  The parser follows the standard library's
  reader, which consumes a prefix of the input: \<open>read_number\<close>, \<open>read_ipv4\<close> and \<open>read_ipv6\<close>
  return what they read and the rest.  The lemmas show that printing and parsing are inverse.
\<close>

section \<open>Addresses and their text\<close>

datatype ipv4_addr = Ipv4Addr u8 u8 u8 u8

datatype ipv6_addr = Ipv6Addr u16 u16 u16 u16 u16 u16 u16 u16

datatype ip_addr = V4 ipv4_addr | V6 ipv6_addr

fun octets :: "ipv4_addr \<Rightarrow> u8 list" where
  "octets (Ipv4Addr a b c d) = [a, b, c, d]"

fun segments :: "ipv6_addr \<Rightarrow> u16 list" where
  "segments (Ipv6Addr a b c d e f g h) = [a, b, c, d, e, f, g, h]"

definition show_ipv4 :: "ipv4_addr \<Rightarrow> string" where
  "show_ipv4 a = join ''.'' (map (\<lambda>b. show_nat (unat b)) (octets a))"

text \<open>\<^verbatim>\<open>{:x}\<close>: hexadecimal without leading zeros.\<close>

definition radix_char :: "nat \<Rightarrow> char" where
  "radix_char d = (if d < 10 then char_of (48 + d) else char_of (87 + d))"

fun show_hex :: "nat \<Rightarrow> string" where
  "show_hex n = (if n < 16 then [radix_char n] else show_hex (n div 16) @ [radix_char (n mod 16)])"

declare show_hex.simps [simp del]

text \<open>The first longest run of zero segments, as its start and length.\<close>

fun zero_span :: "nat \<Rightarrow> nat \<times> nat \<Rightarrow> nat \<times> nat \<Rightarrow> u16 list \<Rightarrow> nat \<times> nat" where
  "zero_span i longest current [] = longest"
| "zero_span i longest current (x # xs) =
     (if x = 0 then
        (let current' = (if snd current = 0 then (i, 1) else (fst current, snd current + 1))
         in zero_span (i + 1) (if snd current' > snd longest then current' else longest) current' xs)
      else zero_span (i + 1) longest (0, 0) xs)"

definition show_segments :: "u16 list \<Rightarrow> string" where
  "show_segments gs = join '':'' (map (\<lambda>g. show_hex (unat g)) gs)"

definition high_byte :: "u16 \<Rightarrow> u8" where
  "high_byte g = word_of_nat (unat g div 256)"

definition low_byte :: "u16 \<Rightarrow> u8" where
  "low_byte g = word_of_nat (unat g mod 256)"

definition word_of_bytes :: "u8 \<Rightarrow> u8 \<Rightarrow> u16" where
  "word_of_bytes a b = word_of_nat (256 * unat a + unat b)"

fun to_ipv4_mapped :: "ipv6_addr \<Rightarrow> ipv4_addr option" where
  "to_ipv4_mapped (Ipv6Addr a b c d e f g h) =
     (if [a, b, c, d, e, f] = [0, 0, 0, 0, 0, 0xFFFF]
      then Some (Ipv4Addr (high_byte g) (low_byte g) (high_byte h) (low_byte h)) else None)"

definition show_ipv6 :: "ipv6_addr \<Rightarrow> string" where
  "show_ipv6 a =
     (case to_ipv4_mapped a of
        Some v4 \<Rightarrow> ''::ffff:'' @ show_ipv4 v4
      | None \<Rightarrow>
          (case zero_span 0 (0, 0) (0, 0) (segments a) of
             (start, len) \<Rightarrow>
               if len > 1
               then show_segments (take start (segments a)) @ ''::''
                      @ show_segments (drop (start + len) (segments a))
               else show_segments (segments a)))"

fun show_ip :: "ip_addr \<Rightarrow> string" where
  "show_ip (V4 a) = show_ipv4 a"
| "show_ip (V6 a) = show_ipv6 a"

text \<open>The address classes of \<^verbatim>\<open>Ipv4Addr\<close>.\<close>

fun is_private :: "ipv4_addr \<Rightarrow> bool" where
  "is_private (Ipv4Addr a b c d) \<longleftrightarrow>
     a = 10 \<or> a = 172 \<and> 16 \<le> b \<and> b \<le> 31 \<or> a = 192 \<and> b = 168"

fun is_loopback :: "ipv4_addr \<Rightarrow> bool" where
  "is_loopback (Ipv4Addr a b c d) \<longleftrightarrow> a = 127"

fun is_link_local :: "ipv4_addr \<Rightarrow> bool" where
  "is_link_local (Ipv4Addr a b c d) \<longleftrightarrow> a = 169 \<and> b = 254"

fun is_multicast :: "ipv4_addr \<Rightarrow> bool" where
  "is_multicast (Ipv4Addr a b c d) \<longleftrightarrow> 224 \<le> a \<and> a \<le> 239"

fun is_documentation :: "ipv4_addr \<Rightarrow> bool" where
  "is_documentation (Ipv4Addr a b c d) \<longleftrightarrow>
     a = 192 \<and> b = 0 \<and> c = 2 \<or> a = 198 \<and> b = 51 \<and> c = 100 \<or> a = 203 \<and> b = 0 \<and> c = 113"

fun is_unspecified :: "ipv4_addr \<Rightarrow> bool" where
  "is_unspecified (Ipv4Addr a b c d) \<longleftrightarrow> [a, b, c, d] = [0, 0, 0, 0]"

section \<open>The reader\<close>

text \<open>\<^verbatim>\<open>char::to_digit\<close> for the radixes 10 and 16.\<close>

definition to_digit :: "nat \<Rightarrow> char \<Rightarrow> nat option" where
  "to_digit radix c =
     (let d = (if 48 \<le> byte_of c \<and> byte_of c \<le> 57 then byte_of c - 48
               else if 97 \<le> byte_of c \<and> byte_of c \<le> 122 then byte_of c - 87
               else if 65 \<le> byte_of c \<and> byte_of c \<le> 90 then byte_of c - 55
               else radix)
      in if d < radix then Some d else None)"

definition is_digit :: "nat \<Rightarrow> char \<Rightarrow> bool" where
  "is_digit radix c \<longleftrightarrow> to_digit radix c \<noteq> None"

definition radix_value :: "nat \<Rightarrow> string \<Rightarrow> nat" where
  "radix_value radix s =
     foldl (\<lambda>n c. radix * n + (case to_digit radix c of Some d \<Rightarrow> d | None \<Rightarrow> 0)) 0 s"

definition read_number :: "nat \<Rightarrow> nat \<Rightarrow> bool \<Rightarrow> nat \<Rightarrow> string \<Rightarrow> (nat \<times> string) option" where
  "read_number radix max_digits allow_zero_prefix bits s =
     (let ds = takeWhile (is_digit radix) s in
      if ds = [] \<or> length ds > max_digits
         \<or> (\<not> allow_zero_prefix \<and> hd ds = CHR ''0'' \<and> length ds > 1)
         \<or> radix_value radix ds \<ge> 2 ^ bits
      then None
      else Some (radix_value radix ds, dropWhile (is_digit radix) s))"

definition read_octet :: "string \<Rightarrow> (u8 \<times> string) option" where
  "read_octet s = map_option (\<lambda>(n, r). (word_of_nat n, r)) (read_number 10 3 False 8 s)"

definition read_segment :: "string \<Rightarrow> (u16 \<times> string) option" where
  "read_segment s = map_option (\<lambda>(n, r). (word_of_nat n, r)) (read_number 16 4 True 16 s)"

definition read_separator :: "char \<Rightarrow> nat \<Rightarrow> (string \<Rightarrow> 'a option) \<Rightarrow> string \<Rightarrow> 'a option" where
  "read_separator sep index inner s =
     (if index > 0 then Option.bind (strip_prefix_char sep s) inner else inner s)"

definition read_ipv4 :: "string \<Rightarrow> (ipv4_addr \<times> string) option" where
  "read_ipv4 s =
     Option.bind (read_octet s) (\<lambda>(a, s1).
     Option.bind (read_separator (CHR ''.'') 1 read_octet s1) (\<lambda>(b, s2).
     Option.bind (read_separator (CHR ''.'') 2 read_octet s2) (\<lambda>(c, s3).
     Option.bind (read_separator (CHR ''.'') 3 read_octet s3) (\<lambda>(d, s4).
     Some (Ipv4Addr a b c d, s4)))))"

fun read_groups :: "nat \<Rightarrow> nat \<Rightarrow> string \<Rightarrow> u16 list \<times> bool \<times> string" where
  "read_groups i 0 s = ([], False, s)"
| "read_groups i (Suc r) s =
     (case (if 0 < r then read_separator (CHR '':'') i read_ipv4 s else None) of
        Some (Ipv4Addr a b c d, s') \<Rightarrow> ([word_of_bytes a b, word_of_bytes c d], True, s')
      | None \<Rightarrow>
          (case read_separator (CHR '':'') i read_segment s of
             None \<Rightarrow> ([], False, s)
           | Some (g, s') \<Rightarrow>
               (case read_groups (i + 1) r s' of (gs, v4, s'') \<Rightarrow> (g # gs, v4, s''))))"

fun ipv6_of_segments :: "u16 list \<Rightarrow> ipv6_addr option" where
  "ipv6_of_segments [a, b, c, d, e, f, g, h] = Some (Ipv6Addr a b c d e f g h)"
| "ipv6_of_segments _ = None"

definition read_ipv6 :: "string \<Rightarrow> (ipv6_addr \<times> string) option" where
  "read_ipv6 s =
     (case read_groups 0 8 s of
        (head, head_ipv4, s1) \<Rightarrow>
          if length head = 8 then map_option (\<lambda>a. (a, s1)) (ipv6_of_segments head)
          else if head_ipv4 then None
          else
            (case strip_prefix ''::'' s1 of
               None \<Rightarrow> None
             | Some s2 \<Rightarrow>
                 (case read_groups 0 (8 - (length head + 1)) s2 of
                    (tail, _, s3) \<Rightarrow>
                      map_option (\<lambda>a. (a, s3))
                        (ipv6_of_segments
                          (head @ replicate (8 - length head - length tail) 0 @ tail)))))"

definition parse_ipv4 :: "string \<Rightarrow> ipv4_addr option" where
  "parse_ipv4 s =
     (if length s > 15 then None
      else case read_ipv4 s of Some (a, []) \<Rightarrow> Some a | _ \<Rightarrow> None)"

definition parse_ip :: "string \<Rightarrow> ip_addr option" where
  "parse_ip s =
     (case read_ipv4 s of
        Some (a, r) \<Rightarrow> if r = [] then Some (V4 a) else None
      | None \<Rightarrow> (case read_ipv6 s of Some (a, []) \<Rightarrow> Some (V6 a) | _ \<Rightarrow> None))"

lemmas [str_defs] =
  show_ipv4_def show_segments_def show_ipv6_def to_digit_def is_digit_def radix_value_def
  read_number_def read_octet_def read_segment_def read_separator_def read_ipv4_def read_ipv6_def
  parse_ipv4_def parse_ip_def

section \<open>Numbers\<close>

lemma is_digit_10 [simp]: "is_digit 10 c \<longleftrightarrow> is_ascii_digit c"
  by (auto simp: is_digit_def to_digit_def is_ascii_digit_def Let_def)

lemma to_digit_10: "is_ascii_digit c \<Longrightarrow> to_digit 10 c = Some (digit_value c)"
  by (auto simp: to_digit_def is_ascii_digit_def digit_value_def Let_def)

lemma radix_value_10: "list_all is_ascii_digit ds \<Longrightarrow> radix_value 10 ds = digits_value ds"
proof -
  have "list_all is_ascii_digit ds \<Longrightarrow>
    foldl (\<lambda>n c. 10 * n + (case to_digit 10 c of Some d \<Rightarrow> d | None \<Rightarrow> 0)) k ds =
    foldl (\<lambda>n c. 10 * n + digit_value c) k ds" for k
    by (induction ds arbitrary: k) (simp_all add: to_digit_10)
  then show "list_all is_ascii_digit ds \<Longrightarrow> ?thesis"
    by (simp add: radix_value_def digits_value_def)
qed

lemma show_nat_length: "0 < k \<Longrightarrow> n < 10 ^ k \<Longrightarrow> length (show_nat n) \<le> k"
proof (induction n arbitrary: k rule: show_nat.induct)
  case (1 n)
  show ?case
  proof (cases "n < 10")
    case True
    with 1 show ?thesis by (subst show_nat.simps) simp
  next
    case False
    with 1 obtain j where j: "k = Suc j" "0 < j"
      by (cases k; cases "k - 1") auto
    with 1 have "n div 10 < 10 ^ j" by auto
    with 1 False j show ?thesis by (subst show_nat.simps) simp
  qed
qed

lemma show_nat_hd: "0 < n \<Longrightarrow> hd (show_nat n) \<noteq> CHR ''0''"
proof (induction n rule: show_nat.induct)
  case (1 n)
  show ?case
  proof (cases "n < 10")
    case True
    then have "byte_of (digit_char n) \<noteq> byte_of (CHR ''0'')"
      using 1 by (simp add: byte_of_digit_char)
    then have "digit_char n \<noteq> CHR ''0''" by metis
    with True show ?thesis by (subst show_nat.simps) simp
  next
    case False
    with 1 show ?thesis by (subst show_nat.simps) simp
  qed
qed

lemma show_nat_leading_zero: "hd (show_nat n) = CHR ''0'' \<Longrightarrow> length (show_nat n) \<le> 1"
  by (cases "n = 0") (auto simp: show_nat.simps [of 0] dest: show_nat_hd)

text \<open>What stops a number: the end, or a byte that is no digit.\<close>

definition stops :: "nat \<Rightarrow> string \<Rightarrow> bool" where
  "stops radix s \<longleftrightarrow> s = [] \<or> \<not> is_digit radix (hd s)"

lemma stops_simps [simp]: "stops radix []" "stops radix (c # s) \<longleftrightarrow> \<not> is_digit radix c"
  by (simp_all add: stops_def)

lemma takeWhile_stops:
  "list_all P ds \<Longrightarrow> r = [] \<or> \<not> P (hd r) \<Longrightarrow> takeWhile P (ds @ r) = ds \<and> dropWhile P (ds @ r) = r"
  by (induction ds) (cases r, auto)+

lemma read_number_append:
  assumes "list_all (is_digit radix) ds" and "stops radix r" and "ds \<noteq> []" and "length ds \<le> k"
    and "z \<or> hd ds \<noteq> CHR ''0'' \<or> length ds \<le> 1" and "radix_value radix ds < 2 ^ bits"
  shows "read_number radix k z bits (ds @ r) = Some (radix_value radix ds, r)"
  using assms takeWhile_stops [OF assms(1), of r]
  by (auto simp: read_number_def stops_def)

lemma read_number_Some:
  assumes "read_number radix k z bits s = Some (n, r)"
  obtains ds where "s = ds @ r" and "list_all (is_digit radix) ds" and "ds \<noteq> []"
    and "radix_value radix ds = n" and "n < 2 ^ bits"
    and "z \<or> hd ds \<noteq> CHR ''0'' \<or> length ds \<le> 1" and "stops radix r"
proof -
  let ?ds = "takeWhile (is_digit radix) s"
  have "stops radix (dropWhile (is_digit radix) s)"
    using hd_dropWhile [of "is_digit radix" s] by (auto simp: stops_def)
  moreover have "list_all (is_digit radix) ?ds"
    by (auto simp: list_all_iff dest: set_takeWhileD)
  ultimately show thesis
    using assms that [of ?ds] by (auto simp: read_number_def Let_def split: if_splits)
qed

lemma digit_char_value: "is_ascii_digit c \<Longrightarrow> digit_char (digit_value c) = c"
  by (simp add: digit_char_def digit_value_def is_ascii_digit_def)

lemma digit_value_less: "is_ascii_digit c \<Longrightarrow> digit_value c < 10"
  by (auto simp: digit_value_def is_ascii_digit_def)

lemma digit_value_zero: "is_ascii_digit c \<Longrightarrow> digit_value c = 0 \<Longrightarrow> c = CHR ''0''"
proof -
  assume "is_ascii_digit c" "digit_value c = 0"
  then have "byte_of c = byte_of (CHR ''0'')"
    by (simp add: is_ascii_digit_def digit_value_def)
  then show ?thesis by (simp only: of_char_eq_iff)
qed

lemma digits_value_pos:
  "list_all is_ascii_digit ds \<Longrightarrow> ds \<noteq> [] \<Longrightarrow> hd ds \<noteq> CHR ''0'' \<Longrightarrow> 0 < digits_value ds"
proof (induction ds rule: rev_induct)
  case Nil
  then show ?case by simp
next
  case (snoc c ds)
  show ?case
  proof (cases "ds = []")
    case True
    with snoc.prems have "is_ascii_digit c" "c \<noteq> CHR ''0''" by simp_all
    then have "digit_value c \<noteq> 0"
      using digit_value_zero by blast
    with True show ?thesis by (simp add: digits_value_def)
  next
    case False
    with snoc show ?thesis by (simp add: digits_value_append)
  qed
qed

text \<open>A decimal numeral without a leading zero is the printed form of its value.\<close>

lemma show_nat_digits_value:
  "list_all is_ascii_digit ds \<Longrightarrow> ds \<noteq> [] \<Longrightarrow> hd ds \<noteq> CHR ''0'' \<or> length ds \<le> 1 \<Longrightarrow>
   show_nat (digits_value ds) = ds"
proof (induction ds rule: rev_induct)
  case Nil
  then show ?case by simp
next
  case (snoc c ds)
  then have c: "is_ascii_digit c" by simp
  show ?case
  proof (cases "ds = []")
    case True
    with c show ?thesis
      using digit_value_less [OF c]
      by (subst show_nat.simps) (simp add: digits_value_def digit_char_value)
  next
    case False
    with snoc.prems have ds: "list_all is_ascii_digit ds" "hd ds \<noteq> CHR ''0''"
      by (cases ds; simp)+
    with False have "0 < digits_value ds" by (simp add: digits_value_pos)
    moreover have "show_nat (digits_value ds) = ds"
      using snoc.IH ds False by simp
    ultimately show ?thesis
      using digit_value_less [OF c] c
      by (subst show_nat.simps) (simp add: digits_value_append digit_char_value)
  qed
qed

section \<open>IPv4 round trips\<close>

lemma unat_u8: "unat (b :: u8) < 256"
  using unsigned_less [of b, where ?'a = nat] by simp

lemma read_octet_show: "stops 10 r \<Longrightarrow> read_octet (show_nat (unat b) @ r) = Some (b, r)"
proof -
  assume r: "stops 10 r"
  have "read_number 10 3 False 8 (show_nat (unat b) @ r) = Some (unat b, r)"
    using read_number_append [of 10 "show_nat (unat b)" r 3 False 8] r
      show_nat_digits [of "unat b"] show_nat_length [of 3 "unat b"] unat_u8 [of b]
      show_nat_leading_zero [of "unat b"]
    by (auto simp: radix_value_10 list_all_iff)
  then show ?thesis by (simp add: read_octet_def)
qed

lemma read_octet_Some:
  assumes "read_octet s = Some (b, r)"
  shows "s = show_nat (unat b) @ r" and "stops 10 r"
proof -
  from assms obtain n where n: "read_number 10 3 False 8 s = Some (n, r)" "b = word_of_nat n"
    by (auto simp: read_octet_def)
  from n(1) obtain ds where ds: "s = ds @ r" "list_all (is_digit 10) ds" "ds \<noteq> []"
      "radix_value 10 ds = n" "n < 2 ^ 8" "hd ds \<noteq> CHR ''0'' \<or> length ds \<le> 1" "stops 10 r"
    by (rule read_number_Some) simp
  then have "show_nat n = ds"
    using show_nat_digits_value [of ds] by (simp add: radix_value_10 list_all_iff)
  moreover have "unat b = n"
    using n(2) ds(5) by (simp add: unsigned_of_nat take_bit_eq_mod)
  ultimately show "s = show_nat (unat b) @ r" "stops 10 r"
    using ds(1,7) by simp_all
qed

lemma dot_not_digit [simp]: "\<not> is_ascii_digit (CHR ''.'')" "\<not> is_ascii_digit (CHR '':'')"
  by (simp_all add: is_ascii_digit_def)

lemma read_ipv4_show: "stops 10 r \<Longrightarrow> read_ipv4 (show_ipv4 a @ r) = Some (a, r)"
  by (cases a) (simp add: show_ipv4_def read_ipv4_def read_separator_def strip_prefix_char_def
      read_octet_show)

lemma read_ipv4_Some: "read_ipv4 s = Some (a, r) \<Longrightarrow> s = show_ipv4 a @ r"
  by (auto simp: read_ipv4_def read_separator_def bind_eq_Some_conv strip_prefix_char_Some_iff
      show_ipv4_def dest!: read_octet_Some(1))

lemma show_ipv4_length: "length (show_ipv4 a) \<le> 15"
proof -
  have "length (show_nat (unat (b :: u8))) \<le> 3" for b
    using show_nat_length [of 3 "unat b"] unat_u8 [of b] by simp
  note this [of "octets a ! 0"] this [of "octets a ! 1"] this [of "octets a ! 2"] this [of "octets a ! 3"]
  then show ?thesis by (cases a) (simp add: show_ipv4_def)
qed

lemma parse_ipv4_show [simp]: "parse_ipv4 (show_ipv4 a) = Some a"
  using read_ipv4_show [of "[]" a] show_ipv4_length [of a] by (simp add: parse_ipv4_def)

lemma parse_ipv4_Some: "parse_ipv4 s = Some a \<longleftrightarrow> s = show_ipv4 a"
proof
  assume "parse_ipv4 s = Some a"
  then have "read_ipv4 s = Some (a, [])"
    by (auto simp: parse_ipv4_def split: if_splits option.splits list.splits)
  then show "s = show_ipv4 a" using read_ipv4_Some by fastforce
qed simp

section \<open>IPv6 round trip\<close>

lemma radix_char_16: "d < 16 \<Longrightarrow> to_digit 16 (radix_char d) = Some d"
  by (auto simp: radix_char_def to_digit_def of_char_of Let_def)

lemma is_digit_radix_char: "d < 16 \<Longrightarrow> is_digit 16 (radix_char d)"
  by (simp add: is_digit_def radix_char_16)

lemma show_hex_digits: "list_all (is_digit 16) (show_hex n)"
proof (induction n rule: show_hex.induct)
  case (1 n)
  then show ?case by (subst show_hex.simps) (simp add: is_digit_radix_char)
qed

lemma radix_value_append:
  "to_digit radix c = Some d \<Longrightarrow> radix_value radix (s @ [c]) = radix * radix_value radix s + d"
  by (simp add: radix_value_def)

lemma radix_value_single: "to_digit radix c = Some d \<Longrightarrow> radix_value radix [c] = d"
  by (simp add: radix_value_def)

lemma radix_value_show_hex: "radix_value 16 (show_hex n) = n"
proof (induction n rule: show_hex.induct)
  case (1 n)
  show ?case
  proof (cases "n < 16")
    case True
    then show ?thesis by (subst show_hex.simps) (simp add: radix_value_single radix_char_16)
  next
    case False
    with 1 have "radix_value 16 (show_hex (n div 16)) = n div 16" by simp
    with False show ?thesis
      by (subst show_hex.simps) (simp add: radix_value_append radix_char_16)
  qed
qed

lemma show_hex_length: "0 < k \<Longrightarrow> n < 16 ^ k \<Longrightarrow> length (show_hex n) \<le> k"
proof (induction n arbitrary: k rule: show_hex.induct)
  case (1 n)
  show ?case
  proof (cases "n < 16")
    case True
    with 1 show ?thesis by (subst show_hex.simps) simp
  next
    case False
    with 1 obtain j where j: "k = Suc j" "0 < j"
      by (cases k; cases "k - 1") auto
    with 1 have "n div 16 < 16 ^ j" by auto
    with 1 False j show ?thesis by (subst show_hex.simps) simp
  qed
qed

lemma show_hex_not_Nil [simp]: "show_hex n \<noteq> []"
  by (subst show_hex.simps) simp

lemma unat_u16: "unat (g :: u16) < 65536"
  using unsigned_less [of g, where ?'a = nat] by simp

lemma read_segment_show: "stops 16 r \<Longrightarrow> read_segment (show_hex (unat g) @ r) = Some (g, r)"
proof -
  assume r: "stops 16 r"
  have "read_number 16 4 True 16 (show_hex (unat g) @ r) = Some (unat g, r)"
    using read_number_append [of 16 "show_hex (unat g)" r 4 True 16] r
      show_hex_digits [of "unat g"] show_hex_length [of 4 "unat g"] unat_u16 [of g]
    by (simp add: radix_value_show_hex)
  then show ?thesis by (simp add: read_segment_def)
qed

lemma decimal_is_hex: "is_ascii_digit c \<Longrightarrow> is_digit 16 c"
  by (auto simp: is_digit_def to_digit_def is_ascii_digit_def Let_def)

lemma separators_not_hex [simp]: "\<not> is_digit 16 (CHR ''.'')" "\<not> is_digit 16 (CHR '':'')"
  by (simp_all add: is_digit_def to_digit_def)

text \<open>What may follow the groups of an address: nothing, or a colon.\<close>

definition colon_rest :: "string \<Rightarrow> bool" where
  "colon_rest r \<longleftrightarrow> r = [] \<or> hd r = CHR '':''"

lemma colon_rest_simps [simp]: "colon_rest []" "colon_rest (c # r) \<longleftrightarrow> c = CHR '':''"
  by (simp_all add: colon_rest_def)

lemma colon_rest_stops: "colon_rest r \<Longrightarrow> stops 16 r"
  by (cases r) simp_all

lemma read_ipv4_hex: "colon_rest r \<Longrightarrow> list_all (is_digit 16) ds \<Longrightarrow> read_ipv4 (ds @ r) = None"
proof (rule ccontr)
  assume r: "colon_rest r" and ds: "list_all (is_digit 16) ds" and "read_ipv4 (ds @ r) \<noteq> None"
  then obtain a r' where "read_ipv4 (ds @ r) = Some (a, r')" by auto
  then have eq: "ds @ r = show_ipv4 a @ r'" by (rule read_ipv4_Some)
  obtain x t where a: "show_ipv4 a = show_nat x @ CHR ''.'' # t"
    by (cases a) (simp add: show_ipv4_def)
  have "list_all (is_digit 16) (show_nat x)"
    using show_nat_digits [of x] by (auto simp: list_all_iff decimal_is_hex)
  then have "dropWhile (is_digit 16) (show_ipv4 a @ r') = CHR ''.'' # t @ r'"
    using takeWhile_stops [of "is_digit 16" "show_nat x" "CHR ''.'' # t @ r'"] by (simp add: a)
  moreover have "dropWhile (is_digit 16) (ds @ r) = r"
    using takeWhile_stops [OF ds, of r] colon_rest_stops [OF r] by (simp add: stops_def)
  ultimately have "r = CHR ''.'' # t @ r'" using eq by simp
  with r show False by simp
qed

lemma read_ipv4_colon: "read_ipv4 (CHR '':'' # r) = None"
  using read_ipv4_hex [of "CHR '':'' # r" "[]"] by simp

lemma read_segment_fails: "read_segment [] = None" "read_segment (CHR '':'' # r) = None"
  by (simp_all add: read_segment_def read_number_def)

lemma read_ipv4_Nil: "read_ipv4 [] = None"
  using read_ipv4_hex [of "[]" "[]"] by simp

fun group_text :: "nat \<Rightarrow> u16 list \<Rightarrow> string" where
  "group_text i [] = []"
| "group_text i (g # gs) = (if 0 < i then '':'' else []) @ show_hex (unat g) @ group_text (i + 1) gs"

lemma group_text_Suc: "gs \<noteq> [] \<Longrightarrow> group_text (Suc i) gs = CHR '':'' # show_segments gs"
proof (induction gs arbitrary: i)
  case Nil
  then show ?case by simp
next
  case (Cons g gs)
  then show ?case by (cases "gs = []") (simp_all add: show_segments_def join_Cons)
qed

lemma show_segments_group_text: "show_segments gs = group_text 0 gs"
proof (cases gs)
  case (Cons g gs')
  then show ?thesis
    using group_text_Suc [of gs' 0]
    by (cases "gs' = []") (simp_all add: show_segments_def join_Cons)
qed (simp add: show_segments_def)

lemma colon_rest_group_text: "colon_rest r \<Longrightarrow> 0 < i \<Longrightarrow> colon_rest (group_text i gs @ r)"
  by (cases gs) simp_all

lemma read_groups_stop:
  "r = [] \<or> (\<exists>t. r = CHR '':'' # CHR '':'' # t) \<Longrightarrow> read_groups i n r = ([], False, r)"
  by (cases n) (auto simp: read_separator_def strip_prefix_char_def read_ipv4_colon read_ipv4_Nil
      read_segment_fails)

lemma read_groups_text:
  assumes "length gs \<le> n" and "r = [] \<or> (\<exists>t. r = CHR '':'' # CHR '':'' # t)"
  shows "read_groups i n (group_text i gs @ r) = (gs, False, r)"
  using assms(1)
proof (induction gs arbitrary: i n)
  case Nil
  then show ?case using assms(2) by (simp add: read_groups_stop)
next
  case (Cons g gs)
  then obtain m where m: "n = Suc m" "length gs \<le> m" by (cases n) auto
  let ?rest = "group_text (i + 1) gs @ r"
  have rest: "colon_rest ?rest"
    using assms(2) by (intro colon_rest_group_text) auto
  then have "read_ipv4 (show_hex (unat g) @ ?rest) = None"
    by (rule read_ipv4_hex) (rule show_hex_digits)
  moreover have "read_segment (show_hex (unat g) @ ?rest) = Some (g, ?rest)"
    using rest by (intro read_segment_show colon_rest_stops)
  moreover have "read_groups (i + 1) m ?rest = (gs, False, r)"
    using Cons.IH [OF m(2)] .
  ultimately show ?case
    by (cases "i = 0"; cases "m = 0") (simp_all add: m(1) read_separator_def strip_prefix_char_def)
qed

text \<open>\<open>zero_span\<close> returns a span of zeros inside the list.\<close>

definition zeros_at :: "u16 list \<Rightarrow> nat \<times> nat \<Rightarrow> bool" where
  "zeros_at ws sp \<longleftrightarrow>
     fst sp + snd sp \<le> length ws \<and> (\<forall>j. fst sp \<le> j \<longrightarrow> j < fst sp + snd sp \<longrightarrow> ws ! j = 0)"

lemma zero_span_zeros:
  assumes "i \<le> length ws" and "zeros_at ws longest" and "zeros_at ws current"
    and "snd current = 0 \<or> fst current + snd current = i"
  shows "zeros_at ws (zero_span i longest current (drop i ws))"
  using assms
proof (induction "length ws - i" arbitrary: i longest current)
  case 0
  then show ?case by simp
next
  case (Suc k)
  then have i: "i < length ws" by simp
  then have d: "drop i ws = ws ! i # drop (Suc i) ws" by (simp add: Cons_nth_drop_Suc)
  let ?current = "if snd current = 0 then (i, 1) else (fst current, snd current + 1)"
  have IH: "zeros_at ws (zero_span (Suc i) lg c (drop (Suc i) ws))"
    if "zeros_at ws lg" "zeros_at ws c" "snd c = 0 \<or> fst c + snd c = Suc i" for lg c
    using Suc.hyps(1) [of "Suc i" lg c] Suc.hyps(2) i that by simp
  show ?case
  proof (cases "ws ! i = 0")
    case True
    have "zeros_at ws ?current"
      using Suc.prems True i by (auto simp: zeros_at_def less_Suc_eq)
    then have "zeros_at ws (zero_span (Suc i)
        (if snd ?current > snd longest then ?current else longest) ?current (drop (Suc i) ws))"
      using Suc.prems by (intro IH) auto
    then show ?thesis using True by (simp add: d Let_def)
  next
    case False
    then show ?thesis
      using IH [of longest "(0, 0)"] Suc.prems by (simp add: d zeros_at_def)
  qed
qed

lemma zeros_at_split:
  "zeros_at ws (s, l) \<Longrightarrow> ws = take s ws @ replicate l 0 @ drop (s + l) ws"
  by (rule nth_equalityI) (auto simp: zeros_at_def nth_append)

lemma ipv6_of_segments_segments [simp]: "ipv6_of_segments (segments a) = Some a"
  by (cases a) simp

lemma length_segments [simp]: "length (segments a) = 8"
  by (cases a) simp

lemma read_ipv6_compressed:
  assumes "zeros_at (segments a) (s, l)" and "1 < l"
  shows "read_ipv6 (show_segments (take s (segments a)) @ ''::''
      @ show_segments (drop (s + l) (segments a))) = Some (a, [])"
proof -
  let ?head = "take s (segments a)" and ?tail = "drop (s + l) (segments a)"
  have sl: "s + l \<le> 8" using assms(1) by (simp add: zeros_at_def)
  have "read_groups 0 8 (group_text 0 ?head @ ''::'' @ show_segments ?tail) =
      (?head, False, ''::'' @ show_segments ?tail)"
    by (rule read_groups_text) simp_all
  moreover have "read_groups 0 (8 - (s + 1)) (group_text 0 ?tail @ []) = (?tail, False, [])"
    using sl assms(2) by (intro read_groups_text) simp_all
  moreover have "ipv6_of_segments (?head @ replicate (8 - s - length ?tail) 0 @ ?tail) = Some a"
  proof -
    have "8 - s - length ?tail = l" using sl by simp
    then show ?thesis using zeros_at_split [OF assms(1)] by simp
  qed
  ultimately show ?thesis
    using sl assms(2) by (simp add: read_ipv6_def show_segments_group_text min_def)
qed

lemma bytes_of_word: "word_of_bytes (high_byte g) (low_byte g) = g"
proof -
  have "unat (high_byte g) = unat g div 256" "unat (low_byte g) = unat g mod 256"
    using unat_u16 [of g]
    by (simp_all add: high_byte_def low_byte_def unsigned_of_nat take_bit_eq_mod)
  then show ?thesis by (simp add: word_of_bytes_def)
qed

lemma read_ipv6_mapped:
  assumes "to_ipv4_mapped a = Some v4"
  shows "read_ipv6 (''::ffff:'' @ show_ipv4 v4) = Some (a, [])"
proof -
  obtain g h where a: "a = Ipv6Addr 0 0 0 0 0 0xFFFF g h"
    and v4: "v4 = Ipv4Addr (high_byte g) (low_byte g) (high_byte h) (low_byte h)"
    using assms by (cases a) (auto split: if_splits)
  have "read_groups 0 8 (''::ffff:'' @ show_ipv4 v4) = ([], False, ''::ffff:'' @ show_ipv4 v4)"
    by (rule read_groups_stop) simp
  moreover have "read_groups 0 7 (''ffff'' @ CHR '':'' # show_ipv4 v4) = ([0xFFFF, g, h], True, [])"
  proof -
    have "read_ipv4 (''ffff'' @ CHR '':'' # show_ipv4 v4) = None"
      by (rule read_ipv4_hex) (simp_all add: is_digit_def to_digit_def)
    moreover have "read_segment (''ffff'' @ CHR '':'' # show_ipv4 v4) =
        Some (0xFFFF, CHR '':'' # show_ipv4 v4)"
      by (simp add: read_segment_def read_number_def is_digit_def to_digit_def radix_value_def)
    moreover have "read_ipv4 (show_ipv4 v4) = Some (v4, [])"
      using read_ipv4_show [of "[]" v4] by simp
    ultimately show ?thesis
      by (simp add: eval_nat_numeral read_separator_def strip_prefix_char_def v4 bytes_of_word)
  qed
  ultimately show ?thesis
    by (simp add: read_ipv6_def a eval_nat_numeral)
qed

lemma read_ipv6_show: "read_ipv6 (show_ipv6 a) = Some (a, [])"
proof (cases "to_ipv4_mapped a")
  case (Some v4)
  then show ?thesis by (simp only: show_ipv6_def option.case read_ipv6_mapped)
next
  case None
  obtain s l where sp: "zero_span 0 (0, 0) (0, 0) (segments a) = (s, l)" by fastforce
  then have z: "zeros_at (segments a) (s, l)"
    using zero_span_zeros [of 0 "segments a" "(0, 0)" "(0, 0)"] by (simp add: zeros_at_def)
  show ?thesis
  proof (cases "1 < l")
    case True
    then show ?thesis
      using read_ipv6_compressed [OF z] None sp by (simp add: show_ipv6_def)
  next
    case False
    have "read_groups 0 8 (group_text 0 (segments a) @ []) = (segments a, False, [])"
      by (rule read_groups_text) simp_all
    with False None sp show ?thesis
      by (simp add: show_ipv6_def read_ipv6_def show_segments_group_text)
  qed
qed

lemma read_ipv4_show_ipv6: "read_ipv4 (show_ipv6 a) = None"
proof -
  have hex: "read_ipv4 (show_segments gs @ r) = None" if "colon_rest r" for gs r
  proof (cases gs)
    case Nil
    then show ?thesis using that read_ipv4_hex [of r "[]"] by (simp add: show_segments_def)
  next
    case (Cons g gs')
    then show ?thesis
      using read_ipv4_hex [OF colon_rest_group_text [OF that, of 1 gs'] show_hex_digits]
      by (simp add: show_segments_group_text)
  qed
  show ?thesis
    using hex [of "[]" "segments a"] hex [of "''::'' @ t" for t] read_ipv4_colon
    by (auto simp: show_ipv6_def split: option.split prod.split)
qed

lemma parse_ip_show_ip [simp]: "parse_ip (show_ip a) = Some a"
proof (cases a)
  case (V4 v4)
  then show ?thesis using read_ipv4_show [of "[]" v4] by (simp add: parse_ip_def)
next
  case (V6 v6)
  then show ?thesis by (simp add: parse_ip_def read_ipv4_show_ipv6 read_ipv6_show)
qed

end
