(* ===== verification/Contracts.thy ===== *)
theory Contracts
  imports Ip_Addr
begin

text \<open>
  The panel contract of \<^verbatim>\<open>crates/contracts/src/lib.rs\<close>: the enumerations and structures that
  cross the boundary between the panel, the client core and the tunnel, and the checks the
  contract itself makes on deserialised values.  Enumerations are datatypes with the source's
  variants (prefixed where two enumerations share a variant name), structures are records with
  the source's fields (prefixed where two structures share a field name).
\<close>

section \<open>Enumerations\<close>

datatype layer = Tic | Stray

datatype transport_protocol = Wireguard | Amneziawg3

datatype tic_connection_mode = Personal | Dynamic

datatype route_mode = Standalone | ViaTak

datatype egress_mode = EgressIpv4 | EgressPreferIpv6

datatype lease_status =
  LeaseAllocating | LeaseIssued | LeaseConnected | LeaseWarm | LeaseReleased | LeaseFailed

datatype probe_failure_code =
  InvalidUrl | UnsupportedScheme | ProbeTimeout | NetworkError | HttpError | ProbeUnknown

datatype redundancy_state =
  RedundancyWarming | RedundancyReady | RedundancyDegraded | RedundancyDisabled

datatype redundancy_member_health =
  MemberWarming | MemberReady | MemberSuspect | MemberUnhealthy | MemberRecovering

datatype redundancy_member_slot = SlotA | SlotB

datatype health_probe_kind = DnsA

datatype split_tunnel_mode = ExcludeSelected | IncludeSelected

section \<open>Structures\<close>

text \<open>\<^verbatim>\<open>latency_ms\<close> is an \<^verbatim>\<open>f64\<close>, carried here as its bits; no modelled code computes with it.\<close>

record probe_result =
  pr_candidate_id :: string
  pr_latency_ms :: "u64 option"
  pr_failure_code :: "probe_failure_code option"
  pr_measured_at :: string

record connection =
  lease_id :: string
  conn_session_id :: "string option"
  pool_id :: "string option"
  conn_layer :: layer
  conn_transport_protocol :: transport_protocol
  conn_tic_connection_mode :: tic_connection_mode
  conn_route_mode :: route_mode
  conn_egress_mode :: egress_mode
  conn_probe_url :: "string option"
  conn_status :: lease_status
  pinned :: bool
  stopped_at :: "string option"

record redundant_health_probe =
  hp_kind :: health_probe_kind
  target_ipv4 :: ipv4_addr
  query_name :: string
  timeout_ms :: u64

record redundancy_member =
  member_health :: redundancy_member_health
  member_connection :: connection
  member_configuration :: string
  member_health_probe :: redundant_health_probe

record redundancy_session =
  async_stop_v1 :: bool
  warm_stop_v1 :: bool
  session_id :: string
  session_state :: redundancy_state
  role_generation :: u64
  membership_generation :: u64
  virtual_address_v4 :: string
  standby_desired :: bool
  session_reason :: "string option"
  session_standby :: "redundancy_member option"

record connection_start_response =
  csr_request_id :: string
  csr_connection :: connection
  csr_configuration :: string
  csr_health_probe :: "redundant_health_probe option"
  csr_reused :: bool
  csr_redundancy :: "redundancy_session option"

section \<open>Bounded item lists\<close>

definition MAX_CANDIDATES_OR_PROBES :: nat where "MAX_CANDIDATES_OR_PROBES = 20"

text \<open>\<^verbatim>\<open>bounded_connection_items\<close>: both directions refuse more than twenty items.\<close>

definition bounded_items_serialize :: "('a list \<Rightarrow> ('e, 'o) result) \<Rightarrow> 'e \<Rightarrow> 'a list \<Rightarrow> ('e, 'o) result" where
  "bounded_items_serialize ser too_many items =
     (if length items > MAX_CANDIDATES_OR_PROBES then Err too_many else ser items)"

definition bounded_items_deserialize :: "('i \<Rightarrow> ('e, 'a list) result) \<Rightarrow> 'e \<Rightarrow> 'i \<Rightarrow> ('e, 'a list) result" where
  "bounded_items_deserialize de too_many input =
     and_then (de input) (\<lambda>items.
       if length items > MAX_CANDIDATES_OR_PROBES then Err too_many else Ok items)"

section \<open>Health probes\<close>

definition first_alphanumeric :: "string \<Rightarrow> bool" where
  "first_alphanumeric label \<longleftrightarrow> label \<noteq> [] \<and> is_ascii_alphanumeric (hd label)"

definition last_alphanumeric :: "string \<Rightarrow> bool" where
  "last_alphanumeric label \<longleftrightarrow> label \<noteq> [] \<and> is_ascii_alphanumeric (last label)"

definition valid_health_label :: "string \<Rightarrow> bool" where
  "valid_health_label label \<longleftrightarrow>
     label \<noteq> [] \<and> length label \<le> 63
     \<and> first_alphanumeric label \<and> last_alphanumeric label
     \<and> list_all (\<lambda>c. is_ascii_alphanumeric c \<or> c = CHR ''-'') label"

definition deserialize_health_query_name :: "string \<Rightarrow> (string, string) result" where
  "deserialize_health_query_name value =
     (if value \<noteq> [] \<and> length value \<le> 253 \<and> str_is_ascii value
         \<and> value = to_ascii_lowercase value
         \<and> \<not> ends_with_char (CHR ''.'') value
         \<and> list_all valid_health_label (split_on (CHR ''.'') value)
      then Ok value
      else Err ''health probe query_name must be a canonical ASCII DNS name'')"

definition deserialize_health_probe_timeout :: "u64 \<Rightarrow> (string, u64) result" where
  "deserialize_health_probe_timeout value =
     (if 1000 \<le> value \<and> value \<le> 8000 then Ok value
      else Err ''health probe timeout_ms must be between 1000 and 8000'')"

section \<open>DNS over TLS\<close>

text \<open>\<^verbatim>\<open>Dns46DotWire\<close> and \<^verbatim>\<open>Dns46DotCapability\<close> have the same fields.\<close>

record dns46_dot_capability =
  dot_ready :: bool
  dot_hostname :: string
  endpoint_ipv4s :: "string list"

definition dns46_valid_label :: "string \<Rightarrow> bool" where
  "dns46_valid_label label \<longleftrightarrow>
     label \<noteq> [] \<and> length label \<le> 63
     \<and> list_all (\<lambda>c. is_ascii_lowercase c \<or> is_ascii_digit c \<or> c = CHR ''-'') label
     \<and> is_ascii_alphanumeric (label ! 0)
     \<and> is_ascii_alphanumeric (label ! (length label - 1))"

definition dns46_valid_name :: "string \<Rightarrow> bool" where
  "dns46_valid_name hostname \<longleftrightarrow>
     str_is_ascii hostname \<and> length hostname \<le> 253
     \<and> length (split_on (CHR ''.'') hostname) \<ge> 2
     \<and> parse_ip hostname = None
     \<and> list_all dns46_valid_label (split_on (CHR ''.'') hostname)"

definition dns46_public_octets :: "u8 \<Rightarrow> u8 \<Rightarrow> bool" where
  "dns46_public_octets a b \<longleftrightarrow>
     a < 240 \<and> a \<noteq> 0
     \<and> \<not> (a = 100 \<and> 64 \<le> b \<and> b \<le> 127)
     \<and> \<not> (a = 198 \<and> (b = 18 \<or> b = 19))"

definition dns46_valid_address :: "string \<Rightarrow> bool" where
  "dns46_valid_address t \<longleftrightarrow>
     (case parse_ipv4 t of
        None \<Rightarrow> False
      | Some ip \<Rightarrow>
          show_ipv4 ip = t
          \<and> \<not> is_private ip \<and> \<not> is_loopback ip \<and> \<not> is_link_local ip \<and> \<not> is_multicast ip
          \<and> \<not> is_documentation ip \<and> \<not> is_unspecified ip
          \<and> dns46_public_octets (octets ip ! 0) (octets ip ! 1))"

definition dns46_dot_try_from :: "dns46_dot_capability \<Rightarrow> (string, dns46_dot_capability) result" where
  "dns46_dot_try_from value =
     (if \<not> dot_ready value
         \<or> \<not> dns46_valid_name (dot_hostname value)
         \<or> endpoint_ipv4s value = []
         \<or> length (endpoint_ipv4s value) > 16
         \<or> \<not> list_all dns46_valid_address (endpoint_ipv4s value)
         \<or> card (set (endpoint_ipv4s value)) \<noteq> length (endpoint_ipv4s value)
      then Err ''invalid DNS46 DoT capability''
      else Ok \<lparr>dot_ready = True, dot_hostname = dot_hostname value,
               endpoint_ipv4s = endpoint_ipv4s value\<rparr>)"

section \<open>Connection intent capability\<close>

record connection_intent_capability =
  cap_revision :: int
  cap_expires_at :: string
  connection_intent_recovery_v1 :: bool

text \<open>\<open>rfc3339\<close> is \<^verbatim>\<open>OffsetDateTime::parse(_, &Rfc3339)\<close> followed by \<^verbatim>\<open>unix_timestamp\<close>, of the crate
  \<^verbatim>\<open>time\<close>.\<close>

definition expires_at_unix :: "(string \<Rightarrow> int option) \<Rightarrow> connection_intent_capability \<Rightarrow> int option" where
  "expires_at_unix rfc3339 c = rfc3339 (cap_expires_at c)"

definition is_recovery_enabled_at ::
  "(string \<Rightarrow> int option) \<Rightarrow> connection_intent_capability \<Rightarrow> int \<Rightarrow> bool" where
  "is_recovery_enabled_at rfc3339 c now_unix \<longleftrightarrow>
     cap_revision c > 0 \<and> connection_intent_recovery_v1 c
     \<and> (case expires_at_unix rfc3339 c of None \<Rightarrow> False | Some expires_at \<Rightarrow> expires_at > now_unix)"

definition allows_new_connection_intent_operation ::
  "(string \<Rightarrow> int option) \<Rightarrow> connection_intent_capability option \<Rightarrow> int \<Rightarrow> bool" where
  "allows_new_connection_intent_operation rfc3339 capability now_unix \<longleftrightarrow>
     (case capability of None \<Rightarrow> False | Some c \<Rightarrow> is_recovery_enabled_at rfc3339 c now_unix)"

lemma is_recovery_enabled_at_antimono:
  "is_recovery_enabled_at p c t \<Longrightarrow> t' \<le> t \<Longrightarrow> is_recovery_enabled_at p c t'"
  by (auto simp: is_recovery_enabled_at_def split: option.splits)

section \<open>Stop acceptance\<close>

record redundant_stop_request =
  retain_active_peer :: bool
  background_cleanup :: bool
  rs_operation_id :: string
  rs_lease_id :: string
  rs_session_id :: string

record stop_acceptance =
  sa_operation_id :: string
  sa_session_id :: string
  sa_lease_id :: string
  sa_accepted :: bool
  cleanup_pending :: bool

definition matches_request :: "stop_acceptance \<Rightarrow> redundant_stop_request \<Rightarrow> bool" where
  "matches_request a request \<longleftrightarrow>
     background_cleanup request
     \<and> sa_accepted a
     \<and> sa_operation_id a = rs_operation_id request
     \<and> sa_session_id a = rs_session_id request
     \<and> sa_lease_id a = rs_lease_id request"

end
