(* ===== verification/ConnectionIntent.thy ===== *)
theory ConnectionIntent
  imports Contracts
begin

text \<open>
  The connection intent of \<^verbatim>\<open>crates/client-core/src/connection_intent.rs\<close>: the recovery policy,
  the request fingerprints and the coordinator that decides which result of which attempt may
  still change the state of the client.  \<^verbatim>\<open>ConnectOptions\<close> and its normalisation are from
  \<^verbatim>\<open>crates/client-core/src/lib.rs\<close>.
\<close>

section \<open>Connect options\<close>

record connect_options =
  opt_layer :: layer
  opt_tic_connection_mode :: tic_connection_mode
  opt_route_mode :: route_mode
  opt_egress_mode :: egress_mode
  opt_probes :: "probe_result list"
  opt_allow_alternate :: bool

definition normalized_for_layer :: "connect_options \<Rightarrow> connect_options" where
  "normalized_for_layer o0 =
     (let o1 = (if opt_layer o0 = Stray
                then o0\<lparr>opt_tic_connection_mode := Dynamic, opt_route_mode := Standalone\<rparr>
                else o0)
      in if opt_layer o1 = Stray \<or> opt_route_mode o1 = Standalone
         then o1\<lparr>opt_egress_mode := EgressIpv4\<rparr> else o1)"

definition android_default :: connect_options where
  "android_default =
     \<lparr>opt_layer = Tic, opt_tic_connection_mode = Personal, opt_route_mode = ViaTak,
      opt_egress_mode = EgressIpv4, opt_probes = [], opt_allow_alternate = True\<rparr>"

definition desktop_default :: connect_options where
  "desktop_default =
     \<lparr>opt_layer = Stray, opt_tic_connection_mode = Dynamic, opt_route_mode = Standalone,
      opt_egress_mode = EgressIpv4, opt_probes = [], opt_allow_alternate = True\<rparr>"

section \<open>Recovery policy\<close>

datatype connection_intent_status = StatusNone | Recovering | BlockedTerminal

datatype recovery_decision =
    Accept
  | RetrySameOperation
  | RetryNewOperation
  | RetryAfter u64
  | RetryOnce
  | ReconcileThenRetry
  | ReconcileOnce
  | RestartLocalTunnel
  | Terminal
  | DiscardAndCompensate

fun policy_name :: "recovery_decision \<Rightarrow> string" where
  "policy_name Accept = ''accept''"
| "policy_name RetrySameOperation = ''retry_same_operation''"
| "policy_name RetryNewOperation = ''retry_new_operation''"
| "policy_name (RetryAfter _) = ''retry_after''"
| "policy_name RetryOnce = ''retry_once''"
| "policy_name ReconcileThenRetry = ''reconcile_then_retry''"
| "policy_name ReconcileOnce = ''reconcile_once''"
| "policy_name RestartLocalTunnel = ''local_restart''"
| "policy_name Terminal = ''terminal''"
| "policy_name DiscardAndCompensate = ''discard_and_compensate''"

fun preserves_operation :: "recovery_decision \<Rightarrow> bool" where
  "preserves_operation RetrySameOperation \<longleftrightarrow> True"
| "preserves_operation (RetryAfter _) \<longleftrightarrow> True"
| "preserves_operation RetryOnce \<longleftrightarrow> True"
| "preserves_operation ReconcileThenRetry \<longleftrightarrow> True"
| "preserves_operation ReconcileOnce \<longleftrightarrow> True"
| "preserves_operation RestartLocalTunnel \<longleftrightarrow> True"
| "preserves_operation _ \<longleftrightarrow> False"

text \<open>\<^verbatim>\<open>RetrySchedule\<close> is its array of seven delays.\<close>

type_synonym retry_schedule = "u64 list"

definition RETRY_DELAYS_SECONDS :: retry_schedule where
  "RETRY_DELAYS_SECONDS = [0, 2, 5, 15, 30, 60, 300]"

definition delay_seconds :: "retry_schedule \<Rightarrow> nat \<Rightarrow> u64" where
  "delay_seconds delays retry_index =
     (if retry_index \<ge> length delays then delays ! (length delays - 1)
      else delays ! retry_index)"

record recovery_policy_context =
  retry_after_seconds :: "u64 option"
  service_recovery_attempted :: bool
  profile_reissue_attempted :: bool
  stalled_reconcile_attempted :: bool

definition default_recovery_context :: recovery_policy_context where
  "default_recovery_context =
     \<lparr>retry_after_seconds = None, service_recovery_attempted = False,
      profile_reissue_attempted = False, stalled_reconcile_attempted = False\<rparr>"

definition retry_same_codes :: "string list" where
  "retry_same_codes =
     [''transport_error'', ''http_5xx'', ''connection_unavailable'', ''candidate_unavailable'',
      ''configuration_fetch_failed'', ''binding_sync_failed'', ''connection_release_pending'',
      ''connection_release_failed'', ''connection_stop_failed'', ''probe_results_required'',
      ''saved_connection_unavailable'', ''saved_stray_unavailable'',
      ''connection_stall_verification_unavailable'', ''endpoint_route_lost'',
      ''endpoint_route_unavailable'', ''physical_network_monitor_unavailable'',
      ''physical_egress_unavailable'', ''local_networks_unavailable'',
      ''installed_applications_unavailable'']"

definition retry_new_codes :: "string list" where
  "retry_new_codes = [''connection_no_longer_active'', ''tunnel_handshake_timeout'']"

definition retry_after_codes :: "string list" where
  "retry_after_codes =
     [''connection_stall_recycle_rate_limited'', ''operation_in_progress'', ''device_operation_busy'']"

definition profile_codes :: "string list" where
  "profile_codes =
     [''amneziawg_profile_mismatch'', ''awg3_profile_apply_failed'',
      ''awg3_profile_transform_mismatch'']"

definition reconcile_codes :: "string list" where
  "reconcile_codes =
     [''connection_already_active'', ''service_timeout'', ''tunnel_service_timeout'',
      ''tunnel_start_timeout'', ''service_stopping'', ''android_service_dispatch_unavailable'']"

definition rebind_codes :: "string list" where
  "rebind_codes = [''udp_rebind_failed'', ''udp_rebind_timeout'']"

definition unwrap_or :: "'a \<Rightarrow> 'a option \<Rightarrow> 'a" where
  "unwrap_or d m = (case m of None \<Rightarrow> d | Some x \<Rightarrow> x)"

definition classify_recovery :: "string \<Rightarrow> recovery_policy_context \<Rightarrow> recovery_decision" where
  "classify_recovery code ctx =
     (if code \<in> set retry_same_codes then RetrySameOperation
      else if code \<in> set retry_new_codes then RetryNewOperation
      else if code \<in> set retry_after_codes
        then RetryAfter (max 1 (min 900 (unwrap_or 300 (retry_after_seconds ctx))))
      else if code = ''service_unavailable''
        then (if service_recovery_attempted ctx then Terminal else RetryOnce)
      else if code \<in> set profile_codes
        then (if profile_reissue_attempted ctx then Terminal else RetryOnce)
      else if code \<in> set reconcile_codes then ReconcileThenRetry
      else if code = ''connection_stall_not_recyclable''
        then (if stalled_reconcile_attempted ctx then Terminal else ReconcileOnce)
      else if code \<in> set rebind_codes then RestartLocalTunnel
      else Terminal)"

lemmas recovery_code_defs =
  retry_same_codes_def retry_new_codes_def retry_after_codes_def profile_codes_def
  reconcile_codes_def rebind_codes_def

section \<open>Stall recovery\<close>

datatype recovery_transport = TransportAmneziaWg3 | TransportOther

datatype stall_recovery_plan_t =
    ReplaceDynamic string bool
  | PreservePeer

record stall_trigger =
  trig_options :: connect_options
  trig_pinned :: bool
  trig_transport :: recovery_transport

definition stall_recovery_plan ::
  "connect_options \<Rightarrow> bool \<Rightarrow> recovery_transport \<Rightarrow> stall_recovery_plan_t" where
  "stall_recovery_plan options is_pinned transport =
     (if \<not> is_pinned
         \<and> transport = TransportAmneziaWg3
         \<and> (opt_layer options \<noteq> Tic \<or> opt_tic_connection_mode options \<noteq> Personal)
      then ReplaceDynamic ''tunnel_data_plane_stalled'' True
      else PreservePeer)"

section \<open>Request fingerprints\<close>

fun egress_name :: "egress_mode \<Rightarrow> string" where
  "egress_name EgressIpv4 = ''ipv4''"
| "egress_name EgressPreferIpv6 = ''prefer_ipv6''"

fun layer_name :: "layer \<Rightarrow> string" where
  "layer_name Tic = ''tic''"
| "layer_name Stray = ''stray''"

fun route_name :: "route_mode \<Rightarrow> string" where
  "route_name Standalone = ''standalone''"
| "route_name ViaTak = ''via_tak''"

fun tic_mode_name :: "tic_connection_mode \<Rightarrow> string" where
  "tic_mode_name Personal = ''personal''"
| "tic_mode_name Dynamic = ''dynamic''"

fun bool_name :: "bool \<Rightarrow> string" where
  "bool_name True = ''true''"
| "bool_name False = ''false''"

abbreviation quote_char :: string where "quote_char \<equiv> [CHR 0x22]"

text \<open>\<open>json_string k v\<close> is \<^verbatim>\<open>"k":"v"\<close> and \<open>json_bare k v\<close> is \<^verbatim>\<open>"k":v\<close>, as the format strings of the
  source spell them.\<close>

definition json_string :: "string \<Rightarrow> string \<Rightarrow> string" where
  "json_string k v = quote_char @ k @ quote_char @ '':'' @ quote_char @ v @ quote_char"

definition json_bare :: "string \<Rightarrow> string \<Rightarrow> string" where
  "json_bare k v = quote_char @ k @ quote_char @ '':'' @ v"

definition canonical_v1 :: "connect_options \<Rightarrow> bool \<Rightarrow> string" where
  "canonical_v1 options require_measured_selection =
     ''{'' @ json_string ''egress_mode'' (egress_name (opt_egress_mode options)) @ '',''
     @ json_string ''kind'' ''start'' @ '',''
     @ json_string ''layer'' (layer_name (opt_layer options)) @ '',''
     @ json_bare ''require_measured_selection'' (bool_name require_measured_selection) @ '',''
     @ json_string ''route_mode'' (route_name (opt_route_mode options)) @ '',''
     @ json_string ''tic_connection_mode'' (tic_mode_name (opt_tic_connection_mode options)) @ ''}''"

definition canonical_v2 :: "connect_options \<Rightarrow> bool \<Rightarrow> bool \<Rightarrow> string" where
  "canonical_v2 options require_measured_selection reserve_enabled =
     ''{'' @ json_string ''egress_mode'' (egress_name (opt_egress_mode options)) @ '',''
     @ json_string ''kind'' ''redundant_start'' @ '',''
     @ json_string ''layer'' (layer_name (opt_layer options)) @ '',''
     @ json_bare ''redundancy_contract_version'' ''1'' @ '',''
     @ json_bare ''require_measured_selection'' (bool_name require_measured_selection) @ '',''
     @ json_bare ''reserve_enabled'' (bool_name reserve_enabled) @ '',''
     @ json_string ''route_mode'' (route_name (opt_route_mode options)) @ '',''
     @ json_string ''tic_connection_mode'' (tic_mode_name (opt_tic_connection_mode options)) @ ''}''"

definition canonical_stalled_stop :: "string \<Rightarrow> string" where
  "canonical_stalled_stop lid =
     ''{'' @ json_string ''failure_code'' ''tunnel_data_plane_stalled'' @ '',''
     @ json_string ''kind'' ''stalled_stop'' @ '',''
     @ json_string ''lease_id'' lid @ ''}''"

text \<open>\<open>sha256\<close> is \<^verbatim>\<open>Sha256::digest\<close> of the crate \<^verbatim>\<open>sha2\<close>.\<close>

definition request_fingerprint_v1 ::
  "(string \<Rightarrow> u8 list) \<Rightarrow> connect_options \<Rightarrow> bool \<Rightarrow> string" where
  "request_fingerprint_v1 sha256 options require_measured_selection =
     hex_string (sha256 (canonical_v1 options require_measured_selection))"

definition request_fingerprint_v2 ::
  "(string \<Rightarrow> u8 list) \<Rightarrow> connect_options \<Rightarrow> bool \<Rightarrow> bool \<Rightarrow> string" where
  "request_fingerprint_v2 sha256 options require_measured_selection reserve_enabled =
     hex_string (sha256 (canonical_v2 options require_measured_selection reserve_enabled))"

definition stalled_stop_request_fingerprint_v1 :: "(string \<Rightarrow> u8 list) \<Rightarrow> string \<Rightarrow> string" where
  "stalled_stop_request_fingerprint_v1 sha256 lid =
     hex_string (sha256 (canonical_stalled_stop lid))"

section \<open>The coordinator\<close>

text \<open>\<^verbatim>\<open>IntentGeneration\<close> wraps a \<^verbatim>\<open>u64\<close>; \<open>next_generation\<close> is \<^verbatim>\<open>IntentGeneration::next\<close>.\<close>

type_synonym intent_generation = u64

definition next_generation :: "intent_generation \<Rightarrow> intent_generation option" where
  "next_generation g = u64_checked_add g 1"

datatype start_disposition =
    DispConnected connection
  | DispRecovering intent_generation "int option"

record intent_template =
  tpl_layer :: layer
  tpl_tic_connection_mode :: tic_connection_mode
  tpl_route_mode :: route_mode
  tpl_egress_mode :: egress_mode
  tpl_allow_alternate :: bool

definition template_of :: "connect_options \<Rightarrow> intent_template" where
  "template_of options =
     \<lparr>tpl_layer = opt_layer options,
      tpl_tic_connection_mode = opt_tic_connection_mode options,
      tpl_route_mode = opt_route_mode options,
      tpl_egress_mode = opt_egress_mode options,
      tpl_allow_alternate = opt_allow_alternate options\<rparr>"

datatype connection_intent_error =
  DifferentIntentActive | AttemptStillActive | GenerationExhausted

record coordinator =
  generation :: intent_generation
  desired :: "intent_template option"
  status :: connection_intent_status
  connected :: "connection option"
  attempt_generation :: "intent_generation option"
  retry_index :: nat
  next_retry_at_unix :: "int option"
  network_wakeup_pending :: bool
  schedule :: retry_schedule
  exhausted :: bool

definition default_coordinator :: coordinator where
  "default_coordinator =
     \<lparr>generation = 0, desired = None, status = StatusNone, connected = None,
      attempt_generation = None, retry_index = 0, next_retry_at_unix = None,
      network_wakeup_pending = False, schedule = RETRY_DELAYS_SECONDS, exhausted = False\<rparr>"

definition completed_connection :: "coordinator \<Rightarrow> connection option" where
  "completed_connection s =
     (if status s = StatusNone \<and> attempt_generation s = None then connected s else None)"

definition start_or_resume ::
  "coordinator \<Rightarrow> connect_options \<Rightarrow> int \<Rightarrow>
   (connection_intent_error, start_disposition) result \<times> coordinator" where
  "start_or_resume s options now_unix =
     (let template = template_of (normalized_for_layer options) in
      case desired s of
        Some current \<Rightarrow>
          if current \<noteq> template then (Err DifferentIntentActive, s)
          else if status s = BlockedTerminal then
            (case next_generation (generation s) of
               None \<Rightarrow> (Err GenerationExhausted, s\<lparr>exhausted := True\<rparr>)
             | Some g \<Rightarrow>
                 (Ok (DispRecovering g None),
                  s\<lparr>generation := g, status := Recovering, connected := None, retry_index := 0,
                    next_retry_at_unix := None, network_wakeup_pending := False\<rparr>))
          else
            (Ok (case connected s of
                   Some c \<Rightarrow> DispConnected c
                 | None \<Rightarrow> DispRecovering (generation s) (next_retry_at_unix s)), s)
      | None \<Rightarrow>
          if attempt_generation s \<noteq> None then (Err AttemptStillActive, s)
          else if exhausted s then (Err GenerationExhausted, s)
          else
            (case next_generation (generation s) of
               None \<Rightarrow> (Err GenerationExhausted, s)
             | Some g \<Rightarrow>
                 (Ok (DispRecovering g None),
                  s\<lparr>generation := g, desired := Some template, status := Recovering,
                    connected := None, retry_index := 0, next_retry_at_unix := None,
                    network_wakeup_pending := False\<rparr>)))"

definition begin_attempt :: "coordinator \<Rightarrow> intent_generation \<Rightarrow> bool \<times> coordinator" where
  "begin_attempt s g =
     (if g \<noteq> generation s \<or> desired s = None \<or> attempt_generation s \<noteq> None then (False, s)
      else (True, s\<lparr>attempt_generation := Some g\<rparr>))"

definition replace_active_options ::
  "coordinator \<Rightarrow> intent_generation \<Rightarrow> connect_options \<Rightarrow> bool \<times> coordinator" where
  "replace_active_options s g options =
     (if g \<noteq> generation s \<or> desired s = None \<or> attempt_generation s \<noteq> Some g then (False, s)
      else (True, s\<lparr>desired := Some (template_of (normalized_for_layer options))\<rparr>))"

definition handle_stall ::
  "coordinator \<Rightarrow> intent_generation \<Rightarrow> stall_trigger \<Rightarrow>
   (connection_intent_error, stall_recovery_plan_t) result \<times> coordinator" where
  "handle_stall s g trigger =
     (let options = normalized_for_layer (trig_options trigger);
          template = template_of options
      in if g \<noteq> generation s \<or> desired s \<noteq> Some template then (Err DifferentIntentActive, s)
         else
           (Ok (stall_recovery_plan options (trig_pinned trigger) (trig_transport trigger)),
            s\<lparr>connected := None, status := Recovering, retry_index := 0,
              next_retry_at_unix := None, network_wakeup_pending := False\<rparr>))"

definition accept_result :: "coordinator \<Rightarrow> intent_generation \<Rightarrow> recovery_decision \<times> coordinator" where
  "accept_result s g =
     (if g \<noteq> generation s \<or> desired s = None \<or> attempt_generation s \<noteq> Some g
      then (DiscardAndCompensate, s)
      else (Accept, s\<lparr>attempt_generation := None\<rparr>))"

definition complete_compensation :: "coordinator \<Rightarrow> intent_generation \<Rightarrow> bool \<times> coordinator" where
  "complete_compensation s g =
     (if attempt_generation s \<noteq> Some g \<or> (g = generation s \<and> desired s \<noteq> None) then (False, s)
      else (True, s\<lparr>attempt_generation := None\<rparr>))"

definition mark_connected ::
  "coordinator \<Rightarrow> intent_generation \<Rightarrow> connection \<Rightarrow> recovery_decision \<times> coordinator" where
  "mark_connected s g conn =
     (case accept_result s g of (decision, s') \<Rightarrow>
        if decision = Accept
        then (decision,
              s'\<lparr>connected := Some conn, status := StatusNone, retry_index := 0,
                 next_retry_at_unix := None, network_wakeup_pending := False\<rparr>)
        else (decision, s'))"

definition mark_terminal :: "coordinator \<Rightarrow> intent_generation \<Rightarrow> bool \<Rightarrow> bool \<times> coordinator" where
  "mark_terminal s g armed =
     (case accept_result s g of (decision, s') \<Rightarrow>
        if decision \<noteq> Accept then (False, s')
        else
          (let s'' = s'\<lparr>next_retry_at_unix := None, network_wakeup_pending := False\<rparr> in
           (True,
            if armed then s''\<lparr>status := BlockedTerminal\<rparr>
            else s''\<lparr>status := StatusNone, desired := None, connected := None\<rparr>)))"

definition cancel_intent :: "coordinator \<Rightarrow> intent_generation \<Rightarrow> bool \<times> coordinator" where
  "cancel_intent s g =
     (if g \<noteq> generation s \<or> desired s = None then (False, s)
      else
        (let s' = (case next_generation (generation s) of
                     Some g' \<Rightarrow> s\<lparr>generation := g'\<rparr>
                   | None \<Rightarrow> s\<lparr>exhausted := True\<rparr>)
         in (True,
             s'\<lparr>desired := None, connected := None, status := StatusNone, retry_index := 0,
                next_retry_at_unix := None, network_wakeup_pending := False\<rparr>)))"

definition schedule_retry :: "coordinator \<Rightarrow> intent_generation \<Rightarrow> int \<Rightarrow> int option \<times> coordinator" where
  "schedule_retry s g now_unix =
     (if g \<noteq> generation s \<or> desired s = None then (None, s)
      else
        (let delay = delay_seconds (schedule s) (retry_index s);
             delay' = (if uint delay \<le> i64_max then uint delay else i64_max);
             next_at = i64_saturate (now_unix + delay')
         in (Some next_at,
             s\<lparr>retry_index := usize_saturating_add (retry_index s) 1,
               next_retry_at_unix := Some next_at, status := Recovering\<rparr>)))"

definition wake_for_network_change :: "coordinator \<Rightarrow> bool \<times> coordinator" where
  "wake_for_network_change s =
     (if desired s = None \<or> status s \<noteq> Recovering \<or> network_wakeup_pending s then (False, s)
      else (True, s\<lparr>network_wakeup_pending := True\<rparr>))"

definition take_network_wakeup :: "coordinator \<Rightarrow> bool \<times> coordinator" where
  "take_network_wakeup s =
     (let pending = network_wakeup_pending s;
          s' = s\<lparr>network_wakeup_pending := False\<rparr>
      in (pending,
          if pending then
            (let s'' = s'\<lparr>next_retry_at_unix := None\<rparr>
             in if retry_index s'' > 0 then s''\<lparr>retry_index := 1\<rparr> else s'')
          else s'))"


section \<open>Calls as steps\<close>

text \<open>The public methods that take \<^verbatim>\<open>&mut self\<close>, as the operations of a state machine.\<close>

datatype coord_op =
    StartOrResume connect_options int
  | BeginAttempt intent_generation
  | ReplaceActiveOptions intent_generation connect_options
  | HandleStall intent_generation stall_trigger
  | AcceptResult intent_generation
  | CompleteCompensation intent_generation
  | MarkConnected intent_generation connection
  | MarkTerminal intent_generation bool
  | CancelIntent intent_generation
  | ScheduleRetry intent_generation int
  | WakeForNetworkChange
  | TakeNetworkWakeup

fun coord_step :: "coordinator \<Rightarrow> coord_op \<Rightarrow> coordinator" where
  "coord_step s (StartOrResume options now_unix) = snd (start_or_resume s options now_unix)"
| "coord_step s (BeginAttempt g) = snd (begin_attempt s g)"
| "coord_step s (ReplaceActiveOptions g options) = snd (replace_active_options s g options)"
| "coord_step s (HandleStall g trigger) = snd (handle_stall s g trigger)"
| "coord_step s (AcceptResult g) = snd (accept_result s g)"
| "coord_step s (CompleteCompensation g) = snd (complete_compensation s g)"
| "coord_step s (MarkConnected g conn) = snd (mark_connected s g conn)"
| "coord_step s (MarkTerminal g armed) = snd (mark_terminal s g armed)"
| "coord_step s (CancelIntent g) = snd (cancel_intent s g)"
| "coord_step s (ScheduleRetry g now_unix) = snd (schedule_retry s g now_unix)"
| "coord_step s WakeForNetworkChange = snd (wake_for_network_change s)"
| "coord_step s TakeNetworkWakeup = snd (take_network_wakeup s)"

lemmas coord_op_defs =
  start_or_resume_def begin_attempt_def replace_active_options_def handle_stall_def
  accept_result_def complete_compensation_def mark_connected_def mark_terminal_def
  cancel_intent_def schedule_retry_def wake_for_network_change_def take_network_wakeup_def

definition normalized_template :: "intent_template \<Rightarrow> bool" where
  "normalized_template t \<longleftrightarrow>
     (tpl_layer t = Stray \<longrightarrow> tpl_tic_connection_mode t = Dynamic \<and> tpl_route_mode t = Standalone)
     \<and> (tpl_route_mode t = Standalone \<longrightarrow> tpl_egress_mode t = EgressIpv4)"

definition coord_inv :: "coordinator \<Rightarrow> bool" where
  "coord_inv s \<longleftrightarrow>
     (desired s = None \<longrightarrow> status s = StatusNone \<and> connected s = None)
     \<and> (\<forall>t. desired s = Some t \<longrightarrow> normalized_template t)
     \<and> (network_wakeup_pending s \<longrightarrow> status s = Recovering)
     \<and> (\<forall>t. next_retry_at_unix s = Some t \<longrightarrow> status s = Recovering \<and> i64_min \<le> t \<and> t \<le> i64_max)
     \<and> (\<forall>g. attempt_generation s = Some g \<longrightarrow> g \<le> generation s)
     \<and> (exhausted s \<longrightarrow> generation s = - 1)
     \<and> (generation s = 0 \<longrightarrow> desired s = None \<and> attempt_generation s = None)
     \<and> schedule s = RETRY_DELAYS_SECONDS
     \<and> retry_index s \<le> usize_max"

section \<open>The coordinator as a stamped machine\<close>

lemma normalized_template_of: "normalized_template (template_of (normalized_for_layer options))"
  by (auto simp: normalized_template_def template_of_def normalized_for_layer_def Let_def)

lemma next_generation_greater: "next_generation g = Some g' \<Longrightarrow> g < g'"
  by (simp add: next_generation_def u64_checked_add_1_greater)

lemma next_generation_None: "next_generation g = None \<longleftrightarrow> g = - 1"
  by (simp add: next_generation_def u64_checked_add_1_None)

lemma next_generation_nonzero: "next_generation g = Some g' \<Longrightarrow> g' \<noteq> 0"
  using next_generation_greater by (metis word_not_simps(1))

lemma next_generation_not_max: "next_generation g = Some g' \<Longrightarrow> g \<noteq> - 1"
  using next_generation_None by (metis option.distinct(1))

lemmas next_generation_facts =
  next_generation_greater next_generation_nonzero next_generation_not_max

lemma coord_inv_default: "coord_inv default_coordinator"
  by (simp add: coord_inv_def default_coordinator_def usize_max_def)

lemma coord_inv_exhaust: "coord_inv s \<Longrightarrow> generation s = - 1 \<Longrightarrow> coord_inv (s\<lparr>exhausted := True\<rparr>)"
  by (simp add: coord_inv_def)

lemma coord_inv_new_generation:
  assumes "coord_inv s" and "next_generation (generation s) = Some g"
    and "d = None \<longrightarrow> st = StatusNone" and "\<forall>t. d = Some t \<longrightarrow> normalized_template t"
  shows "coord_inv (s\<lparr>generation := g, desired := d, status := st, connected := None,
      retry_index := 0, next_retry_at_unix := None, network_wakeup_pending := False\<rparr>)"
proof -
  have "attempt_generation s = Some a \<longrightarrow> a \<le> g" for a
    using assms(1) next_generation_greater [OF assms(2)] by (auto simp: coord_inv_def)
  moreover have "\<not> exhausted s" "g \<noteq> 0"
    using assms(1,2) next_generation_facts [OF assms(2)] by (auto simp: coord_inv_def)
  ultimately show ?thesis using assms(1,3,4) by (simp add: coord_inv_def)
qed

lemma coord_inv_start_or_resume:
  assumes "coord_inv s"
  shows "coord_inv (snd (start_or_resume s options now_unix))"
proof (cases "desired s")
  case None
  then show ?thesis
    using assms coord_inv_new_generation [OF assms, where d = "Some (template_of (normalized_for_layer options))"]
    by (simp add: start_or_resume_def Let_def normalized_template_of split: option.split)
next
  case (Some t)
  have "normalized_template t"
    using assms Some by (simp add: coord_inv_def)
  then have "next_generation (generation s) = Some g \<Longrightarrow>
      coord_inv (s\<lparr>generation := g, status := Recovering, connected := None, retry_index := 0,
        next_retry_at_unix := None, network_wakeup_pending := False\<rparr>)" for g
    using coord_inv_new_generation [OF assms, of g "Some t" Recovering] Some
    by (simp add: coord_inv_def)
  with Some show ?thesis
    using assms coord_inv_exhaust [OF assms]
    by (simp add: start_or_resume_def Let_def next_generation_None split: option.split)
qed

lemma coord_inv_cancel_intent:
  assumes "coord_inv s"
  shows "coord_inv (snd (cancel_intent s g))"
proof (cases "next_generation (generation s)")
  case None
  have "coord_inv (s\<lparr>exhausted := True\<rparr>)"
    using assms None coord_inv_exhaust by (simp add: next_generation_None)
  then have "coord_inv (s\<lparr>exhausted := True, desired := None, connected := None,
      status := StatusNone, retry_index := 0, next_retry_at_unix := None,
      network_wakeup_pending := False\<rparr>)"
    by (simp add: coord_inv_def)
  then show ?thesis
    using assms by (simp add: cancel_intent_def Let_def None)
next
  case (Some g')
  then have "coord_inv (s\<lparr>generation := g', desired := None, connected := None,
      status := StatusNone, retry_index := 0, next_retry_at_unix := None,
      network_wakeup_pending := False\<rparr>)"
    using coord_inv_new_generation [OF assms Some, of None StatusNone] by (simp add: coord_inv_def)
  with Some show ?thesis
    using assms by (simp add: cancel_intent_def Let_def)
qed

lemma coord_inv_schedule_retry: "coord_inv s \<Longrightarrow> coord_inv (snd (schedule_retry s g now_unix))"
  by (simp add: coord_inv_def schedule_retry_def usize_saturating_add_def Let_def i64_saturate_bounds)

lemma coord_inv_replace_active_options:
  "coord_inv s \<Longrightarrow> coord_inv (snd (replace_active_options s g options))"
  by (auto simp: coord_inv_def replace_active_options_def normalized_template_of)

lemma coord_inv_handle_stall: "coord_inv s \<Longrightarrow> coord_inv (snd (handle_stall s g trigger))"
  by (auto simp: coord_inv_def handle_stall_def Let_def)

lemma coord_inv_attempt_ops:
  assumes "coord_inv s"
  shows "coord_inv (snd (begin_attempt s g))"
    and "coord_inv (snd (accept_result s g))"
    and "coord_inv (snd (complete_compensation s g))"
  using assms by (auto simp: coord_inv_def begin_attempt_def accept_result_def complete_compensation_def)

lemma coord_inv_result_ops:
  assumes "coord_inv s"
  shows "coord_inv (snd (mark_connected s g conn))"
    and "coord_inv (snd (mark_terminal s g armed))"
  using assms by (simp_all add: coord_inv_def mark_connected_def mark_terminal_def accept_result_def Let_def)

lemma coord_inv_wakeup_ops:
  assumes "coord_inv s"
  shows "coord_inv (snd (wake_for_network_change s))"
    and "coord_inv (snd (take_network_wakeup s))"
  using assms
  by (simp_all add: coord_inv_def wake_for_network_change_def take_network_wakeup_def Let_def
      usize_max_def)

lemmas coord_inv_ops =
  coord_inv_start_or_resume coord_inv_cancel_intent coord_inv_schedule_retry
  coord_inv_replace_active_options coord_inv_handle_stall coord_inv_attempt_ops
  coord_inv_result_ops coord_inv_wakeup_ops

lemma coord_inv_step: "coord_inv s \<Longrightarrow> coord_inv (coord_step s x)"
  by (cases x) (simp_all add: coord_inv_ops)

lemma coord_step_generation_mono: "generation s \<le> generation (coord_step s x)"
proof (cases x)
  case (StartOrResume options now_unix)
  then show ?thesis
    by (auto simp: start_or_resume_def Let_def dest: next_generation_greater split: option.split)
next
  case (CancelIntent g)
  then show ?thesis
    by (auto simp: cancel_intent_def Let_def dest: next_generation_greater split: option.split)
qed (simp_all add: coord_op_defs Let_def)

interpretation coord: stamped_machine default_coordinator coord_step coord_inv generation
  by unfold_locales (auto intro: coord_inv_default coord_inv_step coord_step_generation_mono)

section \<open>Retired generations\<close>

text \<open>A generation that can never become current again: it is behind, or it is the last one and
  the coordinator is exhausted with no intent.\<close>

definition retired :: "intent_generation \<Rightarrow> coordinator \<Rightarrow> bool" where
  "retired g s \<longleftrightarrow> g < generation s \<or> (generation s = g \<and> exhausted s \<and> desired s = None)"

lemma cancel_intent_retires: "cancel_intent s g = (True, s') \<Longrightarrow> retired g s'"
  by (auto simp: cancel_intent_def retired_def Let_def dest: next_generation_greater
      split: if_splits option.splits)

lemma retired_step_behind: "g < generation s \<Longrightarrow> retired g (coord_step s x)"
  using order.strict_trans2 [OF _ coord_step_generation_mono [of s x]] by (simp add: retired_def)

lemma retired_step_exhausted:
  "generation s = g \<Longrightarrow> exhausted s \<Longrightarrow> desired s = None \<Longrightarrow> retired g (coord_step s x)"
  by (cases x) (auto simp: retired_def coord_op_defs Let_def)

lemma retired_step: "retired g s \<Longrightarrow> retired g (coord_step s x)"
  using retired_step_behind retired_step_exhausted unfolding retired_def by blast

lemma retired_run: "retired g s \<Longrightarrow> retired g (run coord_step s xs)"
  by (induction xs arbitrary: s) (simp_all add: retired_step)

lemma retired_refused:
  assumes "retired g s"
  shows "accept_result s g = (DiscardAndCompensate, s)"
    and "mark_connected s g conn = (DiscardAndCompensate, s)"
    and "mark_terminal s g armed = (False, s)"
    and "begin_attempt s g = (False, s)"
    and "schedule_retry s g now_unix = (None, s)"
    and "cancel_intent s g = (False, s)"
  using assms by (auto simp: retired_def coord_op_defs)

section \<open>Attempts\<close>

definition attempt_begins :: "coordinator \<Rightarrow> coord_op \<Rightarrow> bool" where
  "attempt_begins s x = (case x of BeginAttempt g \<Rightarrow> fst (begin_attempt s g) | _ \<Rightarrow> False)"

definition attempt_ends :: "coordinator \<Rightarrow> coord_op \<Rightarrow> bool" where
  "attempt_ends s x =
     (case x of
        AcceptResult g \<Rightarrow> fst (accept_result s g) = Accept
      | CompleteCompensation g \<Rightarrow> fst (complete_compensation s g)
      | MarkConnected g conn \<Rightarrow> fst (mark_connected s g conn) = Accept
      | MarkTerminal g armed \<Rightarrow> fst (mark_terminal s g armed)
      | _ \<Rightarrow> False)"

text \<open>The attempt events of a run: \<^const>\<open>True\<close> where an attempt begins, \<^const>\<open>False\<close> where one ends.\<close>

fun attempt_events :: "coordinator \<Rightarrow> coord_op list \<Rightarrow> bool list" where
  "attempt_events s [] = []"
| "attempt_events s (x # xs) =
     (if attempt_begins s x then [True] else if attempt_ends s x then [False] else [])
     @ attempt_events (coord_step s x) xs"

fun alternating :: "bool \<Rightarrow> bool list \<Rightarrow> bool" where
  "alternating b [] \<longleftrightarrow> True"
| "alternating b (x # xs) \<longleftrightarrow> x = b \<and> alternating (\<not> b) xs"

text \<open>When each call that touches an attempt succeeds, and what it leaves.\<close>

lemma begin_attempt_cases:
  "fst (begin_attempt s g) \<longleftrightarrow>
     g = generation s \<and> desired s \<noteq> None \<and> attempt_generation s = None"
  "attempt_generation (snd (begin_attempt s g)) =
     (if fst (begin_attempt s g) then Some g else attempt_generation s)"
  by (auto simp: begin_attempt_def)

lemma accept_result_cases:
  "fst (accept_result s g) = Accept \<longleftrightarrow>
     g = generation s \<and> desired s \<noteq> None \<and> attempt_generation s = Some g"
  "attempt_generation (snd (accept_result s g)) =
     (if fst (accept_result s g) = Accept then None else attempt_generation s)"
  by (auto simp: accept_result_def)

lemma complete_compensation_cases:
  "fst (complete_compensation s g) \<longleftrightarrow>
     attempt_generation s = Some g \<and> (g = generation s \<longrightarrow> desired s = None)"
  "attempt_generation (snd (complete_compensation s g)) =
     (if fst (complete_compensation s g) then None else attempt_generation s)"
  by (auto simp: complete_compensation_def)

lemma mark_connected_cases:
  "fst (mark_connected s g conn) = fst (accept_result s g)"
  "attempt_generation (snd (mark_connected s g conn)) = attempt_generation (snd (accept_result s g))"
  by (simp_all add: mark_connected_def accept_result_def)

lemma mark_terminal_cases:
  "fst (mark_terminal s g armed) \<longleftrightarrow> fst (accept_result s g) = Accept"
  "attempt_generation (snd (mark_terminal s g armed)) = attempt_generation (snd (accept_result s g))"
  by (simp_all add: mark_terminal_def accept_result_def Let_def)

lemmas attempt_cases =
  begin_attempt_cases accept_result_cases complete_compensation_cases mark_connected_cases
  mark_terminal_cases

lemma attempt_frame:
  "attempt_generation (snd (start_or_resume s options now_unix)) = attempt_generation s"
  "attempt_generation (snd (replace_active_options s g options)) = attempt_generation s"
  "attempt_generation (snd (handle_stall s g trigger)) = attempt_generation s"
  "attempt_generation (snd (cancel_intent s g)) = attempt_generation s"
  "attempt_generation (snd (schedule_retry s g now_unix)) = attempt_generation s"
  "attempt_generation (snd (wake_for_network_change s)) = attempt_generation s"
  "attempt_generation (snd (take_network_wakeup s)) = attempt_generation s"
  by (simp_all add: start_or_resume_def replace_active_options_def handle_stall_def
      cancel_intent_def schedule_retry_def wake_for_network_change_def take_network_wakeup_def
      Let_def split: option.split)

lemma attempt_begins_step:
  "attempt_begins s x \<Longrightarrow> attempt_generation s = None \<and> attempt_generation (coord_step s x) \<noteq> None"
  by (cases x) (simp_all add: attempt_begins_def attempt_cases)

lemma attempt_ends_step:
  "attempt_ends s x \<Longrightarrow> attempt_generation s \<noteq> None \<and> attempt_generation (coord_step s x) = None"
  by (cases x) (simp_all add: attempt_ends_def attempt_cases)

lemma attempt_other_step:
  "\<not> attempt_begins s x \<Longrightarrow> \<not> attempt_ends s x \<Longrightarrow>
   attempt_generation (coord_step s x) = attempt_generation s"
  by (cases x) (simp_all add: attempt_begins_def attempt_ends_def attempt_cases(2,4,6-) attempt_frame)

lemma attempt_events_alternating:
  "alternating (attempt_generation s = None) (attempt_events s xs)
   \<and> (attempt_generation (run coord_step s xs) = None \<longleftrightarrow>
      (attempt_generation s = None) = even (length (attempt_events s xs)))"
proof (induction xs arbitrary: s)
  case Nil
  then show ?case by simp
next
  case (Cons x xs)
  consider "attempt_begins s x" | "\<not> attempt_begins s x" "attempt_ends s x"
    | "\<not> attempt_begins s x" "\<not> attempt_ends s x" by blast
  then show ?case
  proof cases
    case 1
    then show ?thesis using Cons [of "coord_step s x"] attempt_begins_step [of s x] by auto
  next
    case 2
    then show ?thesis using Cons [of "coord_step s x"] attempt_ends_step [of s x] by auto
  next
    case 3
    then show ?thesis using Cons [of "coord_step s x"] attempt_other_step [of s x] by simp
  qed
qed

section \<open>Retry schedule\<close>

text \<open>The retries of one intent, scheduled at the given times.\<close>

fun retry_times :: "coordinator \<Rightarrow> intent_generation \<Rightarrow> int list \<Rightarrow> int option list" where
  "retry_times s g [] = []"
| "retry_times s g (now_unix # rest) =
     fst (schedule_retry s g now_unix) # retry_times (snd (schedule_retry s g now_unix)) g rest"

definition nominal_delay :: "nat \<Rightarrow> int" where
  "nominal_delay i = [0, 2, 5, 15, 30, 60, 300] ! (min i 6)"

lemma delay_seconds_nominal: "uint (delay_seconds RETRY_DELAYS_SECONDS i) = nominal_delay i"
proof (cases "i < 7")
  case True
  then consider "i = 0" | "i = 1" | "i = 2" | "i = 3" | "i = 4" | "i = 5" | "i = 6"
    by linarith
  then show ?thesis
    by cases (simp_all add: delay_seconds_def nominal_delay_def RETRY_DELAYS_SECONDS_def)
next
  case False
  then show ?thesis
    by (simp add: delay_seconds_def nominal_delay_def RETRY_DELAYS_SECONDS_def min_def)
qed

lemma nominal_delay_bounds: "0 \<le> nominal_delay i \<and> nominal_delay i \<le> 300"
proof -
  have "min i 6 \<in> {0, 1, 2, 3, 4, 5, 6}" by auto
  then show ?thesis by (auto simp: nominal_delay_def)
qed

lemma nominal_delay_min: "nominal_delay (min usize_max i) = nominal_delay i"
  by (simp add: nominal_delay_def usize_max_def min_def)

lemma schedule_retry_step:
  assumes "schedule s = RETRY_DELAYS_SECONDS" and "desired s \<noteq> None" and "g = generation s"
    and "retry_index s = min usize_max k"
  shows "fst (schedule_retry s g now_unix) = Some (i64_saturate (now_unix + nominal_delay k))"
    and "schedule (snd (schedule_retry s g now_unix)) = RETRY_DELAYS_SECONDS"
    and "desired (snd (schedule_retry s g now_unix)) \<noteq> None"
    and "generation (snd (schedule_retry s g now_unix)) = g"
    and "retry_index (snd (schedule_retry s g now_unix)) = min usize_max (Suc k)"
proof -
  have "uint (delay_seconds RETRY_DELAYS_SECONDS (min usize_max k)) = nominal_delay k"
    by (simp add: delay_seconds_nominal nominal_delay_min)
  moreover have "nominal_delay k \<le> i64_max"
    using nominal_delay_bounds [of k] by (simp add: i64_max_def)
  ultimately show "fst (schedule_retry s g now_unix) = Some (i64_saturate (now_unix + nominal_delay k))"
    using assms by (simp add: schedule_retry_def Let_def)
qed (use assms in \<open>auto simp: schedule_retry_def usize_saturating_add_def Let_def\<close>)

lemma retry_times_nominal:
  assumes "schedule s = RETRY_DELAYS_SECONDS" and "desired s \<noteq> None" and "g = generation s"
    and "retry_index s = min usize_max k"
  shows "retry_times s g nows =
    map (\<lambda>(i, now_unix). Some (i64_saturate (now_unix + nominal_delay i))) (zip [k..<k + length nows] nows)"
  using assms
proof (induction nows arbitrary: s k)
  case Nil
  then show ?case by simp
next
  case (Cons now_unix rest)
  note step = schedule_retry_step [OF Cons.prems]
  have "retry_times (snd (schedule_retry s g now_unix)) g rest =
      map (\<lambda>(i, now_unix). Some (i64_saturate (now_unix + nominal_delay i)))
        (zip [Suc k..<Suc k + length rest] rest)"
    by (rule Cons.IH) (simp_all add: step)
  moreover have "[k..<k + length (now_unix # rest)] = k # [Suc k..<Suc k + length rest]"
    by (simp add: upt_rec)
  ultimately show ?case by (simp add: step(1))
qed


section \<open>Fingerprints\<close>

text \<open>A name followed by a closing quote or a comma determines the value it names.\<close>

lemma names_inj:
  "egress_name a @ CHR 0x22 # r = egress_name b @ CHR 0x22 # r' \<longleftrightarrow> a = b \<and> r = r'"
  "layer_name c @ CHR 0x22 # r = layer_name d @ CHR 0x22 # r' \<longleftrightarrow> c = d \<and> r = r'"
  "route_name e @ CHR 0x22 # r = route_name f @ CHR 0x22 # r' \<longleftrightarrow> e = f \<and> r = r'"
  "tic_mode_name g @ CHR 0x22 # r = tic_mode_name h @ CHR 0x22 # r' \<longleftrightarrow> g = h \<and> r = r'"
  "bool_name i @ CHR 0x2C # r = bool_name j @ CHR 0x2C # r' \<longleftrightarrow> i = j \<and> r = r'"
  by (cases a; cases b; simp) (cases c; cases d; simp | cases e; cases f; simp
      | cases g; cases h; simp | cases i; cases j; simp)+

lemma tic_mode_name_inj: "tic_mode_name a = tic_mode_name b \<longleftrightarrow> a = b"
  by (cases a; cases b) simp_all

lemmas canonical_defs =
  canonical_v1_def canonical_v2_def canonical_stalled_stop_def json_string_def json_bare_def

lemma canonical_v1_inj:
  "canonical_v1 options m = canonical_v1 options' m' \<longleftrightarrow>
     m = m' \<and> opt_layer options = opt_layer options'
     \<and> opt_tic_connection_mode options = opt_tic_connection_mode options'
     \<and> opt_route_mode options = opt_route_mode options'
     \<and> opt_egress_mode options = opt_egress_mode options'"
  by (auto simp: canonical_defs names_inj tic_mode_name_inj)

lemma canonical_v2_inj:
  "canonical_v2 options m r = canonical_v2 options' m' r' \<longleftrightarrow>
     m = m' \<and> r = r' \<and> opt_layer options = opt_layer options'
     \<and> opt_tic_connection_mode options = opt_tic_connection_mode options'
     \<and> opt_route_mode options = opt_route_mode options'
     \<and> opt_egress_mode options = opt_egress_mode options'"
  by (auto simp: canonical_defs names_inj tic_mode_name_inj)

lemma canonical_v1_v2: "canonical_v1 options m \<noteq> canonical_v2 options' m' r'"
  by (simp add: canonical_defs names_inj)

lemma canonical_stalled_stop_inj: "canonical_stalled_stop a = canonical_stalled_stop b \<longleftrightarrow> a = b"
  by (simp add: canonical_defs)

lemma canonical_stalled_stop_v1: "canonical_stalled_stop a \<noteq> canonical_v1 options m"
  by (simp add: canonical_defs)

lemma canonical_stalled_stop_v2: "canonical_stalled_stop a \<noteq> canonical_v2 options m r"
  by (simp add: canonical_defs)


section \<open>Properties\<close>

text \<open>C1: a cancelled generation stays cancelled.  Once \<open>cancel_intent\<close> has accepted a generation, no
  later sequence of calls, however it interleaves new intents, attempts and retries, makes a result
  of that generation count: it is answered with \<open>DiscardAndCompensate\<close> (or refused) and leaves the
  coordinator as it was.  This includes the last generation of the 64-bit counter.\<close>

theorem cancelled_generation_never_returns:
  assumes "cancel_intent s g = (True, s')"
  shows "let t = run coord_step s' later in
      accept_result t g = (DiscardAndCompensate, t)
    \<and> mark_connected t g conn = (DiscardAndCompensate, t)
    \<and> mark_terminal t g armed = (False, t)
    \<and> begin_attempt t g = (False, t)
    \<and> schedule_retry t g now_unix = (None, t)"
proof -
  have "retired g (run coord_step s' later)"
    using assms by (intro retired_run cancel_intent_retires)
  then show ?thesis by (simp add: retired_refused)
qed

definition wanted_default :: coordinator where
  "wanted_default = snd (start_or_resume default_coordinator desktop_default 0)"

definition sample_connection :: connection where
  "sample_connection =
     \<lparr>lease_id = ''l1'', conn_session_id = None, pool_id = None, conn_layer = Stray,
      conn_transport_protocol = Wireguard, conn_tic_connection_mode = Dynamic,
      conn_route_mode = Standalone, conn_egress_mode = EgressIpv4, conn_probe_url = None,
      conn_status = LeaseConnected, pinned = False, stopped_at = None\<rparr>"

theorem cancelled_generation_never_returns_witness:
  "\<exists>s'. cancel_intent wanted_default 1 = (True, s')
    \<and> fst (mark_connected (run coord_step s' [StartOrResume desktop_default 5, BeginAttempt 3]) 1
             sample_connection) = DiscardAndCompensate"
proof -
  have c: "cancel_intent wanted_default 1 = (True, snd (cancel_intent wanted_default 1))"
    by code_simp
  show ?thesis
    using c cancelled_generation_never_returns
        [OF c, where later = "[StartOrResume desktop_default 5, BeginAttempt 3]"
          and conn = sample_connection]
    by (auto simp: Let_def)
qed

text \<open>C2: every state the coordinator can reach satisfies its invariant: without a desired intent it
  shows no connection, no status, and the generation of an attempt in flight is never ahead; a
  pending wake-up or a scheduled retry means recovery is on; scheduled times are \<^verbatim>\<open>i64\<close> values; the
  template kept is normalised for its layer; exhaustion means the counter is at its maximum.\<close>

theorem coordinator_invariant: "coord_inv (run coord_step default_coordinator calls)"
  by (rule coord.inv_run)

text \<open>C3: at most one attempt is in flight.  Along every run from the start, successful
  \<open>begin_attempt\<close> calls and the calls that close an attempt alternate strictly, beginning with a
  \<open>begin_attempt\<close>, and an attempt is recorded as in flight exactly when it was begun and not closed.\<close>

theorem one_attempt_in_flight:
  "alternating True (attempt_events default_coordinator calls)
   \<and> (attempt_generation (run coord_step default_coordinator calls) = None \<longleftrightarrow>
      even (length (attempt_events default_coordinator calls)))"
  using attempt_events_alternating [of default_coordinator calls]
  by (simp add: default_coordinator_def)

text \<open>C4: the generation is a fence.  It never decreases along a run, and a result is accepted only
  for the current generation while its own attempt is in flight; every other result leaves the
  coordinator unchanged.\<close>

theorem generation_fences_results:
  "generation (run coord_step default_coordinator before)
     \<le> generation (run coord_step default_coordinator (before @ after))
   \<and> (fst (accept_result s g) = Accept \<longleftrightarrow>
      g = generation s \<and> desired s \<noteq> None \<and> attempt_generation s = Some g)
   \<and> (fst (accept_result s g) = Accept \<or> snd (accept_result s g) = s)"
  using coord.stamp_run_between [OF coord_inv_default, of before after]
  by (auto simp: accept_result_def)

text \<open>C5: the retries of an intent follow the published delays.  The \<open>i\<close>-th retry scheduled for a
  newly started intent is the given time plus 0, 2, 5, 15, 30, 60 and from then on 300 seconds,
  clamped to the \<^verbatim>\<open>i64\<close> range.\<close>

theorem retries_follow_schedule:
  assumes "start_or_resume s options start_unix = (Ok (DispRecovering g None), s')"
    and "desired s = None" and "coord_inv s"
  shows "retry_times s' g nows =
    map (\<lambda>(i, now_unix). Some (i64_saturate (now_unix + nominal_delay i))) (zip [0..<length nows] nows)"
proof -
  have "schedule s' = RETRY_DELAYS_SECONDS" "desired s' \<noteq> None" "g = generation s'"
      "retry_index s' = min usize_max 0"
    using assms
    by (auto simp: start_or_resume_def coord_inv_def Let_def split: if_splits option.splits)
  from retry_times_nominal [OF this, of nows] show ?thesis by simp
qed

theorem retries_follow_schedule_witness:
  "\<exists>s'. start_or_resume default_coordinator desktop_default 0 = (Ok (DispRecovering 1 None), s')
    \<and> retry_times s' 1 [100, 100, 102, 107, 122, 152, 212, 512] =
      [Some 100, Some 102, Some 107, Some 122, Some 152, Some 212, Some 512, Some 812]"
proof -
  let ?nows = "[100, 100, 102, 107, 122, 152, 212, 512] :: int list"
  have s: "start_or_resume default_coordinator desktop_default 0 =
      (Ok (DispRecovering 1 None), wanted_default)"
    by code_simp
  have d: "desired default_coordinator = None"
    by (simp add: default_coordinator_def)
  have "map (\<lambda>(i, now_unix). Some (i64_saturate (now_unix + nominal_delay i)))
      (zip [0..<length ?nows] ?nows) =
      [Some 100, Some 102, Some 107, Some 122, Some 152, Some 212, Some 512, Some 812]"
    by code_simp
  with s retries_follow_schedule [OF s d coord_inv_default, of ?nows] show ?thesis
    by auto
qed



text \<open>The texts that are ever fingerprinted: the canonical start requests, of which there are finitely
  many, and the stalled stops of the given leases.\<close>

definition fingerprinted_texts :: "string set \<Rightarrow> string set" where
  "fingerprinted_texts lids =
     {canonical_v1 options m | options m. True} \<union> {canonical_v2 options m r | options m r. True}
     \<union> canonical_stalled_stop ` lids"

lemma fingerprinted_texts_members [simp]:
  "canonical_v1 options m \<in> fingerprinted_texts lids"
  "canonical_v2 options m r \<in> fingerprinted_texts lids"
  "lid \<in> lids \<Longrightarrow> canonical_stalled_stop lid \<in> fingerprinted_texts lids"
  by (auto simp: fingerprinted_texts_def)

text \<open>C7: a fingerprint identifies its request.  As long as the digest has no collision among the
  texts that are fingerprinted, two start requests of the same contract have the same fingerprint
  exactly when they ask for the same thing, a fingerprint never serves two contracts, no start
  fingerprint is a stalled-stop fingerprint, and a stalled-stop fingerprint names one lease.\<close>

theorem fingerprints_identify_requests:
  assumes "inj_on sha256 (fingerprinted_texts {lid, lid'})"
  shows "(request_fingerprint_v1 sha256 options m = request_fingerprint_v1 sha256 options' m' \<longleftrightarrow>
      m = m' \<and> opt_layer options = opt_layer options'
      \<and> opt_tic_connection_mode options = opt_tic_connection_mode options'
      \<and> opt_route_mode options = opt_route_mode options'
      \<and> opt_egress_mode options = opt_egress_mode options')
    \<and> (request_fingerprint_v2 sha256 options m r = request_fingerprint_v2 sha256 options' m' r' \<longleftrightarrow>
      m = m' \<and> r = r' \<and> opt_layer options = opt_layer options'
      \<and> opt_tic_connection_mode options = opt_tic_connection_mode options'
      \<and> opt_route_mode options = opt_route_mode options'
      \<and> opt_egress_mode options = opt_egress_mode options')
    \<and> request_fingerprint_v1 sha256 options m \<noteq> request_fingerprint_v2 sha256 options' m' r'
    \<and> stalled_stop_request_fingerprint_v1 sha256 lid \<noteq> request_fingerprint_v1 sha256 options m
    \<and> stalled_stop_request_fingerprint_v1 sha256 lid \<noteq> request_fingerprint_v2 sha256 options m r
    \<and> (stalled_stop_request_fingerprint_v1 sha256 lid =
         stalled_stop_request_fingerprint_v1 sha256 lid' \<longleftrightarrow> lid = lid')"
proof -
  have "hex_string (sha256 a) = hex_string (sha256 b) \<longleftrightarrow> a = b"
    if "a \<in> fingerprinted_texts {lid, lid'}" and "b \<in> fingerprinted_texts {lid, lid'}" for a b
    using assms hex_string_inj that by (metis inj_onD)
  then show ?thesis
    unfolding request_fingerprint_v1_def request_fingerprint_v2_def
      stalled_stop_request_fingerprint_v1_def
    by (simp add: canonical_v1_inj canonical_v2_inj canonical_v1_v2 canonical_stalled_stop_inj
        canonical_stalled_stop_v1 canonical_stalled_stop_v2)
qed

text \<open>The bytes of the text itself, as an injective digest.\<close>

definition identity_digest :: "string \<Rightarrow> u8 list" where
  "identity_digest s = map (\<lambda>c. word_of_nat (byte_of c)) s"

lemma identity_digest_inj: "inj identity_digest"
proof -
  have "inj (\<lambda>c. word_of_nat (byte_of c) :: u8)"
  proof (rule injI)
    fix c d :: char
    assume "(word_of_nat (byte_of c) :: u8) = word_of_nat (byte_of d)"
    then have "unat (word_of_nat (byte_of c) :: u8) = unat (word_of_nat (byte_of d) :: u8)" by simp
    then have "byte_of c = byte_of d"
      by (simp add: unsigned_of_nat take_bit_eq_mod)
    then show "c = d" by simp
  qed
  then show ?thesis unfolding identity_digest_def by (rule inj_mapI)
qed

theorem fingerprints_identify_requests_witness:
  "inj_on identity_digest (fingerprinted_texts {''l1'', ''l2''})
   \<and> request_fingerprint_v1 identity_digest desktop_default True
       \<noteq> request_fingerprint_v1 identity_digest android_default True"
proof -
  have inj: "inj_on identity_digest (fingerprinted_texts {''l1'', ''l2''})"
    using identity_digest_inj by (rule inj_on_subset) simp
  then show ?thesis
    using fingerprints_identify_requests [OF inj, of desktop_default True android_default True]
    by (simp add: desktop_default_def android_default_def)
qed



end
