(* ===== verification/Rust_Io.thy ===== *)
theory Rust_Io
  imports Rust_Str
begin

text \<open>
  The part of \<^verbatim>\<open>std::io\<close>, \<^verbatim>\<open>std::fs\<close> and \<^verbatim>\<open>std::path\<close> that the sources use, with failures made
  explicit.

  A reader is the bytes it still delivers and how it ends.  A file system is a map from paths to
  nodes together with a schedule of faults: every call that can fail takes the next entry of the
  schedule, and an entry \<open>Some k\<close> makes the call fail (a write leaves its first \<open>k\<close> bytes behind, the
  other calls change nothing).  An exhausted schedule means no further faults, so every finite
  pattern of I/O failures is a value of the model and every definition stays executable.
\<close>

section \<open>Bytes\<close>

text \<open>A \<^verbatim>\<open>Vec<u8>\<close> is a \<^typ>\<open>string\<close>, one \<^typ>\<open>char\<close> per byte, so \<^verbatim>\<open>as_bytes\<close> of a \<^verbatim>\<open>str\<close> is the identity.\<close>

type_synonym bytes = string

text \<open>\<^verbatim>\<open>u32::to_le_bytes\<close> of \<^verbatim>\<open>n as u32\<close>, and \<^verbatim>\<open>u32::from_le_bytes\<close>.\<close>

definition u32_to_le_bytes :: "nat \<Rightarrow> bytes" where
  "u32_to_le_bytes n =
     [char_of n, char_of (n div 256), char_of (n div 65536), char_of (n div 16777216)]"

fun from_le_bytes :: "bytes \<Rightarrow> nat" where
  "from_le_bytes [] = 0"
| "from_le_bytes (b # bs) = byte_of b + 256 * from_le_bytes bs"

lemma length_u32_to_le_bytes [simp]: "length (u32_to_le_bytes n) = 4"
  by (simp add: u32_to_le_bytes_def)

lemma div_mod_shift: "(m :: nat) mod 256 + 256 * (m div 256) = m"
  by simp

lemma from_le_bytes_to_le_bytes [simp]:
  "n < 2 ^ 32 \<Longrightarrow> from_le_bytes (u32_to_le_bytes n) = n"
proof -
  assume "n < 2 ^ 32"
  then have "n div 16777216 < 256" by simp
  moreover have "n div 65536 div 256 = n div 16777216" "n div 256 div 256 = n div 65536"
    by (simp_all add: div_mult2_eq [symmetric])
  ultimately show ?thesis
    using div_mod_shift [of "n div 65536"] div_mod_shift [of "n div 256"] div_mod_shift [of n]
    by (simp add: u32_to_le_bytes_def)
qed

lemma from_le_bytes_less: "length bs = 4 \<Longrightarrow> from_le_bytes bs < 2 ^ 32"
proof -
  assume "length bs = 4"
  then obtain a b c d where bs: "bs = [a, b, c, d]"
    by (auto simp: numeral_eq_Suc length_Suc_conv)
  have less: "byte_of x < 256" for x
    by simp
  have "k + 256 * (l + 256 * (m + 256 * (n + 256 * 0))) < 2 ^ 32"
    if "k < 256" "l < 256" "m < 256" "n < 256" for k l m n :: nat
    using that by simp
  then show ?thesis
    unfolding bs from_le_bytes.simps using less by blast
qed

section \<open>Errors and readers\<close>

text \<open>An \<^verbatim>\<open>io::Error\<close>, by its kind; \<open>IoOther\<close> carries the message of \<^verbatim>\<open>io::Error::other\<close>.\<close>

datatype io_error =
  UnexpectedEof | NotFound | AlreadyExists | PermissionDenied | InvalidInput | InvalidData
| TimedOut | IoOther string

record reader =
  rd_bytes :: bytes
  rd_failure :: "io_error option"

text \<open>\<^verbatim>\<open>Read::read_exact\<close>.  Once the bytes are used up the stream is at its end, or every further
  read fails.\<close>

definition read_exact :: "nat \<Rightarrow> reader \<Rightarrow> (io_error, bytes) result \<times> reader" where
  "read_exact n r =
     (if n \<le> length (rd_bytes r)
      then (Ok (take n (rd_bytes r)), r\<lparr>rd_bytes := drop n (rd_bytes r)\<rparr>)
      else (Err (case rd_failure r of None \<Rightarrow> UnexpectedEof | Some e \<Rightarrow> e), r\<lparr>rd_bytes := []\<rparr>))"

lemma read_exact_length:
  "read_exact n r = (Ok bs, r') \<Longrightarrow>
   length bs = n \<and> rd_bytes r = bs @ rd_bytes r' \<and> rd_failure r' = rd_failure r"
  by (auto simp: read_exact_def split: if_splits)

lemma read_exact_append:
  "n = length bs \<Longrightarrow>
   read_exact n \<lparr>rd_bytes = bs @ rest, rd_failure = f\<rparr>
   = (Ok bs, \<lparr>rd_bytes = rest, rd_failure = f\<rparr>)"
  by (simp add: read_exact_def)

text \<open>A writer takes a bounded number of further bytes (\<open>None\<close>: any number) before its writes
  fail.\<close>

record writer =
  wr_bytes :: bytes
  wr_room :: "nat option"

definition write_all :: "bytes \<Rightarrow> writer \<Rightarrow> (io_error, unit) result \<times> writer" where
  "write_all bs w =
     (case wr_room w of
        None \<Rightarrow> (Ok (), w\<lparr>wr_bytes := wr_bytes w @ bs\<rparr>)
      | Some k \<Rightarrow>
          if length bs \<le> k
          then (Ok (), w\<lparr>wr_bytes := wr_bytes w @ bs, wr_room := Some (k - length bs)\<rparr>)
          else (Err (IoOther ''broken pipe''),
                w\<lparr>wr_bytes := wr_bytes w @ take k bs, wr_room := Some 0\<rparr>))"

section \<open>Paths\<close>

text \<open>A path is the list of its components; \<^verbatim>\<open>Path::join\<close> of a relative path appends, and
  \<^verbatim>\<open>Path::with_extension\<close> replaces what follows the last dot of the file name, unless that dot is
  its first character.\<close>

type_synonym path = "string list"

definition with_extension :: "string \<Rightarrow> path \<Rightarrow> path" where
  "with_extension ext p =
     (if p = [] then []
      else
        (let name = last p;
             stem = (case rsplit_once (CHR ''.'') name of
                       None \<Rightarrow> name
                     | Some (before, after) \<Rightarrow> if before = [] then name else before)
         in butlast p @ [if ext = [] then stem else stem @ ''.'' @ ext]))"

section \<open>Files\<close>

datatype node_kind =
  RegularFile bytes
| DirectoryNode
| SymlinkNode bool   \<comment> \<open>whether its target exists\<close>
| SocketNode

record node =
  nd_kind :: node_kind
  nd_uid :: u32
  nd_mode :: u32

record fs =
  nodes :: "path \<Rightarrow> node option"
  euid :: u32
  faults :: "nat option list"

definition next_fault :: "fs \<Rightarrow> nat option \<times> fs" where
  "next_fault w =
     (case faults w of [] \<Rightarrow> (None, w) | f # fs \<Rightarrow> (f, w\<lparr>faults := fs\<rparr>))"

fun is_file :: "node_kind \<Rightarrow> bool" where
  "is_file (RegularFile _) = True"
| "is_file _ = False"

fun is_dir :: "node_kind \<Rightarrow> bool" where
  "is_dir DirectoryNode = True"
| "is_dir _ = False"

fun is_symlink :: "node_kind \<Rightarrow> bool" where
  "is_symlink (SymlinkNode _) = True"
| "is_symlink _ = False"

fun file_len :: "node_kind \<Rightarrow> nat" where
  "file_len (RegularFile bs) = length bs"
| "file_len _ = 0"

text \<open>\<^verbatim>\<open>Path::exists\<close> follows links and answers \<^verbatim>\<open>false\<close> when it cannot look.\<close>

definition path_exists :: "path \<Rightarrow> fs \<Rightarrow> bool \<times> fs" where
  "path_exists p w =
     (case next_fault w of
        (Some _, w') \<Rightarrow> (False, w')
      | (None, w') \<Rightarrow>
          (case nodes w' p of
             None \<Rightarrow> (False, w')
           | Some n \<Rightarrow> (case nd_kind n of SymlinkNode b \<Rightarrow> (b, w') | _ \<Rightarrow> (True, w'))))"

definition symlink_metadata :: "path \<Rightarrow> fs \<Rightarrow> (io_error, node) result \<times> fs" where
  "symlink_metadata p w =
     (case next_fault w of
        (Some _, w') \<Rightarrow> (Err PermissionDenied, w')
      | (None, w') \<Rightarrow> (ok_or NotFound (nodes w' p), w'))"

text \<open>\<^verbatim>\<open>fs::read\<close>; the sources call it only on what they have found to be a regular file.\<close>

definition fs_read :: "path \<Rightarrow> fs \<Rightarrow> (io_error, bytes) result \<times> fs" where
  "fs_read p w =
     (case next_fault w of
        (Some _, w') \<Rightarrow> (Err (IoOther ''read''), w')
      | (None, w') \<Rightarrow>
          (case nodes w' p of
             None \<Rightarrow> (Err NotFound, w')
           | Some n \<Rightarrow>
               (case nd_kind n of
                  RegularFile bs \<Rightarrow> (Ok bs, w')
                | _ \<Rightarrow> (Err (IoOther ''not a regular file''), w'))))"

definition remove_file :: "path \<Rightarrow> fs \<Rightarrow> (io_error, unit) result \<times> fs" where
  "remove_file p w =
     (case next_fault w of
        (Some _, w') \<Rightarrow> (Err PermissionDenied, w')
      | (None, w') \<Rightarrow>
          (case nodes w' p of
             None \<Rightarrow> (Err NotFound, w')
           | Some n \<Rightarrow>
               if is_dir (nd_kind n) then (Err (IoOther ''is a directory''), w')
               else (Ok (), w'\<lparr>nodes := (nodes w')(p := None)\<rparr>)))"

text \<open>\<^verbatim>\<open>OpenOptions::new().create_new(true).write(true).mode(m).open(p)\<close>.\<close>

definition create_new :: "u32 \<Rightarrow> path \<Rightarrow> fs \<Rightarrow> (io_error, unit) result \<times> fs" where
  "create_new mode p w =
     (case next_fault w of
        (Some _, w') \<Rightarrow> (Err PermissionDenied, w')
      | (None, w') \<Rightarrow>
          (case nodes w' p of
             Some _ \<Rightarrow> (Err AlreadyExists, w')
           | None \<Rightarrow>
               (Ok (), w'\<lparr>nodes := (nodes w')
                  (p := Some \<lparr>nd_kind = RegularFile [], nd_uid = euid w', nd_mode = mode\<rparr>)\<rparr>)))"

text \<open>\<^verbatim>\<open>write_all\<close> and \<^verbatim>\<open>sync_all\<close> on the file just opened at \<open>p\<close>.\<close>

definition append_file :: "bytes \<Rightarrow> path \<Rightarrow> fs \<Rightarrow> fs" where
  "append_file bs p w =
     (case nodes w p of
        Some n \<Rightarrow>
          (case nd_kind n of
             RegularFile old \<Rightarrow>
               w\<lparr>nodes := (nodes w)(p := Some (n\<lparr>nd_kind := RegularFile (old @ bs)\<rparr>))\<rparr>
           | _ \<Rightarrow> w)
      | None \<Rightarrow> w)"

definition file_write_all :: "bytes \<Rightarrow> path \<Rightarrow> fs \<Rightarrow> (io_error, unit) result \<times> fs" where
  "file_write_all bs p w =
     (case next_fault w of
        (Some k, w') \<Rightarrow> (Err (IoOther ''write''), append_file (take k bs) p w')
      | (None, w') \<Rightarrow> (Ok (), append_file bs p w'))"

definition sync_all :: "fs \<Rightarrow> (io_error, unit) result \<times> fs" where
  "sync_all w =
     (case next_fault w of
        (Some _, w') \<Rightarrow> (Err (IoOther ''sync''), w')
      | (None, w') \<Rightarrow> (Ok (), w'))"

definition fs_rename :: "path \<Rightarrow> path \<Rightarrow> fs \<Rightarrow> (io_error, unit) result \<times> fs" where
  "fs_rename p q w =
     (case next_fault w of
        (Some _, w') \<Rightarrow> (Err PermissionDenied, w')
      | (None, w') \<Rightarrow>
          (case nodes w' p of
             None \<Rightarrow> (Err NotFound, w')
           | Some n \<Rightarrow>
               if (case nodes w' q of None \<Rightarrow> False | Some t \<Rightarrow> is_dir (nd_kind t) \<noteq> is_dir (nd_kind n))
               then (Err (IoOther ''is a directory''), w')
               else (Ok (), w'\<lparr>nodes := (nodes w')(p := None, q := Some n)\<rparr>)))"

lemma next_fault_frame:
  "next_fault w = (f, w') \<Longrightarrow>
   nodes w' = nodes w \<and> euid w' = euid w \<and> (faults w = [] \<longrightarrow> f = None \<and> faults w' = [])"
  by (auto simp: next_fault_def split: list.splits)

text \<open>Sequencing of calls on a world: \<^verbatim>\<open>?\<close> in code that changes it.\<close>

definition bind_io ::
  "('e, 'a) result \<times> 'w \<Rightarrow> ('a \<Rightarrow> 'w \<Rightarrow> ('e, 'b) result \<times> 'w) \<Rightarrow> ('e, 'b) result \<times> 'w" where
  "bind_io m f = (case m of (Inl e, w) \<Rightarrow> (Inl e, w) | (Inr x, w) \<Rightarrow> f x w)"

definition map_err_io :: "('e \<Rightarrow> 'f) \<Rightarrow> ('e, 'a) result \<times> 'w \<Rightarrow> ('f, 'a) result \<times> 'w" where
  "map_err_io f m = (map_err f (fst m), snd m)"

lemma bind_io_simps [simp, result_simps]:
  "bind_io (Inl e, w) f = (Inl e, w)"
  "bind_io (Inr x, w) f = f x w"
  by (simp_all add: bind_io_def)

lemma map_err_io_simps [simp, result_simps]:
  "map_err_io f (Inl e, w) = (Inl (f e), w)"
  "map_err_io f (Inr x, w) = (Inr x, w)"
  by (simp_all add: map_err_io_def)

lemma bind_io_eq_Ok_iff:
  "bind_io m f = (Ok y, w) \<longleftrightarrow> (\<exists>x v. m = (Ok x, v) \<and> f x v = (Ok y, w))"
  by (cases m; cases "fst m") (auto simp: bind_io_def split: sum.splits)

lemma map_err_io_eq_Ok_iff: "map_err_io f m = (Ok y, w) \<longleftrightarrow> m = (Ok y, w)"
  by (cases m; cases "fst m") auto

end
