(* ===== verification/RuntimeManifest.thy ===== *)
theory RuntimeManifest
  imports Rust_Io
begin

text \<open>
  The signed metadata contracts of \<^verbatim>\<open>crates/contracts/src/runtime.rs\<close>: container manifests, platform
  (runtime artifact) manifests and release-set roots, their validation, and their verification
  against an Ed25519 key.

  What the file takes from other crates is the record \<open>manifest_api\<close>: key and signature decoding and
  \<^verbatim>\<open>verify_strict\<close> of \<^verbatim>\<open>ed25519_dalek\<close>, \<^verbatim>\<open>Sha256::digest\<close>, the string serializer of \<^verbatim>\<open>serde_json\<close>, and
  the NFKC case folding of a path segment (\<^verbatim>\<open>unicode_normalization\<close>, \<^verbatim>\<open>caseless\<close>).  The derived
  deserializers and serializers come in as functions, one pair per manifest type.
\<close>

section \<open>Data\<close>

datatype runtime_slot = Latest | Stable

record runtime_identity =
  ri_slot :: runtime_slot
  ri_runtime_version :: string
  ri_runtime_contract_version :: u32
  ri_container_version :: string
  ri_session_generation :: "u64 option"

datatype runtime_file_role = Executable | SharedLibrary | Resource | License | Metadata

record runtime_file_v1 =
  rf_path :: string
  rf_size_bytes :: u64
  rf_sha256 :: string
  rf_role :: runtime_file_role

record runtime_artifact_manifest_v1 =
  ra_format_version :: u32
  ra_runtime_version :: string
  ra_source_commit :: string
  ra_platform :: string
  ra_architecture :: string
  ra_contract_version :: u32
  ra_files :: "runtime_file_v1 list"

record runtime_slot_manifest_v1 =
  rs_slot :: runtime_slot
  rs_manifest :: runtime_artifact_manifest_v1

record container_manifest_v1 =
  cm_format_version :: u32
  cm_container_version :: string
  cm_release_set_id :: string
  cm_minimum_runtime_contract :: u32
  cm_maximum_runtime_contract :: u32
  cm_stable_release_set_sha256 :: "string option"
  cm_stable_platform_manifest_sha256 :: "string option"
  cm_slots :: "runtime_slot_manifest_v1 list"

record runtime_release_artifact_v1 =
  rr_platform :: string
  rr_architecture :: string
  rr_archive_name :: string
  rr_archive_sha256 :: string
  rr_manifest_name :: string
  rr_manifest_sha256 :: string
  rr_signature_name :: string
  rr_signature_sha256 :: string

record runtime_release_set_manifest_v1 =
  rm_format_version :: u32
  rm_release_set_id :: string
  rm_runtime_version :: string
  rm_source_commit :: string
  rm_artifacts :: "runtime_release_artifact_v1 list"

datatype runtime_manifest_error =
  InputTooLarge | InvalidSignature | InvalidJson | NonCanonicalJson | UnsupportedFormatVersion
| InvalidContractRange | UnsupportedContract | WrongTarget | InvalidPath | DuplicatePath
| InvalidDigest | DigestMismatch | InvalidSlots | InvalidStableDigests | InvalidReleaseSet
| InvalidSessionGeneration | InvalidField

fun runtime_manifest_error_display :: "runtime_manifest_error \<Rightarrow> string" where
  "runtime_manifest_error_display InputTooLarge = ''runtime manifest exceeds the input limit''"
| "runtime_manifest_error_display InvalidSignature = ''runtime manifest signature is invalid''"
| "runtime_manifest_error_display InvalidJson = ''runtime manifest JSON is invalid''"
| "runtime_manifest_error_display NonCanonicalJson = ''runtime manifest JSON is not canonical''"
| "runtime_manifest_error_display UnsupportedFormatVersion =
     ''runtime manifest format is unsupported''"
| "runtime_manifest_error_display InvalidContractRange = ''runtime contract range is invalid''"
| "runtime_manifest_error_display UnsupportedContract = ''runtime contract is unsupported''"
| "runtime_manifest_error_display WrongTarget =
     ''runtime manifest target does not match the container''"
| "runtime_manifest_error_display InvalidPath =
     ''runtime manifest path is not portable and relative''"
| "runtime_manifest_error_display DuplicatePath = ''runtime manifest contains colliding paths''"
| "runtime_manifest_error_display InvalidDigest = ''runtime manifest digest is invalid''"
| "runtime_manifest_error_display DigestMismatch = ''runtime manifest digest does not match''"
| "runtime_manifest_error_display InvalidSlots = ''runtime container slots are invalid''"
| "runtime_manifest_error_display InvalidStableDigests =
     ''runtime stable digest linkage is invalid''"
| "runtime_manifest_error_display InvalidReleaseSet =
     ''runtime release set is incomplete or duplicated''"
| "runtime_manifest_error_display InvalidSessionGeneration =
     ''runtime session generation must be positive''"
| "runtime_manifest_error_display InvalidField = ''runtime manifest field is invalid''"

definition COMPILED_RUNTIME_CONTRACT_VERSION :: u32 where
  "COMPILED_RUNTIME_CONTRACT_VERSION = 1"

definition CONTAINER_MANIFEST_SIGNATURE_DOMAIN :: bytes where
  "CONTAINER_MANIFEST_SIGNATURE_DOMAIN = ''nelomai-container-manifest-v1'' @ [CHR 0x00]"

definition RUNTIME_MANIFEST_SIGNATURE_DOMAIN :: bytes where
  "RUNTIME_MANIFEST_SIGNATURE_DOMAIN = ''nelomai-runtime-manifest-v1'' @ [CHR 0x00]"

definition RUNTIME_RELEASE_SET_SIGNATURE_DOMAIN :: bytes where
  "RUNTIME_RELEASE_SET_SIGNATURE_DOMAIN = ''nelomai-runtime-release-set-v1'' @ [CHR 0x00]"

definition FORMAT_VERSION_V1 :: u32 where "FORMAT_VERSION_V1 = 1"
definition MAX_MANIFEST_BYTES :: nat where "MAX_MANIFEST_BYTES = 1024 * 1024"
definition MAX_RUNTIME_FILES :: nat where "MAX_RUNTIME_FILES = 4096"
definition MAX_STRING_BYTES :: nat where "MAX_STRING_BYTES = 1024"
definition MAX_RUNTIME_VERSION_BYTES :: nat where "MAX_RUNTIME_VERSION_BYTES = 64"

record manifest_api =
  verifying_key_ok :: "bytes \<Rightarrow> bool"
  signature_ok :: "bytes \<Rightarrow> bool"
  verify_strict :: "bytes \<Rightarrow> bytes \<Rightarrow> bytes \<Rightarrow> bool"
  sha256_digest :: "bytes \<Rightarrow> u8 list"
  json_string_text :: "string \<Rightarrow> string"
  nfkc_case_fold :: "string \<Rightarrow> string"

section \<open>Field validation\<close>

definition validate_text :: "string \<Rightarrow> (runtime_manifest_error, unit) result" where
  "validate_text v =
     (if v = [] \<or> length v > MAX_STRING_BYTES \<or> any_control v then Err InvalidField else Ok ())"

text \<open>The first \<^verbatim>\<open>-\<close> or \<^verbatim>\<open>+\<close> starts the suffix.\<close>

fun split_version :: "string \<Rightarrow> string \<times> string option" where
  "split_version [] = ([], None)"
| "split_version (c # s) =
     (if c = CHR ''-'' \<or> c = CHR ''+'' then ([], Some s)
      else (case split_version s of (core, suff) \<Rightarrow> (c # core, suff)))"

definition version_component :: "string \<Rightarrow> bool" where
  "version_component s \<longleftrightarrow> s \<noteq> [] \<and> list_all is_ascii_digit s"

definition version_suffix :: "string \<Rightarrow> bool" where
  "version_suffix s \<longleftrightarrow>
     s \<noteq> [] \<and> list_all (\<lambda>c. is_ascii_alphanumeric c \<or> c = CHR ''.'' \<or> c = CHR ''-'') s"

definition validate_runtime_version :: "string \<Rightarrow> (runtime_manifest_error, unit) result" where
  "validate_runtime_version v =
     (if v = [] \<or> length v > MAX_RUNTIME_VERSION_BYTES \<or> \<not> str_is_ascii v then Err InvalidField
      else
        (let (core, suff) = split_version v;
             components = split_on (CHR ''.'') core;
             valid_core = (length components = 3 \<and> list_all version_component components);
             valid_suffix = (case suff of None \<Rightarrow> True | Some s \<Rightarrow> version_suffix s)
         in if \<not> valid_core \<or> \<not> valid_suffix then Err InvalidField else Ok ()))"

definition lower_hex :: "char \<Rightarrow> bool" where
  "lower_hex c \<longleftrightarrow> is_ascii_digit c \<or> 97 \<le> byte_of c \<and> byte_of c \<le> 102"

definition validate_source_commit :: "string \<Rightarrow> (runtime_manifest_error, unit) result" where
  "validate_source_commit v =
     (if length v \<noteq> 40 \<or> \<not> list_all lower_hex v then Err InvalidField else Ok ())"

definition valid_sha256 :: "string \<Rightarrow> bool" where
  "valid_sha256 v \<longleftrightarrow> length v = 64 \<and> list_all lower_hex v"

definition sha256_hex :: "manifest_api \<Rightarrow> bytes \<Rightarrow> string" where
  "sha256_hex api bs = hex_string (sha256_digest api bs)"

definition forbidden_segment :: "string \<Rightarrow> bool" where
  "forbidden_segment segment \<longleftrightarrow>
     segment = [] \<or> segment = ''.'' \<or> segment = ''..''
     \<or> last segment = CHR ''.'' \<or> last segment = CHR '' ''
     \<or> list_ex (\<lambda>c. c \<in> {CHR ''<'', CHR ''>'', CHR '':'', CHR 0x22, CHR ''|'', CHR ''?'', CHR ''*''})
         segment"

definition reserved_alias :: "string \<Rightarrow> bool" where
  "reserved_alias alias \<longleftrightarrow>
     (let base = hd (split_on (CHR ''.'') alias) in
      base \<in> {''con'', ''prn'', ''aux'', ''nul''}
      \<or> length base = 4
        \<and> (strip_prefix ''com'' base \<noteq> None \<or> strip_prefix ''lpt'' base \<noteq> None)
        \<and> 49 \<le> byte_of (base ! 3) \<and> byte_of (base ! 3) \<le> 57)"

definition segment_alias ::
  "manifest_api \<Rightarrow> string \<Rightarrow> (runtime_manifest_error, string) result" where
  "segment_alias api segment =
     (if forbidden_segment segment then Err InvalidPath
      else
        (let alias = nfkc_case_fold api segment in
         if reserved_alias alias then Err InvalidPath else Ok alias))"

definition portable_path_alias ::
  "manifest_api \<Rightarrow> string \<Rightarrow> (runtime_manifest_error, string) result" where
  "portable_path_alias api path =
     (if path = [] \<or> length path > MAX_STRING_BYTES \<or> starts_with_char (CHR ''/'') path
         \<or> CHR 0x5C \<in> set path \<or> any_control path
      then Err InvalidPath
      else
        and_then (collect_results (segment_alias api) (split_on (CHR ''/'') path)) (\<lambda>aliases.
          Ok (join ''/'' aliases)))"

definition validate_asset_name ::
  "manifest_api \<Rightarrow> string \<Rightarrow> (runtime_manifest_error, unit) result" where
  "validate_asset_name api v =
     and_then (portable_path_alias api v) (\<lambda>_.
       if CHR ''/'' \<in> set v then Err InvalidPath else Ok ())"

section \<open>Identities\<close>

definition runtime_identity_validate ::
  "runtime_identity \<Rightarrow> (runtime_manifest_error, unit) result" where
  "runtime_identity_validate r =
     and_then (validate_runtime_version (ri_runtime_version r)) (\<lambda>_.
     and_then (validate_runtime_version (ri_container_version r)) (\<lambda>_.
       if ri_runtime_contract_version r = 0
          \<or> uint (ri_runtime_contract_version r) > 2147483647
       then Err InvalidField
       else if (case ri_session_generation r of
                  None \<Rightarrow> False
                | Some g \<Rightarrow> g = 0 \<or> uint g > i64_max)
       then Err InvalidSessionGeneration
       else Ok ()))"

section \<open>Manifest validation\<close>

text \<open>The loop over the files of an artifact; \<open>seen\<close> holds the aliases inserted so far.\<close>

fun validate_files ::
  "manifest_api \<Rightarrow> string list \<Rightarrow> runtime_file_v1 list \<Rightarrow> (runtime_manifest_error, unit) result" where
  "validate_files api seen [] = Ok ()"
| "validate_files api seen (file # files) =
     and_then (portable_path_alias api (rf_path file)) (\<lambda>alias.
       if alias \<in> set seen then Err DuplicatePath
       else if \<not> valid_sha256 (rf_sha256 file) then Err InvalidDigest
       else validate_files api (alias # seen) files)"

definition validate_artifact ::
  "manifest_api \<Rightarrow> runtime_artifact_manifest_v1 \<Rightarrow> string \<Rightarrow> string \<Rightarrow>
   (runtime_manifest_error, unit) result" where
  "validate_artifact api m platform architecture =
     and_then (ensure (ra_format_version m = FORMAT_VERSION_V1) UnsupportedFormatVersion) (\<lambda>_.
     and_then (ensure (ra_contract_version m = COMPILED_RUNTIME_CONTRACT_VERSION)
                 UnsupportedContract) (\<lambda>_.
     and_then (validate_runtime_version (ra_runtime_version m)) (\<lambda>_.
     and_then (validate_source_commit (ra_source_commit m)) (\<lambda>_.
     and_then (validate_text (ra_platform m)) (\<lambda>_.
     and_then (validate_text (ra_architecture m)) (\<lambda>_.
     and_then (ensure (ra_platform m = platform \<and> ra_architecture m = architecture)
                 WrongTarget) (\<lambda>_.
     and_then (ensure (ra_files m \<noteq> [] \<and> length (ra_files m) \<le> MAX_RUNTIME_FILES)
                 InvalidField) (\<lambda>_.
       validate_files api [] (ra_files m)))))))))"

text \<open>The loop over the slots, with the two indices found so far.\<close>

fun validate_slots ::
  "manifest_api \<Rightarrow> string \<Rightarrow> string \<Rightarrow> nat \<Rightarrow> nat option \<Rightarrow> nat option \<Rightarrow>
   runtime_slot_manifest_v1 list \<Rightarrow> (runtime_manifest_error, nat option \<times> nat option) result" where
  "validate_slots api platform architecture index latest stable_slot [] = Ok (latest, stable_slot)"
| "validate_slots api platform architecture index latest stable_slot (slot # slots) =
     and_then (validate_artifact api (rs_manifest slot) platform architecture) (\<lambda>_.
       case rs_slot slot of
         Latest \<Rightarrow>
           if latest \<noteq> None then Err InvalidSlots
           else validate_slots api platform architecture (Suc index) (Some index) stable_slot slots
       | Stable \<Rightarrow>
           if stable_slot \<noteq> None then Err InvalidSlots
           else validate_slots api platform architecture (Suc index) latest (Some index) slots)"

record verified_container_manifest =
  vc_manifest :: container_manifest_v1
  vc_latest_index :: nat
  vc_stable_index :: "nat option"

definition slot_version :: "container_manifest_v1 \<Rightarrow> nat \<Rightarrow> string" where
  "slot_version m i = ra_runtime_version (rs_manifest (cm_slots m ! i))"

definition stable_digests_ok :: "nat option \<Rightarrow> string option \<Rightarrow> string option \<Rightarrow> bool" where
  "stable_digests_ok distinct_stable root platform_manifest =
     (case (distinct_stable, root, platform_manifest) of
        (Some _, Some r, Some p) \<Rightarrow> valid_sha256 r \<and> valid_sha256 p
      | (None, None, None) \<Rightarrow> True
      | _ \<Rightarrow> False)"

definition validate_container ::
  "manifest_api \<Rightarrow> container_manifest_v1 \<Rightarrow> string \<Rightarrow> string \<Rightarrow>
   (runtime_manifest_error, verified_container_manifest) result" where
  "validate_container api m platform architecture =
     and_then (ensure (cm_format_version m = FORMAT_VERSION_V1) UnsupportedFormatVersion) (\<lambda>_.
     and_then (validate_runtime_version (cm_container_version m)) (\<lambda>_.
     and_then (validate_text (cm_release_set_id m)) (\<lambda>_.
     and_then (ensure (\<not> (cm_minimum_runtime_contract m = 0 \<or> cm_maximum_runtime_contract m = 0
                          \<or> cm_minimum_runtime_contract m > cm_maximum_runtime_contract m))
                 InvalidContractRange) (\<lambda>_.
     and_then (ensure (cm_minimum_runtime_contract m \<le> COMPILED_RUNTIME_CONTRACT_VERSION
                       \<and> COMPILED_RUNTIME_CONTRACT_VERSION \<le> cm_maximum_runtime_contract m)
                 UnsupportedContract) (\<lambda>_.
     and_then (ensure (\<not> (cm_slots m = [] \<or> length (cm_slots m) > 2)) InvalidSlots) (\<lambda>_.
     and_then (validate_slots api platform architecture 0 None None (cm_slots m))
       (\<lambda>(latest_index, stable_slot_index).
     and_then (ok_or InvalidSlots latest_index) (\<lambda>latest_index.
       let distinct_stable_index =
             (case stable_slot_index of
                None \<Rightarrow> None
              | Some i \<Rightarrow> if slot_version m i \<noteq> slot_version m latest_index then Some i else None)
       in if stable_digests_ok distinct_stable_index (cm_stable_release_set_sha256 m)
               (cm_stable_platform_manifest_sha256 m)
          then Ok \<lparr>vc_manifest = m, vc_latest_index = latest_index,
                   vc_stable_index = distinct_stable_index\<rparr>
          else Err InvalidStableDigests))))))))"

definition expected_targets :: "(string \<times> string) list" where
  "expected_targets =
     [(''linux'', ''x86_64''), (''windows'', ''x86_64''), (''macos'', ''aarch64''),
      (''android'', ''aarch64'')]"

fun validate_release_artifacts ::
  "manifest_api \<Rightarrow> (string \<times> string) list \<Rightarrow> runtime_release_artifact_v1 list \<Rightarrow>
   (runtime_manifest_error, (string \<times> string) list) result" where
  "validate_release_artifacts api actual [] = Ok actual"
| "validate_release_artifacts api actual (a # as) =
     and_then (validate_text (rr_platform a)) (\<lambda>_.
     and_then (validate_text (rr_architecture a)) (\<lambda>_.
     and_then (ensure ((rr_platform a, rr_architecture a) \<notin> set actual) InvalidReleaseSet) (\<lambda>_.
     and_then (validate_asset_name api (rr_archive_name a)) (\<lambda>_.
     and_then (validate_asset_name api (rr_manifest_name a)) (\<lambda>_.
     and_then (validate_asset_name api (rr_signature_name a)) (\<lambda>_.
     and_then (ensure (list_all valid_sha256
                         [rr_archive_sha256 a, rr_manifest_sha256 a, rr_signature_sha256 a])
                 InvalidDigest) (\<lambda>_.
       validate_release_artifacts api ((rr_platform a, rr_architecture a) # actual) as)))))))"

definition validate_release_set ::
  "manifest_api \<Rightarrow> runtime_release_set_manifest_v1 \<Rightarrow> (runtime_manifest_error, unit) result" where
  "validate_release_set api m =
     and_then (ensure (rm_format_version m = FORMAT_VERSION_V1) UnsupportedFormatVersion) (\<lambda>_.
     and_then (validate_text (rm_release_set_id m)) (\<lambda>_.
     and_then (validate_runtime_version (rm_runtime_version m)) (\<lambda>_.
     and_then (validate_source_commit (rm_source_commit m)) (\<lambda>_.
     and_then (ensure (\<not> (length (rm_artifacts m) \<noteq> 4 \<and> length (rm_artifacts m) \<noteq> 1))
                 InvalidReleaseSet) (\<lambda>_.
     and_then (validate_release_artifacts api [] (rm_artifacts m)) (\<lambda>actual.
       if set actual \<noteq> set expected_targets \<and> set actual \<noteq> {(''android'', ''aarch64'')}
       then Err InvalidReleaseSet else Ok ()))))))"

section \<open>Verification\<close>

definition signed_message :: "bytes \<Rightarrow> bytes \<Rightarrow> bytes" where
  "signed_message domain bs = domain @ bs"

definition verify_signature_first ::
  "manifest_api \<Rightarrow> bytes \<Rightarrow> bytes \<Rightarrow> bytes \<Rightarrow> bytes \<Rightarrow> (runtime_manifest_error, unit) result" where
  "verify_signature_first api bs signature public_key domain =
     (if length bs > MAX_MANIFEST_BYTES then Err InputTooLarge
      else if length public_key \<noteq> 32 then Err InvalidSignature
      else if \<not> verifying_key_ok api public_key then Err InvalidSignature
      else if \<not> signature_ok api signature then Err InvalidSignature
      else if \<not> verify_strict api public_key (signed_message domain bs) signature
      then Err InvalidSignature
      else Ok ())"

text \<open>\<^verbatim>\<open>serde_json::Value\<close>.  A number is its printed text, an object its entries in storage order.\<close>

datatype json =
  JNull | JBool bool | JNumber string | JString string | JArray "json list"
| JObject "(string \<times> json) list"

text \<open>Fields in order of their keys; keys compare by their bytes.\<close>

fun bytes_less :: "string \<Rightarrow> string \<Rightarrow> bool" where
  "bytes_less _ [] = False"
| "bytes_less [] (_ # _) = True"
| "bytes_less (a # s) (b # t) =
     (byte_of a < byte_of b \<or> byte_of a = byte_of b \<and> bytes_less s t)"

fun insert_by_key :: "string \<times> 'a \<Rightarrow> (string \<times> 'a) list \<Rightarrow> (string \<times> 'a) list" where
  "insert_by_key x [] = [x]"
| "insert_by_key x (y # ys) =
     (if bytes_less (fst y) (fst x) then y # insert_by_key x ys else x # y # ys)"

definition sort_by_key :: "(string \<times> 'a) list \<Rightarrow> (string \<times> 'a) list" where
  "sort_by_key xs = foldr insert_by_key xs []"

fun canonical_json :: "manifest_api \<Rightarrow> json \<Rightarrow> bytes" where
  "canonical_json api JNull = ''null''"
| "canonical_json api (JBool True) = ''true''"
| "canonical_json api (JBool False) = ''false''"
| "canonical_json api (JNumber n) = n"
| "canonical_json api (JString s) = json_string_text api s"
| "canonical_json api (JArray items) = ''['' @ join '','' (map (canonical_json api) items) @ '']''"
| "canonical_json api (JObject entries) =
     ''{'' @ join '','' (map (\<lambda>(key, text). json_string_text api key @ '':'' @ text)
       (sort_by_key (map (\<lambda>(key, v). (key, canonical_json api v)) entries))) @ ''}''"

definition parse_canonical ::
  "manifest_api \<Rightarrow> (bytes \<Rightarrow> 'a option) \<Rightarrow> ('a \<Rightarrow> json option) \<Rightarrow> bytes \<Rightarrow>
   (runtime_manifest_error, 'a) result" where
  "parse_canonical api from_slice to_value bs =
     and_then (ok_or InvalidJson (from_slice bs)) (\<lambda>v.
     and_then (ok_or InvalidJson (to_value v)) (\<lambda>serialized.
       if canonical_json api serialized \<noteq> bs then Err NonCanonicalJson else Ok v))"

definition verify_container_manifest ::
  "manifest_api \<Rightarrow> (bytes \<Rightarrow> container_manifest_v1 option) \<Rightarrow> (container_manifest_v1 \<Rightarrow> json option) \<Rightarrow>
   bytes \<Rightarrow> bytes \<Rightarrow> bytes \<Rightarrow> string \<Rightarrow> string \<Rightarrow>
   (runtime_manifest_error, verified_container_manifest) result" where
  "verify_container_manifest api from_slice to_value bs signature public_key platform architecture =
     and_then (verify_signature_first api bs signature public_key
                 CONTAINER_MANIFEST_SIGNATURE_DOMAIN) (\<lambda>_.
     and_then (parse_canonical api from_slice to_value bs) (\<lambda>m.
       validate_container api m platform architecture))"

record verified_runtime_artifact_manifest =
  va_manifest :: runtime_artifact_manifest_v1
  va_sha256 :: string

definition verify_runtime_artifact_manifest ::
  "manifest_api \<Rightarrow> (bytes \<Rightarrow> runtime_artifact_manifest_v1 option) \<Rightarrow>
   (runtime_artifact_manifest_v1 \<Rightarrow> json option) \<Rightarrow> bytes \<Rightarrow> bytes \<Rightarrow> bytes \<Rightarrow> string \<Rightarrow> string \<Rightarrow>
   (runtime_manifest_error, verified_runtime_artifact_manifest) result" where
  "verify_runtime_artifact_manifest api from_slice to_value bs signature public_key platform
     architecture =
     and_then (verify_signature_first api bs signature public_key
                 RUNTIME_MANIFEST_SIGNATURE_DOMAIN) (\<lambda>_.
     and_then (parse_canonical api from_slice to_value bs) (\<lambda>m.
     and_then (validate_artifact api m platform architecture) (\<lambda>_.
       Ok \<lparr>va_manifest = m, va_sha256 = sha256_hex api bs\<rparr>)))"

record verified_runtime_release_set_manifest =
  vr_manifest :: runtime_release_set_manifest_v1
  vr_sha256 :: string

definition verify_runtime_release_set_manifest ::
  "manifest_api \<Rightarrow> (bytes \<Rightarrow> runtime_release_set_manifest_v1 option) \<Rightarrow>
   (runtime_release_set_manifest_v1 \<Rightarrow> json option) \<Rightarrow> bytes \<Rightarrow> bytes \<Rightarrow> bytes \<Rightarrow> string \<Rightarrow>
   (runtime_manifest_error, verified_runtime_release_set_manifest) result" where
  "verify_runtime_release_set_manifest api from_slice to_value bs signature public_key
     expected_sha256 =
     and_then (verify_signature_first api bs signature public_key
                 RUNTIME_RELEASE_SET_SIGNATURE_DOMAIN) (\<lambda>_.
     and_then (ensure (valid_sha256 expected_sha256) InvalidDigest) (\<lambda>_.
     and_then (ensure (sha256_hex api bs = expected_sha256) DigestMismatch) (\<lambda>_.
     and_then (parse_canonical api from_slice to_value bs) (\<lambda>m.
     and_then (validate_release_set api m) (\<lambda>_.
       Ok \<lparr>vr_manifest = m, vr_sha256 = sha256_hex api bs\<rparr>)))))"

section \<open>Verified manifests\<close>

definition vc_latest :: "verified_container_manifest \<Rightarrow> runtime_artifact_manifest_v1" where
  "vc_latest v = rs_manifest (cm_slots (vc_manifest v) ! vc_latest_index v)"

definition vc_stable :: "verified_container_manifest \<Rightarrow> runtime_artifact_manifest_v1 option" where
  "vc_stable v = map_option (\<lambda>i. rs_manifest (cm_slots (vc_manifest v) ! i)) (vc_stable_index v)"

fun vc_selected ::
  "verified_container_manifest \<Rightarrow> runtime_slot \<Rightarrow> runtime_artifact_manifest_v1 option" where
  "vc_selected v Latest = Some (vc_latest v)"
| "vc_selected v Stable = vc_stable v"

definition vc_identity ::
  "verified_container_manifest \<Rightarrow> runtime_slot \<Rightarrow> u64 option \<Rightarrow>
   (runtime_manifest_error, runtime_identity) result" where
  "vc_identity v slot session_generation =
     and_then (ok_or InvalidSlots (vc_selected v slot)) (\<lambda>selected.
       let identity = \<lparr>ri_slot = slot, ri_runtime_version = ra_runtime_version selected,
             ri_runtime_contract_version = ra_contract_version selected,
             ri_container_version = cm_container_version (vc_manifest v),
             ri_session_generation = session_generation\<rparr>
       in and_then (runtime_identity_validate identity) (\<lambda>_. Ok identity))"

definition vc_stable_release_set_sha256 :: "verified_container_manifest \<Rightarrow> string option" where
  "vc_stable_release_set_sha256 v = cm_stable_release_set_sha256 (vc_manifest v)"

definition vc_stable_platform_manifest_sha256 :: "verified_container_manifest \<Rightarrow> string option" where
  "vc_stable_platform_manifest_sha256 v = cm_stable_platform_manifest_sha256 (vc_manifest v)"

definition vr_artifact ::
  "verified_runtime_release_set_manifest \<Rightarrow> string \<Rightarrow> string \<Rightarrow> runtime_release_artifact_v1 option" where
  "vr_artifact v platform architecture =
     List.find (\<lambda>a. rr_platform a = platform \<and> rr_architecture a = architecture)
       (rm_artifacts (vr_manifest v))"


section \<open>Paths\<close>

text \<open>A path that stays below the directory it is joined to, on every supported platform.\<close>

definition safe_segment :: "string \<Rightarrow> bool" where
  "safe_segment s \<longleftrightarrow>
     s \<noteq> [] \<and> s \<noteq> ''.'' \<and> s \<noteq> ''..'' \<and> CHR 0x5C \<notin> set s \<and> CHR '':'' \<notin> set s \<and> CHR ''/'' \<notin> set s"

definition safe_path :: "string \<Rightarrow> bool" where
  "safe_path p \<longleftrightarrow>
     p \<noteq> [] \<and> length p \<le> 1024 \<and> \<not> any_control p \<and> list_all safe_segment (split_on (CHR ''/'') p)"

lemma collect_results_Ok_all:
  "collect_results f xs = Ok ys \<Longrightarrow> x \<in> set xs \<Longrightarrow> \<exists>y. f x = Ok y"
  by (auto simp: collect_results_Inr_iff list_all2_conv_all_nth in_set_conv_nth)

lemma segment_alias_Ok: "segment_alias api segment = Ok a \<Longrightarrow> \<not> forbidden_segment segment"
  by (auto simp: segment_alias_def split: if_splits)

lemma portable_path_alias_safe:
  assumes "portable_path_alias api p = Ok a"
  shows "safe_path p"
proof -
  from assms obtain as where guard: "p \<noteq> []" "length p \<le> 1024" "CHR 0x5C \<notin> set p" "\<not> any_control p"
    and segs: "collect_results (segment_alias api) (split_on (CHR ''/'') p) = Ok as"
    by (auto simp: portable_path_alias_def MAX_STRING_BYTES_def split: if_splits)
  have "safe_segment s" if s: "s \<in> set (split_on (CHR ''/'') p)" for s
  proof -
    from segs s have "\<not> forbidden_segment s"
      using collect_results_Ok_all segment_alias_Ok by metis
    moreover have "CHR ''/'' \<notin> set s" "set s \<subseteq> set p"
      using s split_on_parts split_on_subset by auto
    ultimately show ?thesis
      using guard by (auto simp: safe_segment_def forbidden_segment_def list_ex_iff)
  qed
  with guard show ?thesis by (simp add: safe_path_def list_all_iff)
qed

lemma validate_asset_name_Ok:
  "validate_asset_name api v = Ok () \<Longrightarrow> safe_path v \<and> CHR ''/'' \<notin> set v"
  by (auto simp: validate_asset_name_def dest: portable_path_alias_safe split: if_splits)

section \<open>Artifacts and slots\<close>

definition artifact_sound ::
  "manifest_api \<Rightarrow> string \<Rightarrow> string \<Rightarrow> runtime_artifact_manifest_v1 \<Rightarrow> bool" where
  "artifact_sound api platform architecture m \<longleftrightarrow>
     ra_format_version m = 1 \<and> ra_contract_version m = 1
     \<and> ra_platform m = platform \<and> ra_architecture m = architecture
     \<and> validate_runtime_version (ra_runtime_version m) = Ok ()
     \<and> ra_files m \<noteq> [] \<and> length (ra_files m) \<le> 4096
     \<and> list_all (\<lambda>f. safe_path (rf_path f) \<and> valid_sha256 (rf_sha256 f)) (ra_files m)
     \<and> distinct (map (\<lambda>f. portable_path_alias api (rf_path f)) (ra_files m))"

lemma validate_files_Ok:
  "validate_files api seen files = Ok () \<Longrightarrow>
   list_all (\<lambda>f. safe_path (rf_path f) \<and> valid_sha256 (rf_sha256 f)) files
   \<and> distinct (map (\<lambda>f. portable_path_alias api (rf_path f)) files)
   \<and> (\<forall>f \<in> set files. portable_path_alias api (rf_path f) \<notin> Ok ` set seen)"
proof (induction files arbitrary: seen)
  case Nil
  then show ?case by simp
next
  case (Cons f files)
  from Cons.prems obtain a where a: "portable_path_alias api (rf_path f) = Ok a" "a \<notin> set seen"
    and sha: "valid_sha256 (rf_sha256 f)" and rest: "validate_files api (a # seen) files = Ok ()"
    by (auto split: if_splits)
  from Cons.IH [OF rest] a sha show ?case
    using portable_path_alias_safe [OF a(1)] by auto
qed

lemma validate_artifact_sound:
  "validate_artifact api m platform architecture = Ok () \<Longrightarrow>
   artifact_sound api platform architecture m"
  by (auto simp: validate_artifact_def artifact_sound_def FORMAT_VERSION_V1_def
      COMPILED_RUNTIME_CONTRACT_VERSION_def MAX_RUNTIME_FILES_def dest: validate_files_Ok)

lemma validate_slots_artifacts:
  "validate_slots api platform architecture i l s slots = Ok r \<Longrightarrow>
   \<forall>x \<in> set slots. artifact_sound api platform architecture (rs_manifest x)"
  by (induction slots arbitrary: i l s)
    (auto split: runtime_slot.splits if_splits dest: validate_artifact_sound)

text \<open>What an index found by the loop points at.\<close>

definition found_at ::
  "runtime_slot \<Rightarrow> nat \<Rightarrow> runtime_slot_manifest_v1 list \<Rightarrow> nat option \<Rightarrow> nat option \<Rightarrow> bool" where
  "found_at slot i slots before after \<longleftrightarrow>
     (case before of
        Some k \<Rightarrow> after = Some k \<and> slot \<notin> rs_slot ` set slots
      | None \<Rightarrow>
          (case after of
             None \<Rightarrow> slot \<notin> rs_slot ` set slots
           | Some k \<Rightarrow>
               i \<le> k \<and> k < i + length slots \<and> rs_slot (slots ! (k - i)) = slot
               \<and> (\<forall>j < length slots. j \<noteq> k - i \<longrightarrow> rs_slot (slots ! j) \<noteq> slot)))"

lemma found_at_skip:
  assumes "found_at slot (Suc i) slots before after" "rs_slot x \<noteq> slot"
  shows "found_at slot i (x # slots) before after"
proof (cases before)
  case None
  show ?thesis
  proof (cases after)
    case None
    with assms \<open>before = None\<close> show ?thesis by (auto simp: found_at_def)
  next
    case (Some k)
    with assms \<open>before = None\<close>
    have k: "Suc i \<le> k" "k < Suc i + length slots" "rs_slot (slots ! (k - Suc i)) = slot"
      and others: "\<forall>j < length slots. j \<noteq> k - Suc i \<longrightarrow> rs_slot (slots ! j) \<noteq> slot"
      by (auto simp: found_at_def)
    have "rs_slot ((x # slots) ! j) \<noteq> slot" if "j < Suc (length slots)" "j \<noteq> k - i" for j
      using that others assms(2) k(1) by (cases j) auto
    moreover have "k - i = Suc (k - Suc i)" using k(1) by simp
    ultimately show ?thesis
      using k Some \<open>before = None\<close> by (simp add: found_at_def)
  qed
next
  case (Some k)
  with assms show ?thesis by (auto simp: found_at_def)
qed

lemma found_at_hit:
  assumes "found_at slot (Suc i) slots (Some i) after" "rs_slot x = slot"
  shows "found_at slot i (x # slots) None after"
proof -
  have "rs_slot y \<noteq> slot" if "y \<in> set slots" for y
    using that assms(1) by (auto simp: found_at_def)
  then have "rs_slot ((x # slots) ! j) \<noteq> slot" if "j < Suc (length slots)" "j \<noteq> 0" for j
    using that by (cases j) auto
  then show ?thesis using assms by (simp add: found_at_def)
qed

lemma validate_slots_found:
  "validate_slots api platform architecture i l s slots = Ok (l', s') \<Longrightarrow>
   found_at Latest i slots l l' \<and> found_at Stable i slots s s'"
proof (induction slots arbitrary: i l s)
  case Nil
  then show ?case by (auto simp: found_at_def split: option.splits)
next
  case (Cons x slots)
  show ?case
  proof (cases "rs_slot x")
    case Latest
    with Cons.prems have l: "l = None"
      and "validate_slots api platform architecture (Suc i) (Some i) s slots = Ok (l', s')"
      by (auto split: if_splits)
    with Cons.IH Latest show ?thesis
      using found_at_hit [of Latest i slots l' x] found_at_skip [of Stable i slots s s' x] by auto
  next
    case Stable
    with Cons.prems have s: "s = None"
      and "validate_slots api platform architecture (Suc i) l (Some i) slots = Ok (l', s')"
      by (auto split: if_splits)
    with Cons.IH Stable show ?thesis
      using found_at_hit [of Stable i slots s' x] found_at_skip [of Latest i slots l l' x] by auto
  qed
qed


section \<open>Containers\<close>

definition container_sound ::
  "manifest_api \<Rightarrow> string \<Rightarrow> string \<Rightarrow> verified_container_manifest \<Rightarrow> bool" where
  "container_sound api platform architecture v \<longleftrightarrow>
     (let slots = cm_slots (vc_manifest v) in
      list_all (\<lambda>s. artifact_sound api platform architecture (rs_manifest s)) slots
      \<and> validate_runtime_version (cm_container_version (vc_manifest v)) = Ok ()
      \<and> vc_latest_index v < length slots \<and> rs_slot (slots ! vc_latest_index v) = Latest
      \<and> (\<forall>i < length slots. i \<noteq> vc_latest_index v \<longrightarrow> rs_slot (slots ! i) = Stable)
      \<and> (case vc_stable_index v of
           None \<Rightarrow> cm_stable_release_set_sha256 (vc_manifest v) = None
                   \<and> cm_stable_platform_manifest_sha256 (vc_manifest v) = None
         | Some i \<Rightarrow>
             i < length slots \<and> rs_slot (slots ! i) = Stable
             \<and> slot_version (vc_manifest v) i \<noteq> slot_version (vc_manifest v) (vc_latest_index v)
             \<and> (\<exists>r p. cm_stable_release_set_sha256 (vc_manifest v) = Some r \<and> valid_sha256 r
                  \<and> cm_stable_platform_manifest_sha256 (vc_manifest v) = Some p \<and> valid_sha256 p)))"

lemma found_at_top:
  "found_at slot 0 slots None (Some k) \<Longrightarrow>
   k < length slots \<and> rs_slot (slots ! k) = slot
   \<and> (\<forall>j < length slots. j \<noteq> k \<longrightarrow> rs_slot (slots ! j) \<noteq> slot)"
  by (simp add: found_at_def)

lemma not_Latest_iff: "x \<noteq> Latest \<longleftrightarrow> x = Stable"
  by (cases x) simp_all

lemma validate_container_sound:
  assumes "validate_container api m platform architecture = Ok v"
  shows "vc_manifest v = m \<and> container_sound api platform architecture v"
proof -
  from assms obtain l st where ver: "validate_runtime_version (cm_container_version m) = Ok ()"
    and slots: "validate_slots api platform architecture 0 None None (cm_slots m) = Ok (Some l, st)"
    and digests: "stable_digests_ok (vc_stable_index v) (cm_stable_release_set_sha256 m)
                    (cm_stable_platform_manifest_sha256 m)"
    and v: "vc_manifest v = m" "vc_latest_index v = l"
      "vc_stable_index v = (case st of None \<Rightarrow> None
         | Some i \<Rightarrow> if slot_version m i \<noteq> slot_version m l then Some i else None)"
    by (auto simp: validate_container_def Let_def split: if_splits)
  have latest: "found_at Latest 0 (cm_slots m) None (Some l)"
    and stable: "found_at Stable 0 (cm_slots m) None st"
    using validate_slots_found [OF slots] by auto
  have arts: "\<forall>x \<in> set (cm_slots m). artifact_sound api platform architecture (rs_manifest x)"
    using validate_slots_artifacts [OF slots] .
  have others: "\<forall>i < length (cm_slots m). i \<noteq> l \<longrightarrow> rs_slot (cm_slots m ! i) = Stable"
    using found_at_top [OF latest] by (simp add: not_Latest_iff)
  have "case vc_stable_index v of
           None \<Rightarrow> cm_stable_release_set_sha256 m = None \<and> cm_stable_platform_manifest_sha256 m = None
         | Some i \<Rightarrow>
             i < length (cm_slots m) \<and> rs_slot (cm_slots m ! i) = Stable
             \<and> slot_version m i \<noteq> slot_version m l
             \<and> (\<exists>r p. cm_stable_release_set_sha256 m = Some r \<and> valid_sha256 r
                  \<and> cm_stable_platform_manifest_sha256 m = Some p \<and> valid_sha256 p)"
    using digests v stable found_at_top
    by (auto simp: stable_digests_ok_def split: option.splits if_splits)
  then show ?thesis
    using found_at_top [OF latest] others arts ver v(1,2)
    by (simp add: container_sound_def Let_def list_all_iff split: option.splits)
qed

lemma container_selected_sound:
  assumes "container_sound api platform architecture v" "vc_selected v slot = Some m"
  shows "artifact_sound api platform architecture m"
  using assms
  by (cases slot) (auto simp: container_sound_def vc_latest_def vc_stable_def Let_def list_all_length
      split: option.splits)

lemma runtime_identity_of_sound:
  assumes "artifact_sound api platform architecture m"
    and "validate_runtime_version cv = Ok ()"
    and "\<And>g. gen = Some g \<Longrightarrow> g \<noteq> 0 \<and> uint g \<le> i64_max"
  shows "runtime_identity_validate \<lparr>ri_slot = slot, ri_runtime_version = ra_runtime_version m,
     ri_runtime_contract_version = ra_contract_version m, ri_container_version = cv,
     ri_session_generation = gen\<rparr> = Ok ()"
  using assms by (auto simp: runtime_identity_validate_def artifact_sound_def split: option.splits)

section \<open>Versions\<close>

text \<open>The grammar of the doc comment of \<^verbatim>\<open>validate_runtime_version\<close>: three decimal numbers, then at
  most one suffix that starts with \<^verbatim>\<open>-\<close> or \<^verbatim>\<open>+\<close>.\<close>

definition version_grammar :: "string \<Rightarrow> bool" where
  "version_grammar v \<longleftrightarrow>
     (\<exists>a b c. version_component a \<and> version_component b \<and> version_component c
        \<and> (v = a @ ''.'' @ b @ ''.'' @ c
           \<or> (\<exists>sep s. (sep = CHR ''-'' \<or> sep = CHR ''+'') \<and> version_suffix s
                \<and> v = a @ ''.'' @ b @ ''.'' @ c @ sep # s)))"

lemma split_version_spec:
  "split_version v = (core, suff) \<longleftrightarrow>
   CHR ''-'' \<notin> set core \<and> CHR ''+'' \<notin> set core
   \<and> (case suff of None \<Rightarrow> v = core
      | Some s \<Rightarrow> \<exists>sep. (sep = CHR ''-'' \<or> sep = CHR ''+'') \<and> v = core @ sep # s)"
proof (induction v arbitrary: core)
  case Nil
  then show ?case by (auto split: option.splits)
next
  case (Cons c v)
  show ?case
  proof (cases "c = CHR ''-'' \<or> c = CHR ''+''")
    case True
    then show ?thesis by (cases core) (auto split: option.splits)
  next
    case False
    obtain k t where kt: "split_version v = (k, t)" by fastforce
    show ?thesis
    proof (cases core)
      case Nil
      with False kt show ?thesis by (auto split: option.splits)
    next
      case core: (Cons d core')
      from False kt have "split_version (c # v) = (core, suff) \<longleftrightarrow> c = d \<and> split_version v = (core', suff)"
        by (auto simp: core)
      with Cons.IH [of core'] False show ?thesis by (auto simp: core split: option.splits)
    qed
  qed
qed

lemma version_component_chars:
  "version_component s \<Longrightarrow> CHR ''.'' \<notin> set s \<and> CHR ''-'' \<notin> set s \<and> CHR ''+'' \<notin> set s"
  by (auto simp: version_component_def list_all_iff is_ascii_digit_def)

lemma three_components:
  "length (split_on (CHR ''.'') core) = 3 \<and> list_all version_component (split_on (CHR ''.'') core) \<longleftrightarrow>
   (\<exists>a b c. version_component a \<and> version_component b \<and> version_component c
      \<and> core = a @ ''.'' @ b @ ''.'' @ c)" (is "?L \<longleftrightarrow> ?R")
proof
  assume ?L
  then obtain a b c where abc: "split_on (CHR ''.'') core = [a, b, c]"
    by (auto simp: numeral_eq_Suc length_Suc_conv)
  then have "core = a @ ''.'' @ b @ ''.'' @ c"
    using join_split_on [of "CHR ''.''" core] by simp
  with abc \<open>?L\<close> show ?R by (auto simp del: append_assoc)
next
  assume ?R
  then obtain a b c where abc: "version_component a" "version_component b" "version_component c"
    and core: "core = a @ ''.'' @ b @ ''.'' @ c" by blast
  have "split_on (CHR ''.'') (join ''.'' [a, b, c]) = [a, b, c]"
    using abc by (intro split_on_join) (auto dest: version_component_chars)
  with abc core show ?L by simp
qed

lemma str_is_ascii_append [simp]: "str_is_ascii (s @ t) \<longleftrightarrow> str_is_ascii s \<and> str_is_ascii t"
  by (auto simp: str_is_ascii_def)

lemma version_parts_ascii:
  "version_component s \<Longrightarrow> str_is_ascii s"
  "version_suffix s \<Longrightarrow> str_is_ascii s"
proof -
  have "byte_of c < 128" if "is_ascii_alphanumeric c \<or> c = CHR ''.'' \<or> c = CHR ''-''" for c
    using that by (auto simp: ascii_class_defs)
  then show "version_suffix s \<Longrightarrow> str_is_ascii s"
    by (auto simp: version_suffix_def str_is_ascii_def list_all_iff)
  have "byte_of c < 128" if "is_ascii_digit c" for c
    using that by (auto simp: ascii_class_defs)
  then show "version_component s \<Longrightarrow> str_is_ascii s"
    by (auto simp: version_component_def str_is_ascii_def list_all_iff)
qed

lemma str_is_ascii_Cons: "str_is_ascii (c # s) \<longleftrightarrow> byte_of c < 128 \<and> str_is_ascii s"
  by (auto simp: str_is_ascii_def)

lemma version_grammar_ascii: "version_grammar v \<Longrightarrow> v \<noteq> [] \<and> str_is_ascii v"
  by (auto simp: version_grammar_def version_parts_ascii str_is_ascii_Cons)

definition valid_split :: "string \<times> string option \<Rightarrow> bool" where
  "valid_split p \<longleftrightarrow>
     length (split_on (CHR ''.'') (fst p)) = 3
     \<and> list_all version_component (split_on (CHR ''.'') (fst p))
     \<and> (case snd p of None \<Rightarrow> True | Some s \<Rightarrow> version_suffix s)"

lemma valid_split_grammar: "valid_split (split_version v) \<Longrightarrow> version_grammar v"
proof -
  assume valid: "valid_split (split_version v)"
  obtain core suff where split: "split_version v = (core, suff)" by fastforce
  with valid obtain a b c where abc: "version_component a" "version_component b" "version_component c"
    and core: "core = a @ ''.'' @ b @ ''.'' @ c"
    using three_components [of core] by (auto simp: valid_split_def)
  show ?thesis
  proof (cases suff)
    case None
    with split have "v = core" by (simp add: split_version_spec)
    with abc core show ?thesis unfolding version_grammar_def by blast
  next
    case (Some s)
    with split obtain sep where "sep = CHR ''-'' \<or> sep = CHR ''+''" "v = core @ sep # s"
      by (auto simp: split_version_spec)
    moreover have "version_suffix s" using valid split Some by (simp add: valid_split_def)
    ultimately show ?thesis
      using abc core unfolding version_grammar_def by (metis append_assoc)
  qed
qed

lemma grammar_valid_split:
  assumes "version_grammar v"
  shows "valid_split (split_version v)"
proof -
  from assms obtain a b c where abc: "version_component a" "version_component b" "version_component c"
    and v: "v = a @ ''.'' @ b @ ''.'' @ c
      \<or> (\<exists>sep s. (sep = CHR ''-'' \<or> sep = CHR ''+'') \<and> version_suffix s
                \<and> v = a @ ''.'' @ b @ ''.'' @ c @ sep # s)"
    unfolding version_grammar_def by blast
  let ?core = "a @ ''.'' @ b @ ''.'' @ c"
  have core: "CHR ''-'' \<notin> set ?core \<and> CHR ''+'' \<notin> set ?core"
    using abc [THEN version_component_chars] by auto
  have three: "length (split_on (CHR ''.'') ?core) = 3 \<and> list_all version_component (split_on (CHR ''.'') ?core)"
    using three_components [of ?core] abc by blast
  from v consider "v = ?core"
    | sep s where "sep = CHR ''-'' \<or> sep = CHR ''+''" "version_suffix s" "v = ?core @ sep # s"
    by auto
  then show ?thesis
  proof cases
    case 1
    with core have "split_version v = (?core, None)" by (simp add: split_version_spec)
    with three show ?thesis by (simp add: valid_split_def)
  next
    case 2
    with core have "split_version v = (?core, Some s)" by (auto simp: split_version_spec)
    with three 2 show ?thesis by (simp add: valid_split_def)
  qed
qed

lemma validate_runtime_version_iff:
  "validate_runtime_version v = Ok () \<longleftrightarrow> length v \<le> 64 \<and> version_grammar v"
proof -
  have "validate_runtime_version v = Ok () \<longleftrightarrow>
      v \<noteq> [] \<and> length v \<le> 64 \<and> str_is_ascii v \<and> valid_split (split_version v)"
    by (auto simp: validate_runtime_version_def MAX_RUNTIME_VERSION_BYTES_def valid_split_def Let_def
        split: prod.splits)
  then show ?thesis
    using version_grammar_ascii valid_split_grammar grammar_valid_split by blast
qed

section \<open>Release sets\<close>

lemma validate_release_artifacts_Ok:
  "validate_release_artifacts api actual as = Ok r \<Longrightarrow>
   distinct (map (\<lambda>a. (rr_platform a, rr_architecture a)) as)
   \<and> set r = set actual \<union> (\<lambda>a. (rr_platform a, rr_architecture a)) ` set as
   \<and> (\<forall>a \<in> set as. (rr_platform a, rr_architecture a) \<notin> set actual)
   \<and> list_all (\<lambda>a. list_all (\<lambda>n. safe_path n \<and> CHR ''/'' \<notin> set n)
                       [rr_archive_name a, rr_manifest_name a, rr_signature_name a]
                   \<and> list_all valid_sha256
                       [rr_archive_sha256 a, rr_manifest_sha256 a, rr_signature_sha256 a]) as"
proof (induction as arbitrary: actual)
  case Nil
  then show ?case by simp
next
  case (Cons a as)
  from Cons.prems have rest: "validate_release_artifacts api ((rr_platform a, rr_architecture a) # actual) as = Ok r"
    and new: "(rr_platform a, rr_architecture a) \<notin> set actual"
    and names: "validate_asset_name api (rr_archive_name a) = Ok ()"
      "validate_asset_name api (rr_manifest_name a) = Ok ()"
      "validate_asset_name api (rr_signature_name a) = Ok ()"
    and shas: "list_all valid_sha256 [rr_archive_sha256 a, rr_manifest_sha256 a, rr_signature_sha256 a]"
    by auto
  from Cons.IH [OF rest] new shas names [THEN validate_asset_name_Ok] show ?case
    by auto
qed

lemma find_unique_key:
  "a \<in> set as \<Longrightarrow> distinct (map (\<lambda>a. (rr_platform a, rr_architecture a)) as) \<Longrightarrow>
   List.find (\<lambda>b. rr_platform b = rr_platform a \<and> rr_architecture b = rr_architecture a) as = Some a"
  by (induction as) (auto simp: image_iff)

section \<open>Canonical bytes\<close>

lemma parse_canonical_Ok:
  "parse_canonical api from_slice to_value bs = Ok v \<Longrightarrow>
   from_slice bs = Some v \<and> (\<exists>j. to_value v = Some j \<and> bs = canonical_json api j)"
  by (auto simp: parse_canonical_def split: if_splits)

lemma parse_canonical_unique:
  "parse_canonical api from_slice to_value bs = Ok v \<Longrightarrow>
   parse_canonical api from_slice to_value bs' = Ok v \<Longrightarrow> bs = bs'"
  by (auto dest!: parse_canonical_Ok)

lemma verify_signature_first_Ok:
  "verify_signature_first api bs signature public_key domain = Ok u \<Longrightarrow>
   length bs \<le> 1024 * 1024 \<and> verify_strict api public_key (domain @ bs) signature"
  by (auto simp: verify_signature_first_def signed_message_def MAX_MANIFEST_BYTES_def split: if_splits)

lemma verify_signature_first_Err:
  "verify_signature_first api bs signature public_key domain = Err e \<Longrightarrow>
   e = InputTooLarge \<or> e = InvalidSignature"
  by (auto simp: verify_signature_first_def split: if_splits)


section \<open>Properties\<close>

text \<open>A container with one slot and one file, for the witnesses, and a release set for Android.\<close>

definition sample_manifest_api :: manifest_api where
  "sample_manifest_api =
     \<lparr>verifying_key_ok = (\<lambda>k. True), signature_ok = (\<lambda>s. length s = 64),
      verify_strict = (\<lambda>k m s. take 32 s = k \<and> hd (drop 32 s) = hd m),
      sha256_digest = (\<lambda>bs. replicate 32 (of_nat (length bs))),
      json_string_text = (\<lambda>s. [CHR 0x22] @ s @ [CHR 0x22]), nfkc_case_fold = to_ascii_lowercase\<rparr>"

definition sample_file :: runtime_file_v1 where
  "sample_file = \<lparr>rf_path = ''bin/engine'', rf_size_bytes = 7,
     rf_sha256 = replicate 64 (CHR ''0''), rf_role = Executable\<rparr>"

definition sample_artifact :: runtime_artifact_manifest_v1 where
  "sample_artifact = \<lparr>ra_format_version = 1, ra_runtime_version = ''1.2.3-a'',
     ra_source_commit = replicate 40 (CHR ''0''), ra_platform = ''linux'',
     ra_architecture = ''x86_64'', ra_contract_version = 1, ra_files = [sample_file]\<rparr>"

definition sample_container :: container_manifest_v1 where
  "sample_container = \<lparr>cm_format_version = 1, cm_container_version = ''2.0.0'',
     cm_release_set_id = ''r'', cm_minimum_runtime_contract = 1, cm_maximum_runtime_contract = 1,
     cm_stable_release_set_sha256 = None, cm_stable_platform_manifest_sha256 = None,
     cm_slots = [\<lparr>rs_slot = Latest, rs_manifest = sample_artifact\<rparr>]\<rparr>"

definition sample_container_value :: "container_manifest_v1 \<Rightarrow> json option" where
  "sample_container_value m = Some (JObject [(''release_set_id'', JString (cm_release_set_id m)),
     (''container_version'', JString (cm_container_version m))])"

definition sample_bytes :: bytes where
  "sample_bytes = canonical_json sample_manifest_api (the (sample_container_value sample_container))"

definition sample_from_slice :: "bytes \<Rightarrow> container_manifest_v1 option" where
  "sample_from_slice bs =
     (if take (length sample_bytes) bs = sample_bytes then Some sample_container else None)"

definition sample_key :: bytes where "sample_key = replicate 32 (CHR ''k'')"

definition sample_signature :: bytes where
  "sample_signature = replicate 32 (CHR ''k'') @ replicate 32 (CHR ''n'')"

lemma list_all_replicate: "list_all P (replicate n x) \<longleftrightarrow> n = 0 \<or> P x"
  by (induction n) auto

lemma sample_artifact_valid:
  "validate_artifact sample_manifest_api sample_artifact ''linux'' ''x86_64'' = Ok ()"
  by (simp add: validate_artifact_def sample_artifact_def sample_file_def sample_manifest_api_def
      FORMAT_VERSION_V1_def COMPILED_RUNTIME_CONTRACT_VERSION_def MAX_RUNTIME_FILES_def
      validate_runtime_version_def MAX_RUNTIME_VERSION_BYTES_def str_is_ascii_def
      version_component_def version_suffix_def validate_source_commit_def validate_text_def
      MAX_STRING_BYTES_def lower_hex_def ascii_class_defs portable_path_alias_def
      starts_with_char_def segment_alias_def forbidden_segment_def reserved_alias_def Let_def
      to_ascii_lowercase_def ascii_lower_def valid_sha256_def list_all_replicate)

lemma sample_verifies:
  "verify_container_manifest sample_manifest_api sample_from_slice sample_container_value
     sample_bytes sample_signature sample_key ''linux'' ''x86_64''
   = Ok \<lparr>vc_manifest = sample_container, vc_latest_index = 0, vc_stable_index = None\<rparr>"
proof -
  have sig: "verify_signature_first sample_manifest_api sample_bytes sample_signature sample_key
      CONTAINER_MANIFEST_SIGNATURE_DOMAIN = Ok ()"
    by (simp add: verify_signature_first_def sample_manifest_api_def sample_signature_def
        sample_key_def CONTAINER_MANIFEST_SIGNATURE_DOMAIN_def signed_message_def
        MAX_MANIFEST_BYTES_def sample_bytes_def sample_container_value_def sample_container_def
        sort_by_key_def)
  have parse: "parse_canonical sample_manifest_api sample_from_slice sample_container_value
      sample_bytes = Ok sample_container"
    by (simp add: parse_canonical_def sample_from_slice_def sample_container_value_def
        sample_bytes_def)
  have "validate_container sample_manifest_api sample_container ''linux'' ''x86_64''
      = Ok \<lparr>vc_manifest = sample_container, vc_latest_index = 0, vc_stable_index = None\<rparr>"
    using sample_artifact_valid
    by (simp add: validate_container_def sample_container_def FORMAT_VERSION_V1_def
        COMPILED_RUNTIME_CONTRACT_VERSION_def validate_runtime_version_def version_component_def
        MAX_RUNTIME_VERSION_BYTES_def str_is_ascii_def ascii_class_defs validate_text_def
        MAX_STRING_BYTES_def stable_digests_ok_def)
  with sig parse show ?thesis by (simp add: verify_container_manifest_def)
qed

text \<open>C16: A container manifest that verifies was signed for the container domain with the given
  key, is at most one MiB, and is what the deserializer reads; every slot of it is an artifact for
  the requested platform and architecture with contract version 1, whose file paths stay below the
  directory they are joined to, do not collide after case folding, and carry well-formed digests;
  exactly one slot is \<^verbatim>\<open>latest\<close>, and a selectable \<^verbatim>\<open>stable\<close> has another version and both digests.\<close>

theorem container_manifest_sound:
  assumes "verify_container_manifest api from_slice to_value bs signature public_key platform
             architecture = Ok v"
  shows "verify_strict api public_key (CONTAINER_MANIFEST_SIGNATURE_DOMAIN @ bs) signature
    \<and> length bs \<le> 1024 * 1024 \<and> from_slice bs = Some (vc_manifest v)
    \<and> container_sound api platform architecture v"
proof -
  from assms obtain m where
    sig: "verify_signature_first api bs signature public_key CONTAINER_MANIFEST_SIGNATURE_DOMAIN = Ok ()"
    and parse: "parse_canonical api from_slice to_value bs = Ok m"
    and valid: "validate_container api m platform architecture = Ok v"
    by (auto simp: verify_container_manifest_def)
  show ?thesis
    using verify_signature_first_Ok [OF sig] parse_canonical_Ok [OF parse]
      validate_container_sound [OF valid] by simp
qed

theorem container_manifest_sound_witness:
  "container_sound sample_manifest_api ''linux'' ''x86_64''
     \<lparr>vc_manifest = sample_container, vc_latest_index = 0, vc_stable_index = None\<rparr>"
  using container_manifest_sound [OF sample_verifies] by simp

text \<open>C17: The bytes of a verified container manifest are determined by its content: two byte
  strings that verify to the same manifest are equal, so the digest of the bytes identifies it.\<close>

theorem container_manifest_bytes_unique:
  assumes "verify_container_manifest api from_slice to_value bs s k platform architecture = Ok v"
    and "verify_container_manifest api from_slice to_value bs' s' k' platform' architecture' = Ok v'"
    and "vc_manifest v = vc_manifest v'"
  shows "bs = bs'"
proof -
  have "parse_canonical api from_slice to_value bs = Ok (vc_manifest v)"
    "parse_canonical api from_slice to_value bs' = Ok (vc_manifest v')"
    using assms by (auto simp: verify_container_manifest_def dest: validate_container_sound)
  with assms(3) show ?thesis using parse_canonical_unique by metis
qed

theorem container_manifest_bytes_unique_witness:
  "sample_from_slice (sample_bytes @ '' '') = Some sample_container
   \<and> verify_container_manifest sample_manifest_api sample_from_slice sample_container_value
       (sample_bytes @ '' '') sample_signature sample_key ''linux'' ''x86_64''
     \<noteq> Ok \<lparr>vc_manifest = sample_container, vc_latest_index = 0, vc_stable_index = None\<rparr>"
proof -
  have False
    if "verify_container_manifest sample_manifest_api sample_from_slice sample_container_value
       (sample_bytes @ '' '') sample_signature sample_key ''linux'' ''x86_64''
     = Ok \<lparr>vc_manifest = sample_container, vc_latest_index = 0, vc_stable_index = None\<rparr>"
    using container_manifest_bytes_unique [OF sample_verifies that] by simp
  then show ?thesis by (auto simp: sample_from_slice_def)
qed

text \<open>C18: A signature that does not verify is reported before anything of the manifest is looked
  at: the answer of each of the three verifiers is the answer of the signature check, for every
  deserializer, target and expected digest.\<close>

theorem signature_checked_first:
  assumes "verify_signature_first api bs signature public_key domain = Err e"
  shows "(e = InputTooLarge \<or> e = InvalidSignature)
    \<and> (domain = CONTAINER_MANIFEST_SIGNATURE_DOMAIN \<longrightarrow>
         verify_container_manifest api f1 t1 bs signature public_key platform architecture = Err e)
    \<and> (domain = RUNTIME_MANIFEST_SIGNATURE_DOMAIN \<longrightarrow>
         verify_runtime_artifact_manifest api f2 t2 bs signature public_key platform architecture = Err e)
    \<and> (domain = RUNTIME_RELEASE_SET_SIGNATURE_DOMAIN \<longrightarrow>
         verify_runtime_release_set_manifest api f3 t3 bs signature public_key expected = Err e)"
  using assms verify_signature_first_Err [OF assms]
  by (auto simp: verify_container_manifest_def verify_runtime_artifact_manifest_def
      verify_runtime_release_set_manifest_def)

theorem signature_checked_first_witness:
  "verify_container_manifest sample_manifest_api sample_from_slice sample_container_value
     sample_bytes [] sample_key ''linux'' ''x86_64'' = Err InvalidSignature"
proof -
  have "verify_signature_first sample_manifest_api sample_bytes [] sample_key
      CONTAINER_MANIFEST_SIGNATURE_DOMAIN = Err InvalidSignature"
    by (simp add: verify_signature_first_def sample_manifest_api_def sample_bytes_def
        sample_container_value_def sample_container_def MAX_MANIFEST_BYTES_def sort_by_key_def)
  from signature_checked_first [OF this] show ?thesis by blast
qed

text \<open>C19: An identity can be built for the latest slot of every verified container, and for the
  stable slot exactly when a distinct stable runtime is selectable, whatever positive session
  generation (or none) is passed; the identity names the selected runtime and passes its own
  validation.\<close>

theorem verified_container_identity:
  assumes "verify_container_manifest api from_slice to_value bs signature public_key platform
             architecture = Ok v"
    and "\<And>g. generation = Some g \<Longrightarrow> g \<noteq> 0 \<and> uint g \<le> i64_max"
  shows "(case vc_selected v slot of
      None \<Rightarrow> slot = Stable \<and> vc_identity v slot generation = Err InvalidSlots
    | Some m \<Rightarrow> \<exists>i. vc_identity v slot generation = Ok i \<and> runtime_identity_validate i = Ok ()
        \<and> ri_slot i = slot \<and> ri_runtime_version i = ra_runtime_version m
        \<and> ri_container_version i = cm_container_version (vc_manifest v)
        \<and> ri_session_generation i = generation)"
proof (cases "vc_selected v slot")
  case None
  then show ?thesis by (cases slot) (simp_all add: vc_identity_def)
next
  case (Some m)
  have sound: "container_sound api platform architecture v"
    using assms(1) by (auto simp: verify_container_manifest_def dest: validate_container_sound)
  have "validate_runtime_version (cm_container_version (vc_manifest v)) = Ok ()"
    using sound by (simp add: container_sound_def Let_def)
  note runtime_identity_of_sound [OF container_selected_sound [OF sound Some] this assms(2)]
  with Some show ?thesis by (auto simp: vc_identity_def Let_def)
qed

theorem verified_container_identity_witness:
  "\<exists>i. vc_identity \<lparr>vc_manifest = sample_container, vc_latest_index = 0, vc_stable_index = None\<rparr>
     Latest (Some 4) = Ok i \<and> ri_runtime_version i = ''1.2.3-a''"
proof -
  have gen: "g \<noteq> 0 \<and> uint g \<le> i64_max" if "Some (4 :: u64) = Some g" for g
    using that by (auto simp: i64_max_def)
  show ?thesis
    using verified_container_identity [OF sample_verifies, of "Some 4" Latest] gen
    by (auto simp: vc_latest_def sample_container_def sample_artifact_def)
qed

text \<open>C20: \<^verbatim>\<open>validate_runtime_version\<close> accepts exactly the versions of its documented grammar, up to
  64 bytes: three decimal numbers and at most one suffix.\<close>

theorem runtime_version_language:
  "validate_runtime_version v = Ok () \<longleftrightarrow> length v \<le> 64 \<and> version_grammar v"
  by (rule validate_runtime_version_iff)


definition sample_release_set :: runtime_release_set_manifest_v1 where
  "sample_release_set = \<lparr>rm_format_version = 1, rm_release_set_id = ''r'',
     rm_runtime_version = ''1.2.3'', rm_source_commit = replicate 40 (CHR ''0''),
     rm_artifacts = [\<lparr>rr_platform = ''android'', rr_architecture = ''aarch64'',
       rr_archive_name = ''a.zip'', rr_archive_sha256 = replicate 64 (CHR ''0''),
       rr_manifest_name = ''a.json'', rr_manifest_sha256 = replicate 64 (CHR ''0''),
       rr_signature_name = ''a.sig'', rr_signature_sha256 = replicate 64 (CHR ''0'')\<rparr>]\<rparr>"

lemma sample_release_set_valid: "validate_release_set sample_manifest_api sample_release_set = Ok ()"
  by (simp add: validate_release_set_def sample_release_set_def sample_manifest_api_def
      FORMAT_VERSION_V1_def validate_runtime_version_def MAX_RUNTIME_VERSION_BYTES_def
      str_is_ascii_def version_component_def validate_source_commit_def validate_text_def
      MAX_STRING_BYTES_def lower_hex_def ascii_class_defs portable_path_alias_def
      starts_with_char_def segment_alias_def forbidden_segment_def reserved_alias_def Let_def
      to_ascii_lowercase_def ascii_lower_def valid_sha256_def list_all_replicate
      validate_asset_name_def expected_targets_def)


end
