(* ===== verification/Frames.thy ===== *)
theory Frames
  imports RuntimeManifest
begin

text \<open>
  The length-prefixed frames and the wire types of \<^verbatim>\<open>crates/contracts/src/dispatcher.rs\<close>: four bytes
  of little-endian length and a JSON body.  What \<^verbatim>\<open>serde_json::to_vec\<close> gives for a value is the
  argument of \<open>encode_frame\<close>.
\<close>

definition blocked :: io_error where
  "blocked = IoOther ''dispatcher_identity_or_state_rejected''"

definition MAX_DISPATCHER_FRAME :: nat where "MAX_DISPATCHER_FRAME = 4096"
definition MAX_ENGINE_FRAME :: nat where "MAX_ENGINE_FRAME = 1024 * 1024"

section \<open>Frames\<close>

definition encode_frame :: "bytes option \<Rightarrow> (io_error, bytes) result" where
  "encode_frame to_vec =
     and_then (ok_or blocked to_vec) (\<lambda>body.
       if length body > MAX_ENGINE_FRAME then Err blocked
       else Ok (u32_to_le_bytes (length body) @ body))"

definition frame_body :: "bytes \<Rightarrow> nat \<Rightarrow> (io_error, bytes) result" where
  "frame_body frame limit =
     (if length frame < 4 \<or> length frame > limit + 4 then Err blocked
      else if from_le_bytes (take 4 frame) + 4 \<noteq> length frame then Err blocked
      else Ok (drop 4 frame))"

definition read_frame :: "nat \<Rightarrow> reader \<Rightarrow> (io_error, bytes) result \<times> reader" where
  "read_frame limit r =
     bind_io (read_exact 4 r) (\<lambda>size r.
       let n = from_le_bytes size in
       if n > limit then (Err blocked, r)
       else bind_io (read_exact n r) (\<lambda>body r. (Ok (size @ body), r)))"

lemma encode_frame_Ok:
  "encode_frame v = Ok f \<longleftrightarrow>
   (\<exists>body. v = Some body \<and> length body \<le> MAX_ENGINE_FRAME \<and> f = u32_to_le_bytes (length body) @ body)"
  by (cases v) (auto simp: encode_frame_def)

lemma frame_body_of_frame:
  "length body \<le> limit \<Longrightarrow> length body < 2 ^ 32 \<Longrightarrow>
   frame_body (u32_to_le_bytes (length body) @ body) limit = Ok body"
  by (simp add: frame_body_def)

lemma read_frame_of_frame:
  assumes "length body \<le> limit" "length body < 2 ^ 32"
  shows "read_frame limit \<lparr>rd_bytes = u32_to_le_bytes (length body) @ body @ rest, rd_failure = f\<rparr>
    = (Ok (u32_to_le_bytes (length body) @ body), \<lparr>rd_bytes = rest, rd_failure = f\<rparr>)"
  using assms by (simp add: read_frame_def read_exact_append)

text \<open>A frame that was read has the length it announces, so \<open>frame_body\<close> takes its body.\<close>

lemma read_frame_Ok:
  assumes "read_frame limit r = (Ok frame, r')"
  shows "rd_bytes r = frame @ rd_bytes r'" "4 \<le> length frame"
    "frame_body frame limit = Ok (drop 4 frame)" "rd_failure r' = rd_failure r"
proof -
  from assms obtain size r1 body where size: "read_exact 4 r = (Ok size, r1)"
    and n: "from_le_bytes size \<le> limit"
    and body: "read_exact (from_le_bytes size) r1 = (Ok body, r')" and f: "frame = size @ body"
    by (auto simp: read_frame_def bind_io_eq_Ok_iff Let_def split: if_splits)
  note s = read_exact_length [OF size] read_exact_length [OF body]
  from s f show "rd_bytes r = frame @ rd_bytes r'" "4 \<le> length frame" "rd_failure r' = rd_failure r"
    by simp_all
  from s f n show "frame_body frame limit = Ok (drop 4 frame)"
    by (simp add: frame_body_def)
qed

lemma read_frame_consumes:
  "read_frame limit r = (Ok frame, r') \<Longrightarrow> length (rd_bytes r') < length (rd_bytes r)"
  using read_frame_Ok(1,2) [of limit r frame r'] by auto

section \<open>Identities and requests\<close>

record engine_identity =
  ei_slot :: runtime_slot
  ei_runtime_version :: string
  ei_runtime_contract_version :: u32
  ei_container_version :: string
  ei_manifest_sha256 :: string

datatype dispatcher_request =
  DStart u32 engine_identity
| DStop u32 engine_identity
| DCleanup u32 engine_identity
| DStatus u32
| DVersion u32

fun is_mutation :: "dispatcher_request \<Rightarrow> bool" where
  "is_mutation (DStart _ _) = True"
| "is_mutation (DStop _ _) = True"
| "is_mutation (DCleanup _ _) = True"
| "is_mutation (DStatus _) = False"
| "is_mutation (DVersion _) = False"

fun request_identity :: "dispatcher_request \<Rightarrow> engine_identity option" where
  "request_identity (DStart _ identity) = Some identity"
| "request_identity (DStop _ identity) = Some identity"
| "request_identity (DCleanup _ identity) = Some identity"
| "request_identity _ = None"

fun request_contract :: "dispatcher_request \<Rightarrow> u32" where
  "request_contract (DStart c _) = c"
| "request_contract (DStop c _) = c"
| "request_contract (DCleanup c _) = c"
| "request_contract (DStatus c) = c"
| "request_contract (DVersion c) = c"

record dispatcher_response =
  dr_contract_version :: u32
  dr_ok :: bool
  dr_identity :: "engine_identity option"
  dr_running :: bool
  dr_error :: "string option"

definition dispatcher_success :: "engine_identity \<Rightarrow> bool \<Rightarrow> dispatcher_response" where
  "dispatcher_success identity running =
     \<lparr>dr_contract_version = 1, dr_ok = True, dr_identity = Some identity, dr_running = running,
      dr_error = None\<rparr>"

definition dispatcher_failure :: dispatcher_response where
  "dispatcher_failure =
     \<lparr>dr_contract_version = 1, dr_ok = False, dr_identity = None, dr_running = False,
      dr_error = Some ''dispatcher_rejected''\<rparr>"

definition decode_dispatcher_request ::
  "(bytes \<Rightarrow> dispatcher_request option) \<Rightarrow> bytes \<Rightarrow> (io_error, dispatcher_request) result" where
  "decode_dispatcher_request from_slice frame =
     and_then (frame_body frame MAX_DISPATCHER_FRAME) (\<lambda>body.
     and_then (ok_or blocked (from_slice body)) (\<lambda>request.
       if request_contract request \<noteq> 1 then Err blocked else Ok request))"

section \<open>The engine binding of the common process\<close>

text \<open>The lock of \<^verbatim>\<open>CommonEngineBinding\<close>: how many readers hold it, or that it is poisoned, and the
  identity it guards.\<close>

record engine_binding =
  eb_identity :: "engine_identity option"
  eb_readers :: nat
  eb_poisoned :: bool

definition bind_engine :: "engine_identity \<Rightarrow> engine_binding \<Rightarrow> (io_error, unit) result \<times> engine_binding" where
  "bind_engine identity b =
     (if eb_readers b > 0 \<or> eb_poisoned b then (Err blocked, b)
      else if eb_identity b \<noteq> None then (Err blocked, b)
      else (Ok (), b\<lparr>eb_identity := Some identity\<rparr>))"

definition with_identity ::
  "bool \<Rightarrow> (engine_identity option \<Rightarrow> (io_error, 'a) result) \<Rightarrow> engine_binding \<Rightarrow> (io_error, 'a) result" where
  "with_identity allow_unbound exchange b =
     (if eb_poisoned b then Err blocked
      else if eb_identity b = None \<and> \<not> allow_unbound then Err blocked
      else exchange (eb_identity b))"

section \<open>Generation names\<close>

definition valid_generation :: "string \<Rightarrow> bool" where
  "valid_generation v \<longleftrightarrow>
     length v > 65 \<and> length v \<le> 96 \<and> v ! 64 = CHR ''-''
     \<and> list_all (\<lambda>(i, c). i = 64 \<or> is_ascii_hexdigit c \<and> \<not> is_ascii_uppercase c) (enumerate 0 v)"

lemma valid_generation_single_segment:
  assumes "valid_generation v"
  shows "safe_segment v"
proof -
  have "c = CHR ''-'' \<or> is_ascii_hexdigit c" if "c \<in> set v" for c
  proof -
    from that obtain i where i: "i < length v" "v ! i = c" by (auto simp: in_set_conv_nth)
    with assms show ?thesis
      by (auto simp: valid_generation_def list_all_length nth_enumerate_eq)
  qed
  then have "c \<notin> {CHR 0x5C, CHR '':'', CHR ''/'', CHR ''.''}" if "c \<in> set v" for c
    using that by (fastforce simp: ascii_class_defs)
  moreover have "v \<noteq> []" using assms by (auto simp: valid_generation_def)
  ultimately show ?thesis by (fastforce simp: safe_segment_def)
qed

end
