(* ===== verification/Tunnel.thy ===== *)
theory Tunnel
  imports Contracts "HOL-Library.Product_Lexorder"
begin

text \<open>
  The tunnel boundary of \<^verbatim>\<open>crates/client-tunnel\<close>: the configuration text and the DNS override
  applied to it, the detection of the transport, the options of a tunnel with their validation,
  and the route plan computed from them.  \<^verbatim>\<open>Ipv4Net\<close> of the crate \<^verbatim>\<open>ipnet\<close> is a parameter: the
  type \<open>'n\<close> (ordered, as the crate orders it) and the record \<open>ipnet_api\<close> of the functions called.
\<close>

section \<open>The configuration text\<close>

datatype tunnel_transport = WireGuard | AmneziaWg3

datatype tunnel_configuration_error = MissingInterface

text \<open>The state of the loop of \<^verbatim>\<open>override_dns\<close>.\<close>

record dns_override =
  ov_output :: "string list"
  interface_found :: bool
  in_interface :: bool
  dns_inserted :: bool

definition strip_cr :: "string \<Rightarrow> string" where
  "strip_cr l = (case strip_suffix_char cr_char l of Some l' \<Rightarrow> l' | None \<Rightarrow> l)"

definition section_name :: "string \<Rightarrow> string option" where
  "section_name trimmed =
     Option.bind (strip_prefix_char (CHR ''['') trimmed) (strip_suffix_char (CHR '']''))"

definition is_dns_line :: "string \<Rightarrow> bool" where
  "is_dns_line trimmed \<longleftrightarrow>
     (case split_once (CHR ''='') trimmed of
        None \<Rightarrow> False
      | Some (key, _) \<Rightarrow> eq_ignore_ascii_case (trim key) ''DNS'')"

definition override_section :: "string \<Rightarrow> dns_override \<Rightarrow> string \<Rightarrow> dns_override" where
  "override_section dns st trimmed =
     (case section_name trimmed of
        None \<Rightarrow> st
      | Some name \<Rightarrow>
          (let st1 = (if in_interface st \<and> \<not> dns_inserted st
                      then st\<lparr>ov_output := ov_output st @ [dns], dns_inserted := True\<rparr> else st);
               here = eq_ignore_ascii_case name ''Interface''
           in st1\<lparr>in_interface := here, interface_found := interface_found st1 \<or> here\<rparr>))"

definition override_line :: "string \<Rightarrow> dns_override \<Rightarrow> string \<Rightarrow> dns_override" where
  "override_line dns st raw_line =
     (let line = strip_cr raw_line; trimmed = trim line;
          st1 = override_section dns st trimmed
      in if in_interface st1 \<and> is_dns_line trimmed then st1
         else st1\<lparr>ov_output := ov_output st1 @ [line]\<rparr>)"

definition dns_setting :: "ip_addr list \<Rightarrow> string" where
  "dns_setting servers = ''DNS = '' @ join '', '' (map show_ip servers)"

definition override_dns ::
  "string \<Rightarrow> ip_addr list \<Rightarrow> (tunnel_configuration_error, string) result" where
  "override_dns conf servers =
     (if servers = [] then Ok conf
      else
        (let newline = (if contains_str [cr_char, newline_char] conf
                        then [cr_char, newline_char] else [newline_char]);
             trailing_newline = ends_with_char newline_char conf;
             dns = dns_setting servers;
             st = foldl (override_line dns)
                    \<lparr>ov_output = [], interface_found = False, in_interface = False,
                     dns_inserted = False\<rparr> (str_lines conf);
             output = (if in_interface st \<and> \<not> dns_inserted st then ov_output st @ [dns]
                       else ov_output st)
         in if \<not> interface_found st then Err MissingInterface
            else Ok (join newline output @ (if trailing_newline then newline else []))))"

text \<open>The markers of \<^verbatim>\<open>detect_configuration_transport\<close>.\<close>

record transport_scan =
  scan_interface :: bool
  scan_header_protection_key :: bool
  scan_content_padding_addition :: bool

definition detect_line :: "transport_scan \<Rightarrow> string \<Rightarrow> transport_scan" where
  "detect_line st raw_line =
     (let line = trim raw_line in
      if line = [] \<or> starts_with_char (CHR ''#'') line then st
      else if starts_with_char (CHR ''['') line \<and> ends_with_char (CHR '']'') line
        then st\<lparr>scan_interface := eq_ignore_ascii_case line ''[Interface]''\<rparr>
      else if \<not> scan_interface st then st
      else case split_once (CHR ''='') line of
          None \<Rightarrow> st
        | Some (key, value) \<Rightarrow>
            if trim value = [] then st
            else if to_ascii_lowercase (trim key) = ''headerprotectionkey''
              then st\<lparr>scan_header_protection_key := True\<rparr>
            else if to_ascii_lowercase (trim key) = ''contentpaddingaddition''
              then st\<lparr>scan_content_padding_addition := True\<rparr>
            else st)"

definition detect_configuration_transport :: "string \<Rightarrow> tunnel_transport" where
  "detect_configuration_transport conf =
     (let st = foldl detect_line
                 \<lparr>scan_interface = False, scan_header_protection_key = False,
                  scan_content_padding_addition = False\<rparr> (str_lines conf)
      in if scan_header_protection_key st \<and> scan_content_padding_addition st then AmneziaWg3 else WireGuard)"

section \<open>Tunnel options\<close>

record tunnel_options =
  application_mode :: "split_tunnel_mode option"
  package_ids :: "string list"
  to_excluded_ipv4_cidrs :: "string list"
  to_exclude_local_networks :: bool
  to_policy_hash :: "string option"
  dns_servers :: "ip_addr list"
  dns46_dot :: "dns46_dot_capability option"
  dns46_dot_expires_at_unix :: int

definition MAX_PACKAGE_IDS :: nat where "MAX_PACKAGE_IDS = 512"
definition MAX_IPV4_CIDRS :: nat where "MAX_IPV4_CIDRS = 16384"
definition MAX_POLICY_HASH_LENGTH :: nat where "MAX_POLICY_HASH_LENGTH = 128"

definition valid_segment :: "string \<Rightarrow> bool" where
  "valid_segment segment \<longleftrightarrow>
     segment \<noteq> [] \<and> list_all (\<lambda>c. is_ascii_alphanumeric c \<or> c = CHR ''_'') segment"

definition valid_package_id :: "string \<Rightarrow> bool" where
  "valid_package_id value \<longleftrightarrow>
     \<not> (value = [] \<or> length value > 255)
     \<and> (case split_on (CHR ''.'') value of
          first # second # rest \<Rightarrow>
            first \<noteq> [] \<and> is_ascii_alphabetic (hd first)
            \<and> valid_segment first \<and> valid_segment second \<and> list_all valid_segment rest
        | _ \<Rightarrow> False)"

definition valid_ipv4_cidr :: "string \<Rightarrow> bool" where
  "valid_ipv4_cidr value \<longleftrightarrow>
     (case split_once (CHR ''/'') value of
        None \<Rightarrow> False
      | Some (address, prefix_len) \<Rightarrow>
          parse_ipv4 address \<noteq> None
          \<and> (case parse_uint 8 prefix_len of None \<Rightarrow> False | Some n \<Rightarrow> n \<le> 32))"

definition has_same_effective_routes :: "tunnel_options \<Rightarrow> tunnel_options \<Rightarrow> bool" where
  "has_same_effective_routes a b \<longleftrightarrow>
     application_mode a = application_mode b
     \<and> package_ids a = package_ids b
     \<and> to_excluded_ipv4_cidrs a = to_excluded_ipv4_cidrs b
     \<and> to_exclude_local_networks a = to_exclude_local_networks b"

text \<open>\<^verbatim>\<open>TunnelOptionsError\<close> is its stable code.\<close>

type_synonym tunnel_options_error = string

definition tunnel_options_validate :: "tunnel_options \<Rightarrow> (tunnel_options_error, unit) result" where
  "tunnel_options_validate opts =
     (if length (package_ids opts) > MAX_PACKAGE_IDS
      then Err ''split_tunnel_selected_packages_limit''
      else if length (to_excluded_ipv4_cidrs opts) > MAX_IPV4_CIDRS
      then Err ''split_tunnel_cidrs_limit''
      else if application_mode opts = None \<and> package_ids opts \<noteq> []
      then Err ''split_tunnel_application_mode_missing''
      else if list_ex (\<lambda>v. \<not> valid_package_id v) (package_ids opts)
      then Err ''split_tunnel_invalid_package_id''
      else if card (set (package_ids opts)) \<noteq> length (package_ids opts)
      then Err ''split_tunnel_duplicate_package_id''
      else if list_ex (\<lambda>v. \<not> valid_ipv4_cidr v) (to_excluded_ipv4_cidrs opts)
      then Err ''split_tunnel_invalid_ipv4_cidr''
      else Ok ())"

record desktop_tunnel_options =
  excluded_ipv4_cidrs :: "string list"
  exclude_local_networks :: bool
  policy_hash :: "string option"

definition from_tunnel_options :: "tunnel_options \<Rightarrow> desktop_tunnel_options" where
  "from_tunnel_options opts =
     (if to_policy_hash opts = None
      then \<lparr>excluded_ipv4_cidrs = [], exclude_local_networks = to_exclude_local_networks opts,
            policy_hash = None\<rparr>
      else \<lparr>excluded_ipv4_cidrs = to_excluded_ipv4_cidrs opts,
            exclude_local_networks = to_exclude_local_networks opts,
            policy_hash = to_policy_hash opts\<rparr>)"

section \<open>Networks and the route plan\<close>

text \<open>The functions of \<^verbatim>\<open>ipnet::Ipv4Net\<close> that the sources call: \<^verbatim>\<open>parse\<close>, \<^verbatim>\<open>addr\<close>, \<^verbatim>\<open>network\<close>,
  \<^verbatim>\<open>to_string\<close> and \<^verbatim>\<open>aggregate\<close>.\<close>

record 'n ipnet_api =
  net_parse :: "string \<Rightarrow> 'n option"
  net_addr :: "'n \<Rightarrow> ipv4_addr"
  net_network :: "'n \<Rightarrow> ipv4_addr"
  net_to_string :: "'n \<Rightarrow> string"
  net_aggregate :: "'n list \<Rightarrow> 'n list"

fun validate_networks ::
  "('n, 'z) ipnet_api_scheme \<Rightarrow> 'n list \<Rightarrow> string list \<Rightarrow> (tunnel_options_error, unit) result" where
  "validate_networks api normalized [] = Ok ()"
| "validate_networks api normalized (value # rest) =
     (case net_parse api value of
        None \<Rightarrow> Err ''split_tunnel_invalid_ipv4_cidr''
      | Some network \<Rightarrow>
          if net_addr api network \<noteq> net_network api network
             \<or> net_to_string api network \<noteq> value
          then Err ''split_tunnel_noncanonical_ipv4_cidr''
          else if network \<in> set normalized then Err ''split_tunnel_duplicate_ipv4_cidr''
          else validate_networks api (network # normalized) rest)"

definition desktop_options_validate ::
  "('n, 'z) ipnet_api_scheme \<Rightarrow> desktop_tunnel_options \<Rightarrow> (tunnel_options_error, unit) result" where
  "desktop_options_validate api opts =
     (if length (excluded_ipv4_cidrs opts) > MAX_IPV4_CIDRS then Err ''split_tunnel_cidrs_limit''
      else if policy_hash opts = None \<and> excluded_ipv4_cidrs opts \<noteq> []
      then Err ''split_tunnel_inactive_options''
      else if (case policy_hash opts of
                 None \<Rightarrow> False
               | Some v \<Rightarrow> v = [] \<or> length v > MAX_POLICY_HASH_LENGTH \<or> \<not> str_is_ascii v)
      then Err ''split_tunnel_invalid_policy_hash''
      else validate_networks api [] (excluded_ipv4_cidrs opts))"

datatype route_plan_error = InvalidOptions string | InvalidNetwork | TooLarge

fun route_plan_stable_code :: "route_plan_error \<Rightarrow> string" where
  "route_plan_stable_code (InvalidOptions code) = code"
| "route_plan_stable_code InvalidNetwork = ''split_tunnel_invalid_ipv4_cidr''"
| "route_plan_stable_code TooLarge = ''route_plan_too_large''"

record 'n ipv4_route_plan =
  plan_policy_hash :: "string option"
  excluded_networks :: "'n list"
  plan_exclude_local_networks :: bool

definition MAX_ROUTES :: nat where "MAX_ROUTES = 16384"

definition compact ::
  "('n::linorder, 'z) ipnet_api_scheme \<Rightarrow> 'n list \<Rightarrow> (route_plan_error, 'n list) result" where
  "compact api networks =
     (if length networks > MAX_ROUTES then Err TooLarge
      else
        (let networks' = net_aggregate api (remdups_adj (sort networks)) in
         if length networks' > MAX_ROUTES then Err TooLarge else Ok networks'))"

definition from_options ::
  "('n::linorder, 'z) ipnet_api_scheme \<Rightarrow> desktop_tunnel_options \<Rightarrow>
   (route_plan_error, 'n ipv4_route_plan) result" where
  "from_options api opts =
     and_then (map_err InvalidOptions (desktop_options_validate api opts)) (\<lambda>_.
     and_then (collect_results (\<lambda>v. ok_or InvalidNetwork (net_parse api v))
                 (excluded_ipv4_cidrs opts)) (\<lambda>networks.
     and_then (compact api networks) (\<lambda>networks'.
       Ok \<lparr>plan_policy_hash = policy_hash opts, excluded_networks = networks',
           plan_exclude_local_networks = exclude_local_networks opts\<rparr>)))"

definition plan_active :: "'n ipv4_route_plan \<Rightarrow> bool" where
  "plan_active plan \<longleftrightarrow> plan_policy_hash plan \<noteq> None"

definition owned_policy_rejection_code :: "string \<Rightarrow> string option" where
  "owned_policy_rejection_code code =
     (if code \<in> {''redundant_policy_busy'', ''tunnel_operation_in_progress'',
                  ''redundant_policy_preflight_rejected'', ''invalid_tunnel_request'',
                  ''tunnel_service_timeout'', ''android_service_dispatch_unavailable'',
                  ''tunnel_backend_error''}
      then Some code else None)"

section \<open>What the DNS override does to a configuration\<close>

text \<open>The reference reading of a configuration as its trimmed lines: which lines are DNS settings of
  an interface section, and which lines are anything else.\<close>

definition enter_section :: "bool \<Rightarrow> string \<Rightarrow> bool" where
  "enter_section b t =
     (case section_name t of None \<Rightarrow> b | Some name \<Rightarrow> eq_ignore_ascii_case name ''Interface'')"

fun ends_in_interface :: "bool \<Rightarrow> string list \<Rightarrow> bool" where
  "ends_in_interface b [] = b"
| "ends_in_interface b (t # ts) = ends_in_interface (enter_section b t) ts"

fun interface_dns :: "bool \<Rightarrow> string list \<Rightarrow> string list" where
  "interface_dns b [] = []"
| "interface_dns b (t # ts) =
     (if enter_section b t \<and> is_dns_line t then [t] else []) @ interface_dns (enter_section b t) ts"

fun other_lines :: "bool \<Rightarrow> string list \<Rightarrow> string list" where
  "other_lines b [] = []"
| "other_lines b (t # ts) =
     (if enter_section b t \<and> is_dns_line t then [] else [t]) @ other_lines (enter_section b t) ts"

definition has_interface :: "string list \<Rightarrow> bool" where
  "has_interface ts \<longleftrightarrow>
     list_ex (\<lambda>t. case section_name t of None \<Rightarrow> False
                  | Some name \<Rightarrow> eq_ignore_ascii_case name ''Interface'') ts"

lemma scan_append:
  "ends_in_interface b (xs @ ys) = ends_in_interface (ends_in_interface b xs) ys"
  "interface_dns b (xs @ ys) = interface_dns b xs @ interface_dns (ends_in_interface b xs) ys"
  "other_lines b (xs @ ys) = other_lines b xs @ other_lines (ends_in_interface b xs) ys"
  by (induction xs arbitrary: b) simp_all

lemma blank_line [simp]: "section_name [] = None" "\<not> is_dns_line []" "enter_section b [] = b"
  by (simp_all add: section_name_def strip_prefix_char_def is_dns_line_def enter_section_def)

lemma scan_blank:
  "interface_dns b (filter (\<lambda>l. l \<noteq> []) ts) = interface_dns b ts"
  "other_lines b (filter (\<lambda>l. l \<noteq> []) ts) = filter (\<lambda>l. l \<noteq> []) (other_lines b ts)"
  by (induction ts arbitrary: b) simp_all

lemma has_interface_blank: "has_interface (filter (\<lambda>l. l \<noteq> []) ts) = has_interface ts"
  unfolding has_interface_def by (induction ts) simp_all

text \<open>The inserted line is a DNS setting, opens no section and survives trimming.\<close>

lemma show_ip_chars:
  "c \<in> set (show_ip a) \<Longrightarrow> is_digit 16 c \<or> c = CHR ''.'' \<or> c = CHR '':''"
proof -
  have join: "c \<in> set (join sep ps) \<Longrightarrow> c \<in> set sep \<or> (\<exists>p \<in> set ps. c \<in> set p)" for sep ps
    by (induction sep ps rule: join.induct) auto
  have v4: "c \<in> set (show_ipv4 x) \<Longrightarrow> is_digit 16 c \<or> c = CHR ''.''" for x
    using join [of "''.''" "map (\<lambda>b. show_nat (unat b)) (octets x)"] show_nat_digits decimal_is_hex
    by (fastforce simp: show_ipv4_def list_all_iff)
  have seg: "c \<in> set (show_segments gs) \<Longrightarrow> is_digit 16 c \<or> c = CHR '':''" for gs
    using join [of "'':''" "map (\<lambda>g. show_hex (unat g)) gs"] show_hex_digits
    by (fastforce simp: show_segments_def list_all_iff)
  have f: "is_digit 16 (CHR ''f'')" by (simp add: is_digit_def to_digit_def)
  assume "c \<in> set (show_ip a)"
  then show ?thesis
    using v4 seg f
    by (cases a) (fastforce simp: show_ipv6_def split: option.splits prod.splits if_splits)+
qed

lemma show_ip_not_Nil: "show_ip a \<noteq> []"
proof
  assume "show_ip a = []"
  then have "parse_ip [] = Some a" using parse_ip_show_ip [of a] by simp
  moreover have "parse_ip [] = None" by code_simp
  ultimately show False by simp
qed

lemma address_char:
  assumes "is_digit 16 c \<or> c = CHR ''.'' \<or> c = CHR '':''"
  shows "\<not> ws1 c" and "byte_of c < 128" and "c \<noteq> newline_char" and "c \<noteq> CHR '',''"
proof -
  have "46 \<le> byte_of c \<and> byte_of c \<le> 122"
    using assms by (auto simp: is_digit_def to_digit_def Let_def split: if_splits)
  then show "\<not> ws1 c" "byte_of c < 128" "c \<noteq> newline_char" "c \<noteq> CHR '',''"
    by (auto simp: ws1_def)
qed

lemma show_ip_no_separator: "newline_char \<notin> set (show_ip a)" "CHR '','' \<notin> set (show_ip a)"
  using show_ip_chars address_char(3,4) by metis+

lemma join_not_Nil: "ps \<noteq> [] \<Longrightarrow> last ps \<noteq> [] \<Longrightarrow> join sep ps \<noteq> []"
  by (induction sep ps rule: join.induct) auto

lemma last_join: "ps \<noteq> [] \<Longrightarrow> last ps \<noteq> [] \<Longrightarrow> last (join sep ps) = last (last ps)"
proof (induction sep ps rule: join.induct)
  case (3 sep p q ps)
  then show ?case
    using join_not_Nil [of "q # ps" sep] by (simp add: last_append del: join.simps(2))
qed simp_all

lemma dns_setting_last:
  assumes "servers \<noteq> []"
  shows "\<not> ws1 (last (dns_setting servers))" and "byte_of (last (dns_setting servers)) < 128"
proof -
  have "last (dns_setting servers) = last (show_ip (last servers))"
    using assms show_ip_not_Nil
    by (simp add: dns_setting_def last_append last_join join_not_Nil last_map)
  moreover have "last (show_ip (last servers)) \<in> set (show_ip (last servers))"
    by (simp add: show_ip_not_Nil)
  ultimately show "\<not> ws1 (last (dns_setting servers))" "byte_of (last (dns_setting servers)) < 128"
    using address_char(1,2) show_ip_chars by metis+
qed

lemma dns_setting_trim: "servers \<noteq> [] \<Longrightarrow> trim (dns_setting servers) = dns_setting servers"
  using dns_setting_last [of servers]
  by (intro trim_ascii_ends) (simp_all add: dns_setting_def ws1_def)

lemma dns_setting_no_newline: "newline_char \<notin> set (dns_setting servers)"
proof -
  have "newline_char \<notin> set (join '', '' (map show_ip servers))"
    by (induction servers rule: induct_list012) (simp_all add: show_ip_no_separator)
  then show ?thesis by (simp add: dns_setting_def)
qed

lemma dns_setting_line:
  "section_name (dns_setting servers) = None" "is_dns_line (dns_setting servers)"
proof -
  show "section_name (dns_setting servers) = None"
    by (simp add: dns_setting_def section_name_def strip_prefix_char_def)
  have "trim ''DNS '' = ''DNS''" by code_simp
  moreover have "split_once (CHR ''='') (dns_setting servers) =
      Some (''DNS '', CHR '' '' # join '', '' (map show_ip servers))"
    by (simp add: dns_setting_def)
  ultimately show "is_dns_line (dns_setting servers)"
    by (simp add: is_dns_line_def eq_ignore_ascii_case_def)
qed

lemma trim_strip_cr: "trim (strip_cr l) = trim l"
  by (auto simp: strip_cr_def strip_suffix_char_Some_iff trim_cr split: option.split)

lemma first_byte_not_dns:
  assumes "\<not> ws1 c" and "byte_of c < 128" and "ascii_lower c \<noteq> CHR ''d''"
  shows "\<not> is_dns_line (c # r)"
proof
  assume "is_dns_line (c # r)"
  then obtain a where a: "eq_ignore_ascii_case (trim a) ''DNS''" "a = [] \<or> (\<exists>b. a = c # b)"
    by (auto simp: is_dns_line_def split: option.splits if_splits)
  have lower: "to_ascii_lowercase ''DNS'' = ''dns''" by code_simp
  from a(2) show False
  proof
    assume "a = []"
    with a(1) lower show False by (simp add: eq_ignore_ascii_case_def to_ascii_lowercase_def)
  next
    assume "\<exists>b. a = c # b"
    then obtain u where "trim a = c # u \<or> trim a = []" using trim_Cons_ascii [OF assms(1,2)] by blast
    with a(1) lower assms(3) show False
      by (auto simp: eq_ignore_ascii_case_def) (auto simp: to_ascii_lowercase_def)
  qed
qed

lemma section_not_dns:
  assumes "section_name t = Some name"
  shows "\<not> is_dns_line t"
proof -
  obtain r where t: "t = CHR ''['' # r"
    using assms by (auto simp: section_name_def bind_eq_Some_conv strip_prefix_char_Some_iff)
  have "ascii_lower (CHR ''['') \<noteq> CHR ''d''" by code_simp
  with t show ?thesis using first_byte_not_dns [of "CHR ''[''" r] by (simp add: ws1_def)
qed

text \<open>The invariant of the loop after the lines \<open>ts\<close>.\<close>

definition override_inv :: "string \<Rightarrow> string list \<Rightarrow> dns_override \<Rightarrow> bool" where
  "override_inv dns ts st \<longleftrightarrow>
     in_interface st = ends_in_interface False ts
     \<and> interface_found st = has_interface ts
     \<and> (interface_found st \<and> \<not> in_interface st \<longrightarrow> dns_inserted st)
     \<and> (in_interface st \<longrightarrow> interface_found st)
     \<and> ends_in_interface False (map trim (ov_output st)) = ends_in_interface False ts
     \<and> other_lines False (map trim (ov_output st)) = other_lines False ts
     \<and> interface_dns False (map trim (ov_output st)) = (if dns_inserted st then [dns] else [])
     \<and> (dns_inserted st \<longrightarrow> interface_found st)
     \<and> (\<forall>l \<in> set (ov_output st). newline_char \<notin> set l)"

lemma has_interface_append: "has_interface (xs @ ys) \<longleftrightarrow> has_interface xs \<or> has_interface ys"
  by (simp add: has_interface_def)

lemma override_line_inv:
  assumes dns: "trim dns = dns" "section_name dns = None" "is_dns_line dns" "newline_char \<notin> set dns"
    and l: "newline_char \<notin> set l" and inv: "override_inv dns ts st"
  shows "override_inv dns (ts @ [trim l]) (override_line dns st l)"
proof -
  have nl: "newline_char \<notin> set (strip_cr l)"
    using l by (auto simp: strip_cr_def strip_suffix_char_Some_iff split: option.split)
  show ?thesis
  proof (cases "section_name (trim l)")
    case None
    then have "override_section dns st (trim l) = st" "enter_section b (trim l) = b"
      "has_interface [trim l] \<longleftrightarrow> False" for b
      by (simp_all add: override_section_def enter_section_def has_interface_def)
    then show ?thesis
      using inv nl
      by (simp add: override_inv_def override_line_def trim_strip_cr scan_append
          has_interface_append Let_def) blast
  next
    case (Some name)
    let ?here = "eq_ignore_ascii_case name ''Interface''"
    have sec: "enter_section b (trim l) = ?here" "has_interface [trim l] \<longleftrightarrow> ?here"
      "\<not> is_dns_line (trim l)" for b
      using Some section_not_dns [OF Some] by (simp_all add: enter_section_def has_interface_def)
    have dns_sec: "enter_section b dns = b" for b
      using dns by (simp add: enter_section_def)
    show ?thesis
      using inv nl dns sec dns_sec Some
      by (cases "in_interface st"; cases "dns_inserted st")
        (simp_all add: override_inv_def override_line_def override_section_def trim_strip_cr
          scan_append has_interface_append Let_def)
  qed
qed

lemma override_lines_inv:
  assumes dns: "trim dns = dns" "section_name dns = None" "is_dns_line dns" "newline_char \<notin> set dns"
    and "\<forall>l \<in> set ls. newline_char \<notin> set l"
  shows "override_inv dns (map trim ls) (foldl (override_line dns)
    \<lparr>ov_output = [], interface_found = False, in_interface = False, dns_inserted = False\<rparr> ls)"
  using assms(5)
proof (induction ls rule: rev_induct)
  case Nil
  then show ?case by (simp add: override_inv_def has_interface_def)
next
  case (snoc l ls)
  then show ?case using override_line_inv [OF dns] by simp
qed

text \<open>The whole effect of a successful override on the lines of the configuration.\<close>

lemma override_dns_cases:
  assumes "servers \<noteq> []"
  shows "(override_dns conf servers = Err MissingInterface \<and> \<not> has_interface (line_view conf))
    \<or> (has_interface (line_view conf)
       \<and> (\<exists>conf' ts. override_dns conf servers = Ok conf'
            \<and> line_view conf' = filter (\<lambda>l. l \<noteq> []) ts
            \<and> interface_dns False ts = [dns_setting servers]
            \<and> other_lines False ts = other_lines False (map trim (str_lines conf))))"
proof -
  define st where "st = foldl (override_line (dns_setting servers))
    \<lparr>ov_output = [], interface_found = False, in_interface = False, dns_inserted = False\<rparr>
    (str_lines conf)"
  define out where "out = (if in_interface st \<and> \<not> dns_inserted st
    then ov_output st @ [dns_setting servers] else ov_output st)"
  define nl where "nl = (if contains_str [cr_char, newline_char] conf
    then [cr_char, newline_char] else [newline_char])"
  define trail where "trail = (if ends_with_char newline_char conf then nl else [])"
  note dns = dns_setting_trim [OF assms] dns_setting_line dns_setting_no_newline
  have eq: "override_dns conf servers =
      (if \<not> interface_found st then Err MissingInterface else Ok (join nl out @ trail))"
    using assms by (simp add: override_dns_def Let_def st_def out_def nl_def trail_def)
  have inv: "override_inv (dns_setting servers) (map trim (str_lines conf)) st"
    unfolding st_def using dns str_lines_no_newline by (intro override_lines_inv) auto
  have enter: "enter_section b (dns_setting servers) = b" for b
    using dns by (simp add: enter_section_def)
  have found: "interface_found st = has_interface (line_view conf)"
    using inv by (simp add: override_inv_def line_view_def has_interface_blank)
  have out: "interface_dns False (map trim out) = [dns_setting servers]"
      "other_lines False (map trim out) = other_lines False (map trim (str_lines conf))"
    if "interface_found st"
    using inv that dns enter by (auto simp: override_inv_def scan_append out_def)
  have view: "line_view (join nl out @ trail) = filter (\<lambda>l. l \<noteq> []) (map trim out)"
    using inv dns by (intro line_view_join) (auto simp: override_inv_def nl_def trail_def out_def)
  show ?thesis
  proof (cases "interface_found st")
    case True
    then show ?thesis using eq found out view by auto
  next
    case False
    then show ?thesis using eq found by simp
  qed
qed

section \<open>Validation of networks\<close>

lemma ex_list_all2_Cons:
  "(\<exists>ys. list_all2 P (x # xs) ys \<and> Q ys) \<longleftrightarrow> (\<exists>y zs. P x y \<and> list_all2 P xs zs \<and> Q (y # zs))"
  by (auto simp: list_all2_Cons1)

lemma validate_networks_Ok_iff:
  "validate_networks api seen cidrs = Ok () \<longleftrightarrow>
     (\<exists>ns. list_all2 (\<lambda>v n. net_parse api v = Some n \<and> net_addr api n = net_network api n
              \<and> net_to_string api n = v) cidrs ns
       \<and> distinct ns \<and> set ns \<inter> set seen = {})"
proof (induction cidrs arbitrary: seen)
  case Nil
  then show ?case by simp
next
  case (Cons v vs)
  show ?case
  proof (cases "net_parse api v")
    case None
    then show ?thesis by (auto simp: list_all2_Cons1)
  next
    case (Some n)
    then show ?thesis
      using Cons.IH [of "n # seen"] by (auto simp: ex_list_all2_Cons)
  qed
qed

lemma collect_parsed:
  "collect_results (\<lambda>v. ok_or e (parse v)) vs = Ok ns \<longleftrightarrow> list_all2 (\<lambda>v n. parse v = Some n) vs ns"
  by (simp add: collect_results_Inr_iff)

lemma validate_networks_collect:
  assumes "validate_networks api [] vs = Ok ()"
  obtains ns where "collect_results (\<lambda>v. ok_or e (net_parse api v)) vs = Ok ns" "distinct ns"
    "list_all2 (\<lambda>v n. net_parse api v = Some n \<and> net_addr api n = net_network api n
              \<and> net_to_string api n = v) vs ns"
proof -
  from assms obtain ns where ns: "list_all2 (\<lambda>v n. net_parse api v = Some n
      \<and> net_addr api n = net_network api n \<and> net_to_string api n = v) vs ns" "distinct ns"
    by (auto simp: validate_networks_Ok_iff)
  then have "list_all2 (\<lambda>v n. net_parse api v = Some n) vs ns"
    by (auto elim: list.rel_mono_strong)
  with ns that show thesis by (simp add: collect_parsed)
qed

lemma compact_set:
  assumes "\<And>ns. (\<Union>n \<in> set (net_aggregate api ns). cov n) = (\<Union>n \<in> set ns. cov n)"
    and "compact api ns = Ok ns'"
  shows "(\<Union>n \<in> set ns'. cov n) = (\<Union>n \<in> set ns. cov n)" and "length ns' \<le> MAX_ROUTES"
  using assms(2) assms(1) [of "remdups_adj (sort ns)"]
  by (simp_all add: compact_def Let_def split: if_splits)

lemma desktop_options_length:
  "desktop_options_validate api opts = Ok () \<Longrightarrow> length (excluded_ipv4_cidrs opts) \<le> MAX_IPV4_CIDRS"
  by (simp add: desktop_options_validate_def split: if_splits)

lemma desktop_options_networks:
  "desktop_options_validate api opts = Ok () \<Longrightarrow>
   validate_networks api [] (excluded_ipv4_cidrs opts) = Ok ()"
  by (simp add: desktop_options_validate_def split: if_splits)

text \<open>The sign accepted by \<^verbatim>\<open>parse::<u8>\<close> makes a prefix length with a plus sign valid.\<close>

lemma valid_ipv4_cidr_accepts_plus: "valid_ipv4_cidr ''10.0.0.0/+24''"
  by code_simp

section \<open>Properties\<close>

text \<open>C9: overriding the DNS servers of a configuration replaces exactly the DNS settings of its
  interface section.  With no servers nothing changes; otherwise the override fails exactly when
  the text has no interface section, and on success the only DNS setting of an interface section
  is the requested one while all other lines are kept, in order.\<close>

theorem override_dns_replaces_dns:
  "override_dns conf [] = Ok conf
   \<and> (servers \<noteq> [] \<longrightarrow>
      (case override_dns conf servers of
         Err e \<Rightarrow> \<not> has_interface (line_view conf)
       | Ok conf' \<Rightarrow>
           has_interface (line_view conf)
           \<and> interface_dns False (line_view conf') = [dns_setting servers]
           \<and> other_lines False (line_view conf') = other_lines False (line_view conf)))"
proof -
  have "case override_dns conf servers of
         Err e \<Rightarrow> \<not> has_interface (line_view conf)
       | Ok conf' \<Rightarrow> has_interface (line_view conf)
           \<and> interface_dns False (line_view conf') = [dns_setting servers]
           \<and> other_lines False (line_view conf') = other_lines False (line_view conf)"
    if "servers \<noteq> []"
    using override_dns_cases [OF that, of conf]
  proof
    assume "override_dns conf servers = Err MissingInterface \<and> \<not> has_interface (line_view conf)"
    then show ?thesis by simp
  next
    assume "has_interface (line_view conf)
       \<and> (\<exists>conf' ts. override_dns conf servers = Ok conf'
            \<and> line_view conf' = filter (\<lambda>l. l \<noteq> []) ts
            \<and> interface_dns False ts = [dns_setting servers]
            \<and> other_lines False ts = other_lines False (map trim (str_lines conf)))"
    then show ?thesis by (auto simp: scan_blank line_view_def)
  qed
  then show ?thesis by (simp add: override_dns_def)
qed

definition sample_configuration :: string where
  "sample_configuration =
     ''[Interface]'' @ [newline_char] @ ''DNS = 1.1.1.1'' @ [newline_char]
     @ ''[Peer]'' @ [newline_char] @ ''PublicKey = k'' @ [newline_char]"

theorem override_dns_replaces_dns_witness:
  "\<exists>conf'. override_dns sample_configuration [V4 (Ipv4Addr 9 9 9 9)] = Ok conf'
    \<and> interface_dns False (line_view conf') = [''DNS = 9.9.9.9'']
    \<and> other_lines False (line_view conf') = [''[Interface]'', ''[Peer]'', ''PublicKey = k'']"
proof -
  have "is_ok (override_dns sample_configuration [V4 (Ipv4Addr 9 9 9 9)])"
    "dns_setting [V4 (Ipv4Addr 9 9 9 9)] = ''DNS = 9.9.9.9''"
    "other_lines False (line_view sample_configuration) =
      [''[Interface]'', ''[Peer]'', ''PublicKey = k'']"
    by code_simp+
  then show ?thesis
    using override_dns_replaces_dns [of sample_configuration "[V4 (Ipv4Addr 9 9 9 9)]"]
    by (auto simp: is_ok_iff)
qed

text \<open>C10: a route plan excludes exactly the addresses of the configured networks.  Whenever the
  crate's \<^verbatim>\<open>aggregate\<close> keeps the set of addresses its networks cover, a plan made from desktop
  options covers the union of the networks named by the options, each of which was given in
  canonical form and once, with at most 16384 routes; it keeps the policy hash, and no option that
  passed validation can fail later as an invalid network.\<close>

theorem route_plan_covers_options:
  assumes aggregate: "\<And>ns. (\<Union>n \<in> set (net_aggregate api ns). cov n) = (\<Union>n \<in> set ns. cov n)"
  shows "case from_options api opts of
      Err e \<Rightarrow> e \<noteq> InvalidNetwork
        \<and> (\<forall>code. e = InvalidOptions code \<longrightarrow> desktop_options_validate api opts = Err code)
    | Ok plan \<Rightarrow>
        (\<exists>ns. list_all2 (\<lambda>v n. net_parse api v = Some n \<and> net_to_string api n = v
                \<and> net_addr api n = net_network api n) (excluded_ipv4_cidrs opts) ns
           \<and> distinct ns
           \<and> (\<Union>n \<in> set (excluded_networks plan). cov n) = (\<Union>n \<in> set ns. cov n))
        \<and> length (excluded_networks plan) \<le> 16384
        \<and> plan_policy_hash plan = policy_hash opts"
proof (cases "desktop_options_validate api opts")
  case (Inl code)
  then show ?thesis by (simp add: from_options_def)
next
  case (Inr u)
  then have "validate_networks api [] (excluded_ipv4_cidrs opts) = Ok ()"
    by (simp add: desktop_options_networks)
  then obtain ns where ns: "collect_results (\<lambda>v. ok_or InvalidNetwork (net_parse api v))
      (excluded_ipv4_cidrs opts) = Ok ns" "distinct ns"
      "list_all2 (\<lambda>v n. net_parse api v = Some n \<and> net_addr api n = net_network api n
         \<and> net_to_string api n = v) (excluded_ipv4_cidrs opts) ns"
    by (rule validate_networks_collect)
  show ?thesis
  proof (cases "compact api ns")
    case (Inl e)
    then have "e = TooLarge" by (auto simp: compact_def Let_def split: if_splits)
    then show ?thesis using Inl Inr ns by (simp add: from_options_def)
  next
    case (Inr ns')
    have "list_all2 (\<lambda>v n. net_parse api v = Some n \<and> net_to_string api n = v
        \<and> net_addr api n = net_network api n) (excluded_ipv4_cidrs opts) ns"
      using ns(3) by (auto elim: list.rel_mono_strong)
    then show ?thesis
      using compact_set [OF aggregate Inr] Inr \<open>desktop_options_validate api opts = _\<close> ns
      by (auto simp: from_options_def MAX_ROUTES_def)
  qed
qed

text \<open>Networks as pairs of address value and prefix length, with no aggregation.\<close>

definition value_of_ipv4 :: "ipv4_addr \<Rightarrow> int" where
  "value_of_ipv4 ip = foldl (\<lambda>n b. 256 * n + uint b) 0 (octets ip)"

definition ipv4_of_value :: "int \<Rightarrow> ipv4_addr" where
  "ipv4_of_value x =
     Ipv4Addr (word_of_int (x div 16777216)) (word_of_int (x div 65536)) (word_of_int (x div 256))
       (word_of_int x)"

definition pair_net_api :: "(int \<times> nat) ipnet_api" where
  "pair_net_api =
     \<lparr>net_parse = (\<lambda>s. case split_once (CHR ''/'') s of
          Some (a, p) \<Rightarrow>
            (case (parse_ipv4 a, parse_uint 8 p) of
               (Some ip, Some n) \<Rightarrow> if n \<le> 32 then Some (value_of_ipv4 ip, n) else None
             | _ \<Rightarrow> None)
        | None \<Rightarrow> None),
      net_addr = (\<lambda>(x, n). ipv4_of_value x),
      net_network = (\<lambda>(x, n). ipv4_of_value (x - x mod 2 ^ (32 - n))),
      net_to_string = (\<lambda>(x, n). show_ipv4 (ipv4_of_value x) @ ''/'' @ show_nat n),
      net_aggregate = (\<lambda>ns. ns)\<rparr>"

definition pair_net_cover :: "int \<times> nat \<Rightarrow> int set" where
  "pair_net_cover net = {x. x div 2 ^ (32 - snd net) = fst net div 2 ^ (32 - snd net)}"

definition sample_desktop_options :: desktop_tunnel_options where
  "sample_desktop_options =
     \<lparr>excluded_ipv4_cidrs = [''203.0.113.0/24'', ''10.0.0.0/8''], exclude_local_networks = True,
      policy_hash = Some ''sha256:test''\<rparr>"

theorem route_plan_covers_options_witness:
  "\<exists>plan. from_options pair_net_api sample_desktop_options = Ok plan
    \<and> length (excluded_networks plan) \<le> 16384 \<and> plan_policy_hash plan = Some ''sha256:test''"
proof -
  let ?a = "(3405803776, 24) :: int \<times> nat" and ?b = "(167772160, 8) :: int \<times> nat"
  have "net_parse pair_net_api ''203.0.113.0/24'' = Some ?a" "net_parse pair_net_api ''10.0.0.0/8'' = Some ?b"
    "net_addr pair_net_api ?a = net_network pair_net_api ?a"
    "net_addr pair_net_api ?b = net_network pair_net_api ?b"
    "net_to_string pair_net_api ?a = ''203.0.113.0/24''"
    "net_to_string pair_net_api ?b = ''10.0.0.0/8''"
    "str_is_ascii ''sha256:test''"
    by code_simp+
  then have "is_ok (from_options pair_net_api sample_desktop_options)"
    by (simp add: from_options_def sample_desktop_options_def desktop_options_validate_def compact_def
        MAX_IPV4_CIDRS_def MAX_POLICY_HASH_LENGTH_def MAX_ROUTES_def pair_net_api_def)
  then obtain plan where plan: "from_options pair_net_api sample_desktop_options = Ok plan"
    by (auto simp: is_ok_iff)
  have "(\<Union>n \<in> set (net_aggregate pair_net_api ns). pair_net_cover n) = (\<Union>n \<in> set ns. pair_net_cover n)"
    for ns by (simp add: pair_net_api_def)
  from route_plan_covers_options [where cov = pair_net_cover, OF this, of sample_desktop_options] plan
  show ?thesis by (simp add: sample_desktop_options_def)
qed

end
