(* ===== verification/TunnelApi.thy ===== *)
theory TunnelApi
  imports Tunnel
begin

text \<open>
  The interface of \<^verbatim>\<open>crates/client-tunnel/src/lib.rs\<close> between the client core and the platform
  services: the start request, the status, metrics and capability types, the errors, and the default
  methods of the \<^verbatim>\<open>TunnelController\<close> trait.  A \<^verbatim>\<open>TunnelConfiguration\<close> is its text.
\<close>

datatype tunnel_error = TunnelBackend string | TunnelInvalidOptions string

datatype tunnel_platform =
  PlatformAndroid | PlatformWindows | PlatformLinux | PlatformMacos | PlatformUnknown

record tunnel_capabilities =
  cap_platform :: tunnel_platform
  cap_android_api_level :: "u32 option"
  cap_address_split_tunnel :: bool
  cap_application_split_tunnel :: bool

datatype tunnel_status =
  TunnelStopped | TunnelStarting | TunnelRunning | TunnelStopping | TunnelFailed

record tunnel_metrics =
  received_bytes :: u64
  sent_bytes :: u64
  latest_handshake_epoch_millis :: "u64 option"
  probe_target :: "string option"

datatype quick_reconnect = ReconnectDisabled | ReconnectPersistent | ReconnectUntil int

record quick_connection =
  qc_lease_id :: string
  qc_layer :: layer
  qc_tic_connection_mode :: tic_connection_mode
  qc_route_mode :: route_mode
  qc_egress_mode :: egress_mode
  qc_allow_alternate :: bool

record redundant_tunnel_member_start =
  ms_slot :: redundancy_member_slot
  ms_lease_id :: string
  ms_health_probe :: "redundant_health_probe option"

record redundant_tunnel_standby_start =
  sb_member :: redundant_tunnel_member_start
  sb_configuration :: string

record redundant_tunnel_start =
  rts_warm_stop_v1 :: bool
  rts_async_stop_v1 :: bool
  rts_session_id :: string
  rts_state :: redundancy_state
  rts_operation_id :: string
  rts_request_fingerprint :: string
  rts_reserve_enabled :: bool
  rts_virtual_address_v4 :: string
  rts_standby_desired :: bool
  rts_active_lease_id :: string
  rts_local_active_lease_id :: string
  rts_role_generation :: u64
  rts_membership_generation :: u64
  rts_primary :: redundant_tunnel_member_start
  rts_standby :: "redundant_tunnel_standby_start option"

record tunnel_start_request =
  ts_configuration :: string
  ts_options :: tunnel_options
  ts_quick_reconnect :: quick_reconnect
  ts_quick_connection :: "quick_connection option"
  ts_redundancy :: "redundant_tunnel_start option"

definition default_tunnel_options :: tunnel_options where
  "default_tunnel_options =
     \<lparr>application_mode = None, package_ids = [], to_excluded_ipv4_cidrs = [],
      to_exclude_local_networks = False, to_policy_hash = None, dns_servers = [],
      dns46_dot = None, dns46_dot_expires_at_unix = 0\<rparr>"

definition full_tunnel :: "string \<Rightarrow> tunnel_start_request" where
  "full_tunnel configuration =
     \<lparr>ts_configuration = configuration, ts_options = default_tunnel_options,
      ts_quick_reconnect = ReconnectDisabled, ts_quick_connection = None, ts_redundancy = None\<rparr>"

definition default_capabilities :: tunnel_capabilities where
  "default_capabilities =
     \<lparr>cap_platform = PlatformUnknown, cap_android_api_level = None,
      cap_address_split_tunnel = False, cap_application_split_tunnel = False\<rparr>"

text \<open>The \<^verbatim>\<open>Display\<close> of the configuration error.\<close>

fun tunnel_configuration_error_display :: "tunnel_configuration_error \<Rightarrow> string" where
  "tunnel_configuration_error_display MissingInterface = ''wireguard interface section is missing''"

end
