(* ===== verification/UnixConfig.thy ===== *)
theory UnixConfig
  imports Tunnel
begin

text \<open>
  The configuration parser of \<^verbatim>\<open>crates/unix-service/src/config.rs\<close>: the WireGuard configuration
  text is read line by line into builders, checked, and turned into a parsed configuration.  The
  parsers of third-party types are parameters, collected in \<open>config_api\<close>: the base64 decoder of the
  crate \<^verbatim>\<open>base64\<close> and the \<^verbatim>\<open>FromStr\<close> of \<^verbatim>\<open>ipnet::IpNet\<close>, whose values are of type \<open>'net\<close>.
\<close>

section \<open>Data\<close>

record 'net config_api =
  b64_decode :: "string \<Rightarrow> u8 list option"
  ipnet_parse :: "string \<Rightarrow> 'net option"

text \<open>A \<^verbatim>\<open>SecretKey\<close> is its 32 bytes.\<close>

type_synonym secret_key = "u8 list"

definition as_hex :: "secret_key \<Rightarrow> string" where
  "as_hex key = concat (map (\<lambda>b. [radix_char (unat b div 16), radix_char (unat b mod 16)]) key)"

record endpoint =
  ep_host :: string
  ep_port :: nat

record 'net parsed_peer =
  pp_public_key :: "u8 list"
  pp_preshared_key :: "secret_key option"
  pp_allowed_ips :: "'net list"
  pp_endpoint :: endpoint
  pp_persistent_keepalive :: "nat option"

record awg3_parameters =
  ap_header_protection_key :: secret_key
  ap_fields :: "(string \<times> string) list"

record 'net parsed_configuration =
  pc_private_key :: secret_key
  pc_addresses :: "'net list"
  pc_dns :: "ip_addr list"
  pc_mtu :: "nat option"
  pc_listen_port :: "nat option"
  pc_peers :: "'net parsed_peer list"
  pc_transport :: tunnel_transport
  pc_awg3 :: "awg3_parameters option"

definition uapi_configuration :: "awg3_parameters \<Rightarrow> string" where
  "uapi_configuration p =
     ''header_protection_key='' @ as_hex (ap_header_protection_key p) @ [newline_char]
     @ concat (map (\<lambda>(key, value). key @ ''='' @ value @ [newline_char]) (ap_fields p))"

datatype configuration_error =
  UnsafeDirective | InvalidStructure | InvalidValue | UnsupportedField | MissingField

fun configuration_error_code :: "configuration_error \<Rightarrow> string" where
  "configuration_error_code UnsafeDirective = ''unsafe_configuration_directive''"
| "configuration_error_code InvalidStructure = ''invalid_configuration_structure''"
| "configuration_error_code InvalidValue = ''invalid_configuration_value''"
| "configuration_error_code UnsupportedField = ''unsupported_configuration_field''"
| "configuration_error_code MissingField = ''missing_configuration_field''"

text \<open>\<open>ab_seen\<close> is the \<^verbatim>\<open>HashSet\<close> of the keys inserted.\<close>

record awg3_builder =
  ab_header_protection_key :: "secret_key option"
  ab_content_padding_addition :: "string option"
  ab_fields :: "(string \<times> string) list"
  ab_seen :: "string list"

record 'net interface_builder =
  ib_private_key :: "secret_key option"
  ib_addresses :: "'net list"
  ib_dns :: "ip_addr list"
  ib_mtu :: "nat option"
  ib_listen_port :: "nat option"
  ib_awg3 :: awg3_builder

record 'net peer_builder =
  pb_public_key :: "u8 list option"
  pb_preshared_key :: "secret_key option"
  pb_allowed_ips :: "'net list"
  pb_endpoint :: "endpoint option"
  pb_persistent_keepalive :: "nat option"

datatype 'net config_section = NoSection | InterfaceSection | PeerSection "'net peer_builder"

definition default_awg3_builder :: awg3_builder where
  "default_awg3_builder =
     \<lparr>ab_header_protection_key = None, ab_content_padding_addition = None, ab_fields = [],
      ab_seen = []\<rparr>"

definition default_interface_builder :: "'net interface_builder" where
  "default_interface_builder =
     \<lparr>ib_private_key = None, ib_addresses = [], ib_dns = [], ib_mtu = None, ib_listen_port = None,
      ib_awg3 = default_awg3_builder\<rparr>"

definition default_peer_builder :: "'net peer_builder" where
  "default_peer_builder =
     \<lparr>pb_public_key = None, pb_preshared_key = None, pb_allowed_ips = [], pb_endpoint = None,
      pb_persistent_keepalive = None\<rparr>"

section \<open>Values\<close>

definition parse_key :: "('net, 'z) config_api_scheme \<Rightarrow> string \<Rightarrow> (configuration_error, u8 list) result" where
  "parse_key api value =
     (case b64_decode api value of
        None \<Rightarrow> Err InvalidValue
      | Some decoded \<Rightarrow> if length decoded = 32 then Ok decoded else Err InvalidValue)"

definition parse_list :: "(string \<Rightarrow> 'a option) \<Rightarrow> string \<Rightarrow> (configuration_error, 'a list) result" where
  "parse_list parse value =
     collect_results (\<lambda>entry. if entry = [] then Err InvalidValue else ok_or InvalidValue (parse entry))
       (map trim (split_on (CHR '','') value))"

definition parse_nonzero_port :: "string \<Rightarrow> (configuration_error, nat) result" where
  "parse_nonzero_port value =
     (case parse_uint 16 value of
        None \<Rightarrow> Err InvalidValue
      | Some port \<Rightarrow> if port = 0 then Err InvalidValue else Ok port)"

definition insert_field ::
  "awg3_builder \<Rightarrow> string \<Rightarrow> string \<Rightarrow> (configuration_error, awg3_builder) result" where
  "insert_field awg3 uapi_key value =
     (if uapi_key \<in> set (ab_seen awg3) then Err InvalidStructure
      else Ok (awg3\<lparr>ab_seen := uapi_key # ab_seen awg3,
                    ab_fields := ab_fields awg3 @ [(uapi_key, value)]\<rparr>))"

definition parse_awg_u32 ::
  "awg3_builder \<Rightarrow> string \<Rightarrow> string \<Rightarrow> (configuration_error, awg3_builder) result" where
  "parse_awg_u32 awg3 key value =
     (case parse_uint 32 value of
        None \<Rightarrow> Err InvalidValue
      | Some _ \<Rightarrow> insert_field awg3 key value)"

definition parse_awg_u16 ::
  "awg3_builder \<Rightarrow> string \<Rightarrow> string \<Rightarrow> (configuration_error, awg3_builder) result" where
  "parse_awg_u16 awg3 key value =
     (case parse_uint 16 value of
        None \<Rightarrow> Err InvalidValue
      | Some _ \<Rightarrow> insert_field awg3 key value)"

definition parse_u32_range :: "string \<Rightarrow> (configuration_error, string) result" where
  "parse_u32_range value =
     (case (case split_once (CHR ''-'') value of Some p \<Rightarrow> p | None \<Rightarrow> (value, value)) of
        (minimum, maximum) \<Rightarrow>
          and_then (ok_or InvalidValue (parse_uint 32 minimum)) (\<lambda>lo.
          and_then (ok_or InvalidValue (parse_uint 32 maximum)) (\<lambda>hi.
            if lo > hi then Err InvalidValue
            else Ok (if lo = hi then show_nat lo else show_nat lo @ ''-'' @ show_nat hi))))"

definition parse_awg_range ::
  "awg3_builder \<Rightarrow> string \<Rightarrow> string \<Rightarrow> (configuration_error, awg3_builder) result" where
  "parse_awg_range awg3 key value =
     and_then (parse_u32_range value) (\<lambda>v. insert_field awg3 key v)"

definition parse_awg_template ::
  "awg3_builder \<Rightarrow> string \<Rightarrow> string \<Rightarrow> (configuration_error, awg3_builder) result" where
  "parse_awg_template awg3 key value =
     (if length value > 4096 \<or> \<not> list_all (\<lambda>b. is_ascii_graphic b \<or> b = CHR '' '') value
      then Err InvalidValue
      else insert_field awg3 key value)"

definition parse_endpoint :: "string \<Rightarrow> (configuration_error, endpoint) result" where
  "parse_endpoint value =
     and_then
       (case strip_prefix_char (CHR ''['') value of
          Some rest \<Rightarrow> ok_or InvalidValue (split_once_str '']:'' rest)
        | None \<Rightarrow> ok_or InvalidValue (rsplit_once (CHR '':'') value)) (\<lambda>(host, port).
       if host = [] \<or> any_whitespace host \<or> CHR ''/'' \<in> set host \<or> CHR 0x5C \<in> set host
       then Err InvalidValue
       else and_then (parse_nonzero_port port) (\<lambda>p. Ok \<lparr>ep_host = host, ep_port = p\<rparr>))"

section \<open>Builders\<close>

definition has_fields :: "awg3_builder \<Rightarrow> bool" where
  "has_fields b \<longleftrightarrow>
     ab_header_protection_key b \<noteq> None \<or> ab_content_padding_addition b \<noteq> None \<or> ab_fields b \<noteq> []"

definition awg3_finish ::
  "awg3_builder \<Rightarrow> (configuration_error, awg3_parameters option) result" where
  "awg3_finish b =
     (if \<not> has_fields b then Ok None
      else
        and_then (ok_or MissingField (ab_header_protection_key b)) (\<lambda>key.
        and_then (ok_or MissingField (ab_content_padding_addition b)) (\<lambda>padding.
          Ok (Some \<lparr>ap_header_protection_key = key,
                    ap_fields = ab_fields b @ [(''content_padding_addition'', padding)]\<rparr>))))"

text \<open>The table of the AmneziaWG fields: the configuration key, how its value is parsed, and the
  key used on the control socket.\<close>

datatype awg_kind = AwgU32 | AwgU16 | AwgRange | AwgTemplate

definition awg_fields :: "(string \<times> awg_kind \<times> string) list" where
  "awg_fields =
     [(''Jc'', AwgU32, ''jc''), (''Jmin'', AwgU32, ''jmin''), (''Jmax'', AwgU32, ''jmax''),
      (''S1'', AwgU16, ''s1''), (''S2'', AwgU16, ''s2''), (''S3'', AwgU16, ''s3''), (''S4'', AwgU16, ''s4''),
      (''H1'', AwgRange, ''h1''), (''H2'', AwgRange, ''h2''), (''H3'', AwgRange, ''h3''), (''H4'', AwgRange, ''h4''),
      (''I1'', AwgTemplate, ''i1''), (''I2'', AwgTemplate, ''i2''), (''I3'', AwgTemplate, ''i3''),
      (''I4'', AwgTemplate, ''i4''), (''I5'', AwgTemplate, ''i5''),
      (''RekeyAfterTime'', AwgRange, ''rekey_after_time''),
      (''RekeyTimeout'', AwgRange, ''rekey_timeout''),
      (''RejectAfterTime'', AwgRange, ''reject_after_time''),
      (''KeepaliveTimeout'', AwgRange, ''keepalive_timeout''),
      (''MaxHandshakeAttempts'', AwgRange, ''max_handshake_attempts'')]"

fun parse_awg ::
  "awg_kind \<Rightarrow> awg3_builder \<Rightarrow> string \<Rightarrow> string \<Rightarrow> (configuration_error, awg3_builder) result" where
  "parse_awg AwgU32 = parse_awg_u32"
| "parse_awg AwgU16 = parse_awg_u16"
| "parse_awg AwgRange = parse_awg_range"
| "parse_awg AwgTemplate = parse_awg_template"

definition parse_interface_field ::
  "('net, 'z) config_api_scheme \<Rightarrow> 'net interface_builder \<Rightarrow> string \<Rightarrow> string \<Rightarrow>
   (configuration_error, 'net interface_builder) result" where
  "parse_interface_field api ib key value =
     (if key = ''PrivateKey'' \<and> ib_private_key ib = None
      then and_then (parse_key api value) (\<lambda>k. Ok (ib\<lparr>ib_private_key := Some k\<rparr>))
      else if key = ''Address'' \<and> ib_addresses ib = []
      then and_then (parse_list (ipnet_parse api) value) (\<lambda>l. Ok (ib\<lparr>ib_addresses := l\<rparr>))
      else if key = ''DNS'' \<and> ib_dns ib = []
      then and_then (parse_list parse_ip value) (\<lambda>l. Ok (ib\<lparr>ib_dns := l\<rparr>))
      else if key = ''MTU'' \<and> ib_mtu ib = None
      then and_then (ok_or InvalidValue (parse_uint 32 value)) (\<lambda>mtu.
             if \<not> (576 \<le> mtu \<and> mtu \<le> 65535) then Err InvalidValue
             else Ok (ib\<lparr>ib_mtu := Some mtu\<rparr>))
      else if key = ''ListenPort'' \<and> ib_listen_port ib = None
      then and_then (parse_nonzero_port value) (\<lambda>p. Ok (ib\<lparr>ib_listen_port := Some p\<rparr>))
      else if key = ''HeaderProtectionKey'' \<and> ab_header_protection_key (ib_awg3 ib) = None
      then and_then (parse_key api value) (\<lambda>k.
             Ok (ib\<lparr>ib_awg3 := (ib_awg3 ib)\<lparr>ab_header_protection_key := Some k\<rparr>\<rparr>))
      else if key = ''ContentPaddingAddition'' \<and> ab_content_padding_addition (ib_awg3 ib) = None
      then and_then (parse_u32_range value) (\<lambda>v.
             Ok (ib\<lparr>ib_awg3 := (ib_awg3 ib)\<lparr>ab_content_padding_addition := Some v\<rparr>\<rparr>))
      else
        (case map_of awg_fields key of
           Some (kind, uapi_key) \<Rightarrow>
             and_then (parse_awg kind (ib_awg3 ib) uapi_key value) (\<lambda>b. Ok (ib\<lparr>ib_awg3 := b\<rparr>))
         | None \<Rightarrow>
             if key \<in> {''PrivateKey'', ''Address'', ''DNS'', ''MTU'', ''ListenPort'',
                        ''HeaderProtectionKey'', ''ContentPaddingAddition''}
             then Err InvalidStructure
             else Err UnsupportedField))"

definition parse_peer_field ::
  "('net, 'z) config_api_scheme \<Rightarrow> 'net peer_builder \<Rightarrow> string \<Rightarrow> string \<Rightarrow>
   (configuration_error, 'net peer_builder) result" where
  "parse_peer_field api peer key value =
     (if key = ''PublicKey'' \<and> pb_public_key peer = None
      then and_then (parse_key api value) (\<lambda>k. Ok (peer\<lparr>pb_public_key := Some k\<rparr>))
      else if key = ''PresharedKey'' \<and> pb_preshared_key peer = None
      then and_then (parse_key api value) (\<lambda>k. Ok (peer\<lparr>pb_preshared_key := Some k\<rparr>))
      else if key = ''AllowedIPs'' \<and> pb_allowed_ips peer = []
      then and_then (parse_list (ipnet_parse api) value) (\<lambda>l. Ok (peer\<lparr>pb_allowed_ips := l\<rparr>))
      else if key = ''Endpoint'' \<and> pb_endpoint peer = None
      then and_then (parse_endpoint value) (\<lambda>e. Ok (peer\<lparr>pb_endpoint := Some e\<rparr>))
      else if key = ''PersistentKeepalive'' \<and> pb_persistent_keepalive peer = None
      then and_then (ok_or InvalidValue (parse_uint 16 value)) (\<lambda>k.
             Ok (peer\<lparr>pb_persistent_keepalive := Some k\<rparr>))
      else if key \<in> {''PublicKey'', ''PresharedKey'', ''AllowedIPs'', ''Endpoint'',
                      ''PersistentKeepalive''}
      then Err InvalidStructure
      else Err UnsupportedField)"

section \<open>The parser\<close>

record 'net parser_state =
  ps_interface :: "'net interface_builder"
  ps_peers :: "'net parsed_peer list"
  ps_section :: "'net config_section"

text \<open>\<^verbatim>\<open>finish_peer\<close> takes the section out, so the section is empty afterwards.\<close>

definition finish_peer :: "'net parser_state \<Rightarrow> (configuration_error, 'net parser_state) result" where
  "finish_peer st =
     (case ps_section st of
        PeerSection peer \<Rightarrow>
          and_then (ok_or MissingField (pb_public_key peer)) (\<lambda>key.
          if pb_allowed_ips peer = [] then Err MissingField
          else
            and_then (ok_or MissingField (pb_endpoint peer)) (\<lambda>e.
              Ok (st\<lparr>ps_section := NoSection,
                     ps_peers := ps_peers st
                       @ [\<lparr>pp_public_key = key, pp_preshared_key = pb_preshared_key peer,
                           pp_allowed_ips = pb_allowed_ips peer, pp_endpoint = e,
                           pp_persistent_keepalive = pb_persistent_keepalive peer\<rparr>]\<rparr>)))
      | _ \<Rightarrow> Ok (st\<lparr>ps_section := NoSection\<rparr>))"

definition unsafe_keys :: "string list" where
  "unsafe_keys = [''PreUp'', ''PostUp'', ''PreDown'', ''PostDown'', ''Table'', ''SaveConfig'']"

definition parse_field ::
  "('net, 'z) config_api_scheme \<Rightarrow> 'net parser_state \<Rightarrow> string \<Rightarrow> string \<Rightarrow>
   (configuration_error, 'net parser_state) result" where
  "parse_field api st key value =
     (case ps_section st of
        InterfaceSection \<Rightarrow>
          and_then (parse_interface_field api (ps_interface st) key value) (\<lambda>ib.
            Ok (st\<lparr>ps_interface := ib\<rparr>))
      | PeerSection peer \<Rightarrow>
          and_then (parse_peer_field api peer key value) (\<lambda>p. Ok (st\<lparr>ps_section := PeerSection p\<rparr>))
      | NoSection \<Rightarrow> Err InvalidStructure)"

text \<open>\<open>parse_trimmed\<close> is the body of the loop after \<^verbatim>\<open>let line = raw_line.trim()\<close>.\<close>

definition parse_trimmed ::
  "('net, 'z) config_api_scheme \<Rightarrow> 'net parser_state \<Rightarrow> string \<Rightarrow>
   (configuration_error, 'net parser_state) result" where
  "parse_trimmed api st line =
     (if line = [] \<or> starts_with_char (CHR ''#'') line then Ok st
      else if line = ''[Interface]''
      then and_then (finish_peer st) (\<lambda>st1. Ok (st1\<lparr>ps_section := InterfaceSection\<rparr>))
      else if line = ''[Peer]''
      then and_then (finish_peer st) (\<lambda>st1.
             Ok (st1\<lparr>ps_section := PeerSection default_peer_builder\<rparr>))
      else if starts_with_char (CHR ''['') line then Err InvalidStructure
      else
        (case split_once (CHR ''='') line of
           None \<Rightarrow> Err InvalidStructure
         | Some (raw_key, raw_value) \<Rightarrow>
             (let key = trim raw_key; value = trim raw_value in
              if value = [] then Err InvalidValue
              else if key \<in> set unsafe_keys then Err UnsafeDirective
              else parse_field api st key value)))"

fun parse_lines ::
  "('net, 'z) config_api_scheme \<Rightarrow> 'net parser_state \<Rightarrow> string list \<Rightarrow>
   (configuration_error, 'net parser_state) result" where
  "parse_lines api st [] = Ok st"
| "parse_lines api st (l # ls) = and_then (parse_trimmed api st (trim l)) (\<lambda>st1. parse_lines api st1 ls)"

definition finish_configuration ::
  "'net parser_state \<Rightarrow> (configuration_error, 'net parsed_configuration) result" where
  "finish_configuration st =
     and_then (finish_peer st) (\<lambda>st1.
     let ib = ps_interface st1 in
     and_then (ok_or MissingField (ib_private_key ib)) (\<lambda>private_key.
     if ib_addresses ib = [] \<or> ps_peers st1 = [] then Err MissingField
     else
       and_then (awg3_finish (ib_awg3 ib)) (\<lambda>awg3.
         Ok \<lparr>pc_private_key = private_key, pc_addresses = ib_addresses ib, pc_dns = ib_dns ib,
             pc_mtu = ib_mtu ib, pc_listen_port = ib_listen_port ib, pc_peers = ps_peers st1,
             pc_transport = (if awg3 \<noteq> None then AmneziaWg3 else WireGuard),
             pc_awg3 = awg3\<rparr>)))"

definition initial_parser_state :: "'net parser_state" where
  "initial_parser_state =
     \<lparr>ps_interface = default_interface_builder, ps_peers = [], ps_section = NoSection\<rparr>"

definition parse_configuration ::
  "('net, 'z) config_api_scheme \<Rightarrow> string \<Rightarrow>
   (configuration_error, 'net parsed_configuration) result" where
  "parse_configuration api input =
     and_then (parse_lines api initial_parser_state (str_lines input)) finish_configuration"

section \<open>Parsing the view of a text\<close>

fun parse_view ::
  "('net, 'z) config_api_scheme \<Rightarrow> 'net parser_state \<Rightarrow> string list \<Rightarrow>
   (configuration_error, 'net parser_state) result" where
  "parse_view api st [] = Ok st"
| "parse_view api st (t # ts) = and_then (parse_trimmed api st t) (\<lambda>st1. parse_view api st1 ts)"

lemma parse_trimmed_Nil [simp]: "parse_trimmed api st [] = Ok st"
  by (simp add: parse_trimmed_def)

lemma parse_lines_view:
  "parse_lines api st ls = parse_view api st (filter (\<lambda>l. l \<noteq> []) (map trim ls))"
  by (induction ls arbitrary: st) simp_all

lemma parse_configuration_view:
  "parse_configuration api input =
     and_then (parse_view api initial_parser_state (line_view input)) finish_configuration"
  by (simp add: parse_configuration_def parse_lines_view line_view_def)

lemma parse_view_filter: "parse_view api st (filter (\<lambda>l. l \<noteq> []) ts) = parse_view api st ts"
  by (induction ts arbitrary: st) simp_all

text \<open>An accepted line is blank or a comment, opens one of the two sections, or sets a field.\<close>

lemma parse_trimmed_cases:
  assumes "parse_trimmed api st t = Ok st'"
  obtains (skip) "st' = st" and "t = [] \<or> starts_with_char (CHR ''#'') t"
  | (sect) st1 where "finish_peer st = Ok st1" and "t = ''[Interface]''"
      and "st' = st1\<lparr>ps_section := InterfaceSection\<rparr>"
  | (peer) st1 where "finish_peer st = Ok st1" and "t = ''[Peer]''"
      and "st' = st1\<lparr>ps_section := PeerSection default_peer_builder\<rparr>"
  | (field) k v where "split_once (CHR ''='') t = Some (k, v)" and "trim v \<noteq> []"
      and "\<not> starts_with_char (CHR ''['') t" and "t \<noteq> []" and "\<not> starts_with_char (CHR ''#'') t"
      and "trim k \<notin> set unsafe_keys" and "parse_field api st (trim k) (trim v) = Ok st'"
  using assms that
  by (auto simp: parse_trimmed_def Let_def split: if_splits option.splits)

lemma parse_field_cases:
  assumes "parse_field api st key value = Ok st'"
  obtains (interface) ib where "ps_section st = InterfaceSection"
      and "parse_interface_field api (ps_interface st) key value = Ok ib"
      and "st' = st\<lparr>ps_interface := ib\<rparr>"
  | (peer) p p' where "ps_section st = PeerSection p" and "parse_peer_field api p key value = Ok p'"
      and "st' = st\<lparr>ps_section := PeerSection p'\<rparr>"
  using assms that by (auto simp: parse_field_def split: config_section.splits)

lemma finish_peer_cases:
  assumes "finish_peer st = Ok st1"
  obtains (none) "\<forall>p. ps_section st \<noteq> PeerSection p" and "st1 = st\<lparr>ps_section := NoSection\<rparr>"
  | (peer) p key e where "ps_section st = PeerSection p" and "pb_public_key p = Some key"
      and "pb_endpoint p = Some e" and "pb_allowed_ips p \<noteq> []"
      and "st1 = st\<lparr>ps_section := NoSection, ps_peers := ps_peers st
             @ [\<lparr>pp_public_key = key, pp_preshared_key = pb_preshared_key p,
                 pp_allowed_ips = pb_allowed_ips p, pp_endpoint = e,
                 pp_persistent_keepalive = pb_persistent_keepalive p\<rparr>]\<rparr>"
  using assms that
  by (auto simp: finish_peer_def split: config_section.splits if_splits)

lemma finish_peer_interface [simp]: "finish_peer st = Ok st1 \<Longrightarrow> ps_interface st1 = ps_interface st"
  by (erule finish_peer_cases) simp_all

section \<open>The section of a line\<close>

abbreviation in_if :: "'net parser_state \<Rightarrow> bool" where
  "in_if st \<equiv> ps_section st = InterfaceSection"

lemma section_name_starts: "section_name t = Some n \<Longrightarrow> starts_with_char (CHR ''['') t"
  by (auto simp: section_name_def bind_eq_Some_conv strip_prefix_char_Some_iff starts_with_char_def)

lemma section_name_hash: "starts_with_char (CHR ''#'') t \<Longrightarrow> section_name t = None"
  by (cases t) (auto simp: section_name_def strip_prefix_char_def starts_with_char_def)

lemma section_names:
  "enter_section b ''[Interface]''" "\<not> enter_section b ''[Peer]''"
proof -
  have "section_name ''[Interface]'' = Some ''Interface''" "section_name ''[Peer]'' = Some ''Peer''"
    "\<not> eq_ignore_ascii_case ''Peer'' ''Interface''"
    by code_simp+
  then show "enter_section b ''[Interface]''" "\<not> enter_section b ''[Peer]''"
    by (simp_all add: enter_section_def eq_ignore_ascii_case_def)
qed

lemma parse_trimmed_section:
  assumes "parse_trimmed api st t = Ok st'"
  shows "in_if st' = enter_section (in_if st) t"
  using assms
proof (cases rule: parse_trimmed_cases)
  case skip
  then show ?thesis by (auto simp: enter_section_def section_name_hash split: option.split)
next
  case (field k v)
  then have "section_name t = None" using section_name_starts by (cases "section_name t") auto
  moreover from field(7) have "in_if st' = in_if st"
    by (cases rule: parse_field_cases) simp_all
  ultimately show ?thesis by (simp add: enter_section_def)
qed (simp_all add: section_names)

lemma hash_not_dns: "starts_with_char (CHR ''#'') t \<Longrightarrow> \<not> is_dns_line t"
proof -
  assume "starts_with_char (CHR ''#'') t"
  then obtain r where "t = CHR ''#'' # r" by (cases t) (simp_all add: starts_with_char_def)
  moreover have "ascii_lower (CHR ''#'') \<noteq> CHR ''d''" by code_simp
  ultimately show ?thesis using first_byte_not_dns [of "CHR ''#''" r] by (simp add: ws1_def)
qed

section \<open>The keys of the interface section\<close>

definition interface_keys :: "string list" where
  "interface_keys =
     [''PrivateKey'', ''Address'', ''DNS'', ''MTU'', ''ListenPort'', ''HeaderProtectionKey'',
      ''ContentPaddingAddition''] @ map fst awg_fields"

lemma parse_interface_field_key:
  assumes "parse_interface_field api ib key value = Ok ib'"
  shows "key \<in> set interface_keys"
proof (cases "map_of awg_fields key")
  case None
  then show ?thesis
    using assms by (auto simp: parse_interface_field_def interface_keys_def split: if_splits)
next
  case (Some x)
  then show ?thesis by (auto simp: interface_keys_def dest: map_of_SomeD intro: rev_image_eqI)
qed

text \<open>No key of the interface section is another key in different case.\<close>

lemma interface_keys_case:
  assumes "key \<in> set interface_keys"
  shows "to_ascii_lowercase key = ''dns'' \<longleftrightarrow> key = ''DNS''"
    and "to_ascii_lowercase key = ''headerprotectionkey'' \<longleftrightarrow> key = ''HeaderProtectionKey''"
    and "to_ascii_lowercase key = ''contentpaddingaddition'' \<longleftrightarrow> key = ''ContentPaddingAddition''"
proof -
  have len: "to_ascii_lowercase key = s \<Longrightarrow> length key = length s" for s
    by (auto simp: to_ascii_lowercase_def)
  have "list_all (\<lambda>key. if length key = 3 then key = ''DNS'' \<or> key = ''MTU''
      else if length key = 19 then key = ''HeaderProtectionKey''
      else if length key = 22 then key = ''ContentPaddingAddition'' else True) interface_keys"
    by code_simp
  with assms have keys: "length key = 3 \<Longrightarrow> key = ''DNS'' \<or> key = ''MTU''"
      "length key = 19 \<Longrightarrow> key = ''HeaderProtectionKey''"
      "length key = 22 \<Longrightarrow> key = ''ContentPaddingAddition''"
    by (auto simp: list_all_iff)
  have lower: "to_ascii_lowercase ''DNS'' = ''dns''" "to_ascii_lowercase ''MTU'' \<noteq> ''dns''"
    "to_ascii_lowercase ''HeaderProtectionKey'' = ''headerprotectionkey''"
    "to_ascii_lowercase ''ContentPaddingAddition'' = ''contentpaddingaddition''"
    by code_simp+
  show "to_ascii_lowercase key = ''dns'' \<longleftrightarrow> key = ''DNS''"
    using len [of "''dns''"] keys(1) lower by auto
  show "to_ascii_lowercase key = ''headerprotectionkey'' \<longleftrightarrow> key = ''HeaderProtectionKey''"
    using len [of "''headerprotectionkey''"] keys(2) lower by auto
  show "to_ascii_lowercase key = ''contentpaddingaddition'' \<longleftrightarrow> key = ''ContentPaddingAddition''"
    using len [of "''contentpaddingaddition''"] keys(3) lower by auto
qed

lemma map_of_awg_fields:
  "map_of awg_fields ''DNS'' = None" "map_of awg_fields ''HeaderProtectionKey'' = None"
  "map_of awg_fields ''ContentPaddingAddition'' = None"
  by code_simp+

section \<open>The DNS setting and the other lines\<close>

definition set_dns :: "ip_addr list \<Rightarrow> 'net parser_state \<Rightarrow> 'net parser_state" where
  "set_dns d st = st\<lparr>ps_interface := (ps_interface st)\<lparr>ib_dns := d\<rparr>\<rparr>"

definition map_ok :: "('a \<Rightarrow> 'b) \<Rightarrow> ('e, 'a) result \<Rightarrow> ('e, 'b) result" where
  "map_ok f m = and_then m (\<lambda>x. Ok (f x))"

lemma map_ok_simps [simp]: "map_ok f (Err e) = Err e" "map_ok f (Ok x) = Ok (f x)"
  by (simp_all add: map_ok_def)

lemma map_ok_and_then: "map_ok f (and_then m g) = and_then m (\<lambda>x. map_ok f (g x))"
  by (cases m) simp_all

lemma set_dns_simps [simp]:
  "ps_section (set_dns d st) = ps_section st" "ps_peers (set_dns d st) = ps_peers st"
  "ps_interface (set_dns d st) = (ps_interface st)\<lparr>ib_dns := d\<rparr>"
  "set_dns d (set_dns d' st) = set_dns d st"
  by (simp_all add: set_dns_def)

lemma set_dns_updates:
  "(set_dns d st)\<lparr>ps_section := x\<rparr> = set_dns d (st\<lparr>ps_section := x\<rparr>)"
  "(set_dns d st)\<lparr>ps_peers := y\<rparr> = set_dns d (st\<lparr>ps_peers := y\<rparr>)"
  "(set_dns d st)\<lparr>ps_interface := (ib\<lparr>ib_dns := d\<rparr>)\<rparr> = set_dns d (st\<lparr>ps_interface := ib\<rparr>)"
  by (cases st, simp add: set_dns_def)+

lemma finish_peer_set_dns: "finish_peer (set_dns d st) = map_ok (set_dns d) (finish_peer st)"
proof (cases "ps_section st")
  case (PeerSection p)
  then show ?thesis
    by (cases "pb_public_key p"; cases "pb_endpoint p") (simp_all add: finish_peer_def set_dns_updates)
qed (simp_all add: finish_peer_def set_dns_updates)

lemma and_then_map_ok: "and_then m (\<lambda>x. Ok (f (g x))) = map_ok f (and_then m (\<lambda>x. Ok (g x)))"
  by (cases m) simp_all

lemma parse_interface_field_set_dns:
  assumes "key \<noteq> ''DNS''"
  shows "parse_interface_field api (ib\<lparr>ib_dns := d\<rparr>) key value =
    map_ok (\<lambda>ib. ib\<lparr>ib_dns := d\<rparr>) (parse_interface_field api ib key value)"
proof -
  obtain pk ad dn mt lp aw where ib: "ib = \<lparr>ib_private_key = pk, ib_addresses = ad, ib_dns = dn,
      ib_mtu = mt, ib_listen_port = lp, ib_awg3 = aw\<rparr>"
    by (cases ib) simp
  show ?thesis
    using assms
    by (cases "map_of awg_fields key")
      (simp_all only: parse_interface_field_def ib interface_builder.simps map_ok_and_then
        map_ok_simps if_distrib [of "map_ok _"] option.case split_def simp_thms if_False)
qed

lemma parse_field_set_dns:
  assumes "in_if st \<Longrightarrow> key \<noteq> ''DNS''"
  shows "parse_field api (set_dns d st) key v = map_ok (set_dns d) (parse_field api st key v)"
proof (cases "ps_section st")
  case NoSection
  then show ?thesis by (simp add: parse_field_def)
next
  case InterfaceSection
  then have "parse_interface_field api ((ps_interface st)\<lparr>ib_dns := d\<rparr>) key v =
      map_ok (\<lambda>ib. ib\<lparr>ib_dns := d\<rparr>) (parse_interface_field api (ps_interface st) key v)"
    using assms by (intro parse_interface_field_set_dns) simp
  then show ?thesis
    using InterfaceSection
    by (cases "parse_interface_field api (ps_interface st) key v")
      (simp_all add: parse_field_def set_dns_updates)
next
  case (PeerSection p)
  then show ?thesis
    by (cases "parse_peer_field api p key v") (simp_all add: parse_field_def set_dns_updates)
qed

lemma parse_trimmed_set_dns:
  assumes "\<not> (enter_section (in_if st) t \<and> is_dns_line t)"
  shows "parse_trimmed api (set_dns d st) t = map_ok (set_dns d) (parse_trimmed api st t)"
proof -
  consider "t = [] \<or> starts_with_char (CHR ''#'') t" | "t = ''[Interface]''" | "t = ''[Peer]''"
    | "t \<noteq> []" "\<not> starts_with_char (CHR ''#'') t" "t \<noteq> ''[Interface]''" "t \<noteq> ''[Peer]''" by blast
  then show ?thesis
  proof cases
    case 1
    then show ?thesis by (auto simp: parse_trimmed_def)
  next
    case 2
    then show ?thesis
      by (cases "finish_peer st")
        (simp_all add: parse_trimmed_def finish_peer_set_dns starts_with_char_def set_dns_updates)
  next
    case 3
    then show ?thesis
      by (cases "finish_peer st")
        (simp_all add: parse_trimmed_def finish_peer_set_dns starts_with_char_def set_dns_updates)
  next
    case 4
    have "parse_field api (set_dns d st) (trim k) v = map_ok (set_dns d) (parse_field api st (trim k) v)"
      if "split_once (CHR ''='') t = Some (k, w)" "\<not> starts_with_char (CHR ''['') t" for k v w
    proof (rule parse_field_set_dns)
      have "section_name t = None"
        using section_name_starts that(2) by (cases "section_name t") auto
      then show "in_if st \<Longrightarrow> trim k \<noteq> ''DNS''"
        using assms that(1)
        by (auto simp: enter_section_def is_dns_line_def eq_ignore_ascii_case_def)
    qed
    with 4 show ?thesis
      by (auto simp: parse_trimmed_def Let_def split: option.split)
  qed
qed

text \<open>A DNS setting that is accepted in the interface section only sets the servers.\<close>

lemma parse_trimmed_dns:
  assumes "parse_trimmed api st t = Ok st'" and "enter_section (in_if st) t" and "is_dns_line t"
  shows "in_if st \<and> (\<exists>l. st' = set_dns l st)"
  using assms(1)
proof (cases rule: parse_trimmed_cases)
  case skip
  then show ?thesis using assms(3) hash_not_dns by auto
next
  case (sect st1)
  then show ?thesis using assms(3) section_not_dns [of t "''Interface''"]
    by (simp add: section_name_def strip_prefix_char_def strip_suffix_char_def)
next
  case (peer st1)
  then show ?thesis using assms(2) by (simp add: section_names)
next
  case (field k v)
  have "section_name t = None"
    using section_name_starts field(3) by (cases "section_name t") auto
  then have in_if: "in_if st" using assms(2) by (simp add: enter_section_def)
  with field(7) obtain ib where ib: "parse_interface_field api (ps_interface st) (trim k) (trim v) = Ok ib"
      "st' = st\<lparr>ps_interface := ib\<rparr>"
    by (cases rule: parse_field_cases) auto
  have "to_ascii_lowercase ''DNS'' = ''dns''" by code_simp
  then have "to_ascii_lowercase (trim k) = ''dns''"
    using assms(3) field(1) by (simp add: is_dns_line_def eq_ignore_ascii_case_def)
  then have "trim k = ''DNS''"
    using interface_keys_case(1) [OF parse_interface_field_key [OF ib(1)]] by simp
  with ib have "\<exists>l. ib = (ps_interface st)\<lparr>ib_dns := l\<rparr>"
    by (auto simp: parse_interface_field_def map_of_awg_fields split: if_splits)
  with ib(2) in_if show ?thesis by (auto simp: set_dns_def)
qed

lemma parse_view_other_lines:
  assumes "parse_view api st ts = Ok st'"
  shows "parse_view api (set_dns d st) (other_lines (in_if st) ts) = Ok (set_dns d st')"
  using assms
proof (induction ts arbitrary: st)
  case Nil
  then show ?case by simp
next
  case (Cons t ts)
  then obtain st1 where st1: "parse_trimmed api st t = Ok st1" "parse_view api st1 ts = Ok st'"
    by auto
  note sec = parse_trimmed_section [OF st1(1)]
  show ?case
  proof (cases "enter_section (in_if st) t \<and> is_dns_line t")
    case True
    then obtain l where "st1 = set_dns l st" using parse_trimmed_dns [OF st1(1)] by auto
    then have "set_dns d st1 = set_dns d st" by simp
    then show ?thesis using Cons.IH [OF st1(2)] True sec by simp
  next
    case False
    then have "parse_trimmed api (set_dns d st) t = Ok (set_dns d st1)"
      using parse_trimmed_set_dns [OF False, of api d] st1(1) by simp
    with False show ?thesis using Cons.IH [OF st1(2)] sec by auto
  qed
qed

lemma parse_view_no_dns:
  "interface_dns (in_if st) ts = [] \<Longrightarrow>
   parse_view api (set_dns d st) ts = map_ok (set_dns d) (parse_view api st ts)"
proof (induction ts arbitrary: st)
  case Nil
  then show ?case by simp
next
  case (Cons t ts)
  then have t: "\<not> (enter_section (in_if st) t \<and> is_dns_line t)"
    and ts: "interface_dns (enter_section (in_if st) t) ts = []"
    by (simp_all split: if_splits)
  show ?case
  proof (cases "parse_trimmed api st t")
    case (Inl e)
    then show ?thesis using parse_trimmed_set_dns [OF t, of api d] by simp
  next
    case (Inr st1)
    then show ?thesis
      using parse_trimmed_set_dns [OF t, of api d] Cons.IH [of st1] ts
        parse_trimmed_section [OF Inr]
      by simp
  qed
qed

lemma other_lines_no_dns: "interface_dns b ts = [] \<Longrightarrow> other_lines b ts = ts"
  by (induction ts arbitrary: b) (auto split: if_splits)

section \<open>Parsing the inserted setting\<close>

lemma trim_show_ip: "trim (show_ip a) = show_ip a"
proof (rule trim_ascii_ends)
  have "hd (show_ip a) \<in> set (show_ip a)" "last (show_ip a) \<in> set (show_ip a)"
    by (simp_all add: show_ip_not_Nil)
  then show "\<not> ws1 (hd (show_ip a))" "byte_of (hd (show_ip a)) < 128"
    "\<not> ws1 (last (show_ip a))" "byte_of (last (show_ip a)) < 128"
    using address_char(1,2) show_ip_chars by metis+
qed (rule show_ip_not_Nil)

lemma trim_space_Cons: "trim (CHR '' '' # s) = trim s"
  by (simp add: trim_def trim_start_def ws1_def)

lemma split_addresses:
  "servers \<noteq> [] \<Longrightarrow>
   map trim (split_on (CHR '','') (join '', '' (map show_ip servers))) = map show_ip servers"
proof (induction servers rule: induct_list012)
  case (2 a)
  then show ?case by (simp add: split_on_absent show_ip_no_separator trim_show_ip)
next
  case (3 a b servers)
  have "map trim (split_on (CHR '','') (CHR '' '' # s)) = map trim (split_on (CHR '','') s)" for s
    by (cases "split_on (CHR '','') s") (simp_all add: trim_space_Cons)
  with 3 show ?case by (simp add: split_on_append show_ip_no_separator trim_show_ip)
qed simp

lemma parse_list_addresses:
  "servers \<noteq> [] \<Longrightarrow> parse_list parse_ip (join '', '' (map show_ip servers)) = Ok servers"
proof -
  assume "servers \<noteq> []"
  then have "parse_list parse_ip (join '', '' (map show_ip servers)) =
      collect_results (\<lambda>entry. if entry = [] then Err InvalidValue
        else ok_or InvalidValue (parse_ip entry)) (map show_ip servers)"
    by (simp add: parse_list_def split_addresses)
  also have "\<dots> = Ok servers"
    by (induction servers) (simp_all add: show_ip_not_Nil)
  finally show ?thesis .
qed

lemma join_addresses_ends:
  assumes "servers \<noteq> []"
  shows "trim (join '', '' (map show_ip servers)) = join '', '' (map show_ip servers)"
proof (rule trim_ascii_ends)
  let ?s = "join '', '' (map show_ip servers)"
  have ne: "last (map show_ip servers) \<noteq> []" "map show_ip servers \<noteq> []"
    using assms show_ip_not_Nil by (simp_all add: last_map)
  show "?s \<noteq> []" using join_not_Nil [OF ne(2,1)] .
  have "last ?s = last (show_ip (last servers))"
    using last_join [OF ne(2,1)] assms by (simp add: last_map)
  moreover have "hd ?s = hd (show_ip (hd servers))"
    using assms show_ip_not_Nil by (cases servers; cases "tl servers") auto
  ultimately show "\<not> ws1 (hd ?s)" "byte_of (hd ?s) < 128" "\<not> ws1 (last ?s)" "byte_of (last ?s) < 128"
    using address_char(1,2) show_ip_chars show_ip_not_Nil hd_in_set last_in_set by metis+
qed

lemma parse_trimmed_dns_setting:
  assumes "in_if st" and "servers \<noteq> []"
  shows "parse_trimmed api (set_dns [] st) (dns_setting servers) = Ok (set_dns servers st)"
proof -
  let ?v = "join '', '' (map show_ip servers)"
  have split: "split_once (CHR ''='') (dns_setting servers) = Some (''DNS '', CHR '' '' # ?v)"
    by (simp add: dns_setting_def)
  have starts: "\<not> starts_with_char (CHR ''#'') (dns_setting servers)"
    "\<not> starts_with_char (CHR ''['') (dns_setting servers)" "dns_setting servers \<noteq> []"
    "dns_setting servers \<noteq> ''[Interface]''" "dns_setting servers \<noteq> ''[Peer]''"
    by (simp_all add: dns_setting_def starts_with_char_def)
  have val: "trim (CHR '' '' # ?v) = ?v"
    using join_addresses_ends [OF assms(2)] by (simp add: trim_space_Cons)
  have key: "trim ''DNS '' = ''DNS''" "''DNS'' \<notin> set unsafe_keys"
    by code_simp+
  have ne: "?v \<noteq> []"
    using join_not_Nil [of "map show_ip servers"] assms(2) show_ip_not_Nil by (simp add: last_map)
  have "parse_interface_field api ((ps_interface st)\<lparr>ib_dns := []\<rparr>) ''DNS'' ?v =
      Ok ((ps_interface st)\<lparr>ib_dns := servers\<rparr>)"
    by (simp add: parse_interface_field_def parse_list_addresses [OF assms(2)])
  then have "parse_field api (set_dns [] st) ''DNS'' ?v = Ok (set_dns servers st)"
    using assms(1) by (simp add: parse_field_def set_dns_def)
  then show ?thesis
    using split starts val key ne by (simp add: parse_trimmed_def Let_def)
qed

lemma parse_view_insert_dns:
  assumes "parse_view api (set_dns [] st) (other_lines (in_if st) ts) = Ok st'"
    and "interface_dns (in_if st) ts = [dns_setting servers]" and "servers \<noteq> []"
  shows "parse_view api (set_dns [] st) ts = Ok (set_dns servers st')"
  using assms
proof (induction ts arbitrary: st)
  case Nil
  then show ?case by simp
next
  case (Cons t ts)
  show ?case
  proof (cases "enter_section (in_if st) t \<and> is_dns_line t")
    case True
    then have t: "t = dns_setting servers" and rest: "interface_dns True ts = []"
      using Cons.prems(2) by simp_all
    have in_if: "in_if st"
      using True by (simp add: t enter_section_def dns_setting_line)
    have "parse_view api (set_dns [] st) ts = Ok st'"
      using Cons.prems(1) True other_lines_no_dns [OF rest] by simp
    then have "parse_view api (set_dns servers (set_dns [] st)) ts = Ok (set_dns servers st')"
      using parse_view_no_dns [of "set_dns [] st" ts api servers] rest in_if by simp
    then show ?thesis
      using parse_trimmed_dns_setting [OF in_if Cons.prems(3), of api] by (simp add: t)
  next
    case False
    then obtain st1 where st1: "parse_trimmed api st t = Ok st1"
        "parse_view api (set_dns [] st1) (other_lines (enter_section (in_if st) t) ts) = Ok st'"
      using Cons.prems(1) parse_trimmed_set_dns [OF False, of api "[]"]
      by (cases "parse_trimmed api st t") auto
    then show ?thesis
      using Cons.IH [of st1] Cons.prems(2,3) False parse_trimmed_set_dns [OF False, of api "[]"]
        parse_trimmed_section [OF st1(1)]
      by auto
  qed
qed

lemma parse_view_needs_interface:
  assumes "parse_view api st ts = Ok st'" and "\<not> has_interface ts" and "\<not> in_if st"
  shows "ps_interface st' = ps_interface st"
  using assms
proof (induction ts arbitrary: st)
  case Nil
  then show ?case by simp
next
  case (Cons t ts)
  then obtain st1 where st1: "parse_trimmed api st t = Ok st1" "parse_view api st1 ts = Ok st'"
    by auto
  have "\<not> enter_section False t" "\<not> has_interface ts"
    using Cons.prems(2) by (auto simp: has_interface_def enter_section_def split: option.splits)
  then have "\<not> in_if st1" using parse_trimmed_section [OF st1(1)] Cons.prems(3) by simp
  moreover from st1(1) have "ps_interface st1 = ps_interface st"
  proof (cases rule: parse_trimmed_cases)
    case (field k v)
    from field(7) show ?thesis by (cases rule: parse_field_cases) (use Cons.prems(3) in simp_all)
  qed simp_all
  ultimately show ?case using Cons.IH [OF st1(2)] \<open>\<not> has_interface ts\<close> by simp
qed

lemma finish_configuration_set_dns:
  "finish_configuration st = Ok c \<Longrightarrow> finish_configuration (set_dns d st) = Ok (c\<lparr>pc_dns := d\<rparr>)"
  by (auto simp: finish_configuration_def finish_peer_set_dns Let_def split: if_splits)

section \<open>Well-formed configurations\<close>

definition awg_uapi_keys :: "string list" where
  "awg_uapi_keys = map (\<lambda>(_, _, k). k) awg_fields"

text \<open>Values that are passed on to the control socket are printable ASCII on one line.\<close>

definition plain_value :: "string \<Rightarrow> bool" where
  "plain_value v \<longleftrightarrow> list_all (\<lambda>b. is_ascii_graphic b \<or> b = CHR '' '') v"

definition wf_key :: "secret_key option \<Rightarrow> bool" where
  "wf_key k \<longleftrightarrow> (case k of None \<Rightarrow> True | Some bytes \<Rightarrow> length bytes = 32)"

definition wf_awg3 :: "awg3_builder \<Rightarrow> bool" where
  "wf_awg3 b \<longleftrightarrow>
     wf_key (ab_header_protection_key b)
     \<and> (case ab_content_padding_addition b of None \<Rightarrow> True | Some v \<Rightarrow> plain_value v)
     \<and> distinct (map fst (ab_fields b))
     \<and> set (map fst (ab_fields b)) = set (ab_seen b)
     \<and> set (ab_seen b) \<subseteq> set awg_uapi_keys
     \<and> list_all (\<lambda>(k, v). plain_value v) (ab_fields b)"

definition wf_interface :: "'net interface_builder \<Rightarrow> bool" where
  "wf_interface ib \<longleftrightarrow>
     wf_key (ib_private_key ib)
     \<and> (case ib_mtu ib of None \<Rightarrow> True | Some m \<Rightarrow> 576 \<le> m \<and> m \<le> 65535)
     \<and> (case ib_listen_port ib of None \<Rightarrow> True | Some p \<Rightarrow> 0 < p \<and> p < 65536)
     \<and> wf_awg3 (ib_awg3 ib)"

definition wf_endpoint :: "endpoint \<Rightarrow> bool" where
  "wf_endpoint e \<longleftrightarrow>
     ep_host e \<noteq> [] \<and> \<not> any_whitespace (ep_host e) \<and> CHR ''/'' \<notin> set (ep_host e)
     \<and> CHR 0x5C \<notin> set (ep_host e) \<and> 0 < ep_port e \<and> ep_port e < 65536"

definition wf_peer_builder :: "'net peer_builder \<Rightarrow> bool" where
  "wf_peer_builder p \<longleftrightarrow>
     wf_key (pb_public_key p) \<and> wf_key (pb_preshared_key p)
     \<and> (case pb_endpoint p of None \<Rightarrow> True | Some e \<Rightarrow> wf_endpoint e)
     \<and> (case pb_persistent_keepalive p of None \<Rightarrow> True | Some k \<Rightarrow> k < 65536)"

definition wf_peer :: "'net parsed_peer \<Rightarrow> bool" where
  "wf_peer p \<longleftrightarrow>
     length (pp_public_key p) = 32 \<and> wf_key (pp_preshared_key p) \<and> pp_allowed_ips p \<noteq> []
     \<and> wf_endpoint (pp_endpoint p)
     \<and> (case pp_persistent_keepalive p of None \<Rightarrow> True | Some k \<Rightarrow> k < 65536)"

definition wf_state :: "'net parser_state \<Rightarrow> bool" where
  "wf_state st \<longleftrightarrow>
     wf_interface (ps_interface st) \<and> list_all wf_peer (ps_peers st)
     \<and> (case ps_section st of PeerSection p \<Rightarrow> wf_peer_builder p | _ \<Rightarrow> True)"

definition wf_awg3_parameters :: "awg3_parameters \<Rightarrow> bool" where
  "wf_awg3_parameters p \<longleftrightarrow>
     length (ap_header_protection_key p) = 32
     \<and> distinct (map fst (ap_fields p))
     \<and> set (map fst (ap_fields p)) \<subseteq> insert ''content_padding_addition'' (set awg_uapi_keys)
     \<and> list_all (\<lambda>(k, v). plain_value v) (ap_fields p)"

definition wf_configuration :: "'net parsed_configuration \<Rightarrow> bool" where
  "wf_configuration c \<longleftrightarrow>
     length (pc_private_key c) = 32 \<and> pc_addresses c \<noteq> []
     \<and> (case pc_mtu c of None \<Rightarrow> True | Some m \<Rightarrow> 576 \<le> m \<and> m \<le> 65535)
     \<and> (case pc_listen_port c of None \<Rightarrow> True | Some p \<Rightarrow> 0 < p \<and> p < 65536)
     \<and> pc_peers c \<noteq> [] \<and> list_all wf_peer (pc_peers c)
     \<and> (pc_transport c = AmneziaWg3 \<longleftrightarrow> pc_awg3 c \<noteq> None)
     \<and> (case pc_awg3 c of None \<Rightarrow> True | Some p \<Rightarrow> wf_awg3_parameters p)"

lemma plain_digits: "list_all is_ascii_digit s \<Longrightarrow> plain_value s"
  by (auto simp: plain_value_def list_all_iff is_ascii_digit_def is_ascii_graphic_def)

lemma plain_value_append [simp]: "plain_value (a @ b) \<longleftrightarrow> plain_value a \<and> plain_value b"
  by (simp add: plain_value_def)

lemma plain_parse_uint: "parse_uint bits s = Some n \<Longrightarrow> plain_value s"
proof -
  assume "parse_uint bits s = Some n"
  then have "list_all is_ascii_digit s \<or> (\<exists>ds. s = CHR ''+'' # ds \<and> list_all is_ascii_digit ds)"
    by (auto simp: parse_uint_def Let_def split: if_splits list.splits)
  then show ?thesis
  proof
    assume "\<exists>ds. s = CHR ''+'' # ds \<and> list_all is_ascii_digit ds"
    then obtain ds where "s = CHR ''+'' # ds" "plain_value ds" using plain_digits by blast
    then show ?thesis by (simp add: plain_value_def is_ascii_graphic_def)
  qed (rule plain_digits)
qed

lemma parse_u32_range_Ok:
  assumes "parse_u32_range v = Ok r"
  obtains lo hi where "lo \<le> hi" and "hi < 2 ^ 32"
    and "r = (if lo = hi then show_nat lo else show_nat lo @ ''-'' @ show_nat hi)"
proof -
  obtain a b where ab: "(case split_once (CHR ''-'') v of Some p \<Rightarrow> p | None \<Rightarrow> (v, v)) = (a, b)"
    by fastforce
  from assms ab obtain lo hi where "parse_uint 32 b = Some hi"
      "(if lo > hi then Err InvalidValue
        else Ok (if lo = hi then show_nat lo else show_nat lo @ ''-'' @ show_nat hi)) = Ok r"
    unfolding parse_u32_range_def by auto
  then show thesis
    using that [of lo hi] parse_uint_bound [of 32 b hi] by (cases "lo > hi") simp_all
qed

lemma plain_range: "parse_u32_range v = Ok r \<Longrightarrow> plain_value r"
proof (erule parse_u32_range_Ok)
  fix lo hi
  assume r: "r = (if lo = hi then show_nat lo else show_nat lo @ ''-'' @ show_nat hi)"
  have "plain_value ''-''" by (simp add: plain_value_def is_ascii_graphic_def)
  moreover have "plain_value (show_nat lo)" "plain_value (show_nat hi)"
    by (intro plain_digits show_nat_digits)+
  ultimately have "plain_value (show_nat lo @ ''-'' @ show_nat hi)" by (simp only: plain_value_append)
  with \<open>plain_value (show_nat lo)\<close> show ?thesis unfolding r by presburger
qed

lemma insert_field_wf:
  assumes "insert_field b k v = Ok b'" and "wf_awg3 b" and "plain_value v"
    and "k \<in> set awg_uapi_keys"
  shows "wf_awg3 b'"
proof -
  have "k \<notin> set (ab_seen b)"
    and b': "b' = b\<lparr>ab_seen := k # ab_seen b, ab_fields := ab_fields b @ [(k, v)]\<rparr>"
    using assms(1) by (auto simp: insert_field_def split: if_splits)
  then show ?thesis using assms(2-4) by (simp add: wf_awg3_def)
qed

lemma parse_awg_wf:
  assumes "parse_awg kind b k v = Ok b'" and "wf_awg3 b" and "k \<in> set awg_uapi_keys"
  shows "wf_awg3 b'"
proof -
  have "\<exists>v'. insert_field b k v' = Ok b' \<and> plain_value v'"
  proof (cases kind)
    case AwgU32
    then show ?thesis
      using assms(1) plain_parse_uint [of 32 v] by (auto simp: parse_awg_u32_def split: option.splits)
  next
    case AwgU16
    then show ?thesis
      using assms(1) plain_parse_uint [of 16 v] by (auto simp: parse_awg_u16_def split: option.splits)
  next
    case AwgRange
    then show ?thesis
      using assms(1) plain_range [of v] by (auto simp: parse_awg_range_def)
  next
    case AwgTemplate
    then show ?thesis
      using assms(1) by (auto simp: parse_awg_template_def plain_value_def split: if_splits)
  qed
  then show ?thesis using insert_field_wf assms(2,3) by blast
qed

lemma parse_key_wf: "parse_key api v = Ok k \<Longrightarrow> wf_key (Some k)"
  by (auto simp: parse_key_def wf_key_def split: option.splits if_splits)

lemma parse_nonzero_port_bounds: "parse_nonzero_port v = Ok p \<Longrightarrow> 0 < p \<and> p < 65536"
  using parse_uint_bound [of 16 v]
  by (auto simp: parse_nonzero_port_def split: option.splits if_splits)

lemma parse_interface_field_cases:
  assumes "parse_interface_field api ib key v = Ok ib'"
  shows "(\<exists>k. wf_key (Some k) \<and> ib' = ib\<lparr>ib_private_key := Some k\<rparr>)
    \<or> (\<exists>l. ib' = ib\<lparr>ib_addresses := l\<rparr>) \<or> (\<exists>l. ib' = ib\<lparr>ib_dns := l\<rparr>)
    \<or> (\<exists>m. 576 \<le> m \<and> m \<le> 65535 \<and> ib' = ib\<lparr>ib_mtu := Some m\<rparr>)
    \<or> (\<exists>p. 0 < p \<and> p < 65536 \<and> ib' = ib\<lparr>ib_listen_port := Some p\<rparr>)
    \<or> (\<exists>k. key = ''HeaderProtectionKey'' \<and> wf_key (Some k)
         \<and> ib' = ib\<lparr>ib_awg3 := (ib_awg3 ib)\<lparr>ab_header_protection_key := Some k\<rparr>\<rparr>)
    \<or> (\<exists>r. key = ''ContentPaddingAddition'' \<and> plain_value r
         \<and> ib' = ib\<lparr>ib_awg3 := (ib_awg3 ib)\<lparr>ab_content_padding_addition := Some r\<rparr>\<rparr>)
    \<or> (\<exists>kind k b. map_of awg_fields key = Some (kind, k) \<and> parse_awg kind (ib_awg3 ib) k v = Ok b
         \<and> ib' = ib\<lparr>ib_awg3 := b\<rparr>)" (is "?A \<or> ?B \<or> ?C \<or> ?D \<or> ?E \<or> ?F \<or> ?G \<or> ?H")
proof -
  have a: "?A" if "and_then (parse_key api v) (\<lambda>k. Ok (ib\<lparr>ib_private_key := Some k\<rparr>)) = Ok ib'"
    using that by (auto dest: parse_key_wf)
  have d: "?D" if "and_then (ok_or InvalidValue (parse_uint 32 v)) (\<lambda>mtu.
             if \<not> (576 \<le> mtu \<and> mtu \<le> 65535) then Err InvalidValue
             else Ok (ib\<lparr>ib_mtu := Some mtu\<rparr>)) = Ok ib'"
    using that by (auto split: if_splits)
  have e: "?E" if "and_then (parse_nonzero_port v) (\<lambda>p. Ok (ib\<lparr>ib_listen_port := Some p\<rparr>)) = Ok ib'"
    using that by (auto dest: parse_nonzero_port_bounds)
  have f: "?F" if "key = ''HeaderProtectionKey''" "and_then (parse_key api v) (\<lambda>k.
             Ok (ib\<lparr>ib_awg3 := (ib_awg3 ib)\<lparr>ab_header_protection_key := Some k\<rparr>\<rparr>)) = Ok ib'"
    using that by (auto dest: parse_key_wf)
  have g: "?G" if "key = ''ContentPaddingAddition''" "and_then (parse_u32_range v) (\<lambda>v.
             Ok (ib\<lparr>ib_awg3 := (ib_awg3 ib)\<lparr>ab_content_padding_addition := Some v\<rparr>\<rparr>)) = Ok ib'"
    using that by (auto dest: plain_range)
  have h: "?H" if "(case map_of awg_fields key of
           Some (kind, uapi_key) \<Rightarrow>
             and_then (parse_awg kind (ib_awg3 ib) uapi_key v) (\<lambda>b. Ok (ib\<lparr>ib_awg3 := b\<rparr>))
         | None \<Rightarrow>
             if key \<in> {''PrivateKey'', ''Address'', ''DNS'', ''MTU'', ''ListenPort'',
                        ''HeaderProtectionKey'', ''ContentPaddingAddition''}
             then Err InvalidStructure
             else Err UnsupportedField) = Ok ib'"
    using that by (auto split: option.splits if_splits)
  have b: "?B" if "and_then (parse_list (ipnet_parse api) v) (\<lambda>l. Ok (ib\<lparr>ib_addresses := l\<rparr>)) = Ok ib'"
    using that by auto
  have c: "?C" if "and_then (parse_list parse_ip v) (\<lambda>l. Ok (ib\<lparr>ib_dns := l\<rparr>)) = Ok ib'"
    using that by auto
  show ?thesis
    using assms a b c d e f g h unfolding parse_interface_field_def
    by argo
qed

lemma parse_interface_field_wf:
  assumes ok: "parse_interface_field api ib key v = Ok ib'" and wf: "wf_interface ib"
  shows "wf_interface ib'"
proof -
  have "wf_awg3 b" if "map_of awg_fields key = Some (kind, k)" "parse_awg kind (ib_awg3 ib) k v = Ok b"
    for kind k b
  proof -
    have "k \<in> set awg_uapi_keys"
      using map_of_SomeD [OF that(1)] by (force simp: awg_uapi_keys_def)
    then show ?thesis using parse_awg_wf [OF that(2)] wf by (simp add: wf_interface_def)
  qed
  moreover have "wf_awg3 ((ib_awg3 ib)\<lparr>ab_header_protection_key := Some k\<rparr>)" if "wf_key (Some k)" for k
    using that wf by (simp add: wf_interface_def wf_awg3_def)
  moreover have "wf_awg3 ((ib_awg3 ib)\<lparr>ab_content_padding_addition := Some r\<rparr>)" if "plain_value r" for r
    using that wf by (simp add: wf_interface_def wf_awg3_def)
  ultimately show ?thesis
    using parse_interface_field_cases [OF ok] wf by (elim disjE exE conjE) (simp_all add: wf_interface_def)
qed


lemma parse_endpoint_wf: "parse_endpoint v = Ok e \<Longrightarrow> wf_endpoint e"
proof -
  assume "parse_endpoint v = Ok e"
  then obtain host port p where "\<not> (host = [] \<or> any_whitespace host \<or> CHR ''/'' \<in> set host \<or> CHR 0x5C \<in> set host)"
      "parse_nonzero_port port = Ok p" "e = \<lparr>ep_host = host, ep_port = p\<rparr>"
    unfolding parse_endpoint_def by (auto split: if_splits)
  then show ?thesis using parse_nonzero_port_bounds [of port p] by (simp add: wf_endpoint_def)
qed

lemma parse_peer_field_wf:
  assumes "parse_peer_field api p key v = Ok p'" and wf: "wf_peer_builder p"
  shows "wf_peer_builder p'"
proof -
  have a: "wf_peer_builder p'"
    if "and_then (parse_key api v) (\<lambda>k. Ok (p\<lparr>pb_public_key := Some k\<rparr>)) = Ok p'"
    using that wf by (auto simp: wf_peer_builder_def dest: parse_key_wf)
  have b: "wf_peer_builder p'"
    if "and_then (parse_key api v) (\<lambda>k. Ok (p\<lparr>pb_preshared_key := Some k\<rparr>)) = Ok p'"
    using that wf by (auto simp: wf_peer_builder_def dest: parse_key_wf)
  have c: "wf_peer_builder p'"
    if "and_then (parse_list (ipnet_parse api) v) (\<lambda>l. Ok (p\<lparr>pb_allowed_ips := l\<rparr>)) = Ok p'"
    using that wf by (auto simp: wf_peer_builder_def)
  have d: "wf_peer_builder p'"
    if "and_then (parse_endpoint v) (\<lambda>e. Ok (p\<lparr>pb_endpoint := Some e\<rparr>)) = Ok p'"
    using that wf by (auto simp: wf_peer_builder_def dest: parse_endpoint_wf)
  have e: "wf_peer_builder p'"
    if "and_then (ok_or InvalidValue (parse_uint 16 v)) (\<lambda>k.
             Ok (p\<lparr>pb_persistent_keepalive := Some k\<rparr>)) = Ok p'"
    using that wf parse_uint_bound [of 16 v] by (auto simp: wf_peer_builder_def)
  show ?thesis
    using assms(1) a b c d e unfolding parse_peer_field_def by (simp split: if_splits)
qed

lemma finish_peer_wf:
  assumes "finish_peer st = Ok st1" and "wf_state st"
  shows "wf_state st1"
  using assms(1)
proof (cases rule: finish_peer_cases)
  case none
  with assms(2) show ?thesis by (simp add: wf_state_def)
next
  case (peer p key e)
  with assms(2) show ?thesis
    by (simp add: wf_state_def wf_peer_def wf_peer_builder_def wf_key_def)
qed

lemma default_peer_wf: "wf_peer_builder default_peer_builder"
  by (simp add: wf_peer_builder_def default_peer_builder_def wf_key_def)

lemma initial_parser_wf: "wf_state initial_parser_state"
  by (simp add: wf_state_def initial_parser_state_def wf_interface_def default_interface_builder_def
      wf_awg3_def default_awg3_builder_def wf_key_def)

lemma parse_trimmed_wf:
  assumes "parse_trimmed api st t = Ok st'" and "wf_state st"
  shows "wf_state st'"
  using assms(1)
proof (cases rule: parse_trimmed_cases)
  case skip
  with assms(2) show ?thesis by simp
next
  case (sect st1)
  with assms(2) show ?thesis using finish_peer_wf [of st st1] by (simp add: wf_state_def)
next
  case (peer st1)
  with assms(2) show ?thesis
    using finish_peer_wf [of st st1] by (simp add: wf_state_def default_peer_wf)
next
  case (field k v)
  from field(7) show ?thesis
  proof (cases rule: parse_field_cases)
    case (interface ib)
    with assms(2) show ?thesis
      using parse_interface_field_wf by (fastforce simp: wf_state_def)
  next
    case (peer p p')
    with assms(2) show ?thesis
      using parse_peer_field_wf by (fastforce simp: wf_state_def)
  qed
qed

lemma parse_view_wf: "parse_view api st ts = Ok st' \<Longrightarrow> wf_state st \<Longrightarrow> wf_state st'"
  by (induction ts arbitrary: st) (auto dest: parse_trimmed_wf)

lemma awg3_finish_wf:
  assumes "awg3_finish b = Ok a" and "wf_awg3 b"
  shows "case a of None \<Rightarrow> True | Some p \<Rightarrow> wf_awg3_parameters p"
proof -
  have "''content_padding_addition'' \<notin> set awg_uapi_keys" by code_simp
  then have "''content_padding_addition'' \<notin> fst ` set (ab_fields b)"
    using assms(2) by (auto simp: wf_awg3_def)
  then show ?thesis
    using assms by (auto simp: awg3_finish_def wf_awg3_def wf_awg3_parameters_def wf_key_def
        split: if_splits)
qed

lemma finish_configuration_cases:
  assumes "finish_configuration st = Ok c"
  obtains st1 k a where "finish_peer st = Ok st1" and "ib_private_key (ps_interface st1) = Some k"
    and "ib_addresses (ps_interface st1) \<noteq> []" and "ps_peers st1 \<noteq> []"
    and "awg3_finish (ib_awg3 (ps_interface st1)) = Ok a"
    and "c = \<lparr>pc_private_key = k, pc_addresses = ib_addresses (ps_interface st1),
             pc_dns = ib_dns (ps_interface st1), pc_mtu = ib_mtu (ps_interface st1),
             pc_listen_port = ib_listen_port (ps_interface st1), pc_peers = ps_peers st1,
             pc_transport = (if a \<noteq> None then AmneziaWg3 else WireGuard), pc_awg3 = a\<rparr>"
  using assms that unfolding finish_configuration_def Let_def by (auto split: if_splits)

lemma finish_configuration_wf:
  assumes "finish_configuration st = Ok c" and "wf_state st"
  shows "wf_configuration c"
  using assms(1)
proof (rule finish_configuration_cases)
  fix st1 k a
  assume st1: "finish_peer st = Ok st1" "ib_private_key (ps_interface st1) = Some k"
    "ib_addresses (ps_interface st1) \<noteq> []" "ps_peers st1 \<noteq> []"
    "awg3_finish (ib_awg3 (ps_interface st1)) = Ok a"
    "c = \<lparr>pc_private_key = k, pc_addresses = ib_addresses (ps_interface st1),
             pc_dns = ib_dns (ps_interface st1), pc_mtu = ib_mtu (ps_interface st1),
             pc_listen_port = ib_listen_port (ps_interface st1), pc_peers = ps_peers st1,
             pc_transport = (if a \<noteq> None then AmneziaWg3 else WireGuard), pc_awg3 = a\<rparr>"
  have wf: "wf_state st1" using finish_peer_wf st1(1) assms(2) .
  then have "case a of None \<Rightarrow> True | Some p \<Rightarrow> wf_awg3_parameters p"
    using awg3_finish_wf [OF st1(5)] by (simp add: wf_state_def wf_interface_def)
  with wf st1 show ?thesis
    by (simp add: wf_configuration_def wf_state_def wf_interface_def wf_key_def)
qed


section \<open>The control socket text\<close>

lemma str_lines_Cons_line:
  assumes "newline_char \<notin> set l" and "cr_char \<notin> set l"
  shows "str_lines (l @ newline_char # s) = l # str_lines s"
proof -
  have "strip_suffix_char cr_char l = None"
    using assms(2) by (cases "strip_suffix_char cr_char l") (auto simp: strip_suffix_char_Some_iff)
  then have "chomp (l @ [newline_char]) = l"
    by (simp add: chomp_def strip_suffix_char_def split: option.split)
  then show ?thesis
    using assms(1) by (simp add: str_lines_def split_inclusive_append)
qed

lemma plain_one_line: "plain_value v \<Longrightarrow> newline_char \<notin> set v \<and> cr_char \<notin> set v"
  by (auto simp: plain_value_def list_all_iff is_ascii_graphic_def)

lemma as_hex_plain: "plain_value (as_hex key)"
proof -
  have hex: "is_ascii_graphic (radix_char d)" if "d < 16" for d
    using that by (auto simp: radix_char_def is_ascii_graphic_def of_char_of)
  have "plain_value [radix_char (unat b div 16), radix_char (unat b mod 16)]" for b :: u8
    using hex [of "unat b div 16"] hex [of "unat b mod 16"] unat_u8 [of b]
    by (simp add: plain_value_def)
  then show ?thesis
    by (induction key) (simp_all add: as_hex_def plain_value_def)
qed

lemma uapi_field_lines:
  assumes "list_all (\<lambda>(k, v). plain_value k \<and> plain_value v) fs"
  shows "str_lines (concat (map (\<lambda>(k, v). k @ ''='' @ v @ [newline_char]) fs)) =
    map (\<lambda>(k, v). k @ ''='' @ v) fs"
  using assms
proof (induction fs)
  case Nil
  then show ?case by (simp add: str_lines_def)
next
  case (Cons f fs)
  obtain k v where f: "f = (k, v)" by (cases f)
  have "newline_char \<notin> set (k @ ''='' @ v)" "cr_char \<notin> set (k @ ''='' @ v)"
    using Cons.prems f plain_one_line [of k] plain_one_line [of v] by auto
  from str_lines_Cons_line [OF this] show ?case using Cons f by simp
qed

lemma uapi_keys_plain:
  "k \<in> insert ''content_padding_addition'' (set awg_uapi_keys) \<Longrightarrow> plain_value k"
proof -
  have "list_all plain_value (''content_padding_addition'' # awg_uapi_keys)"
    by (simp add: plain_value_def is_ascii_graphic_def awg_uapi_keys_def awg_fields_def)
  then show "k \<in> insert ''content_padding_addition'' (set awg_uapi_keys) \<Longrightarrow> plain_value k"
    by (auto simp only: list_all_iff set_simps)
qed

lemma uapi_configuration_lines:
  assumes "wf_awg3_parameters p"
  shows "str_lines (uapi_configuration p) =
    (''header_protection_key='' @ as_hex (ap_header_protection_key p))
      # map (\<lambda>(k, v). k @ ''='' @ v) (ap_fields p)"
proof -
  have "list_all (\<lambda>(k, v). plain_value k \<and> plain_value v) (ap_fields p)"
    unfolding list_all_iff
  proof (clarify, intro conjI)
    fix k v
    assume kv: "(k, v) \<in> set (ap_fields p)"
    then have "k \<in> set (map fst (ap_fields p))" by force
    then show "plain_value k"
      using assms uapi_keys_plain unfolding wf_awg3_parameters_def by blast
    show "plain_value v"
      using assms kv unfolding wf_awg3_parameters_def list_all_iff by blast
  qed
  then have fields: "str_lines (concat (map (\<lambda>(k, v). k @ ''='' @ v @ [newline_char]) (ap_fields p))) =
      map (\<lambda>(k, v). k @ ''='' @ v) (ap_fields p)"
    by (rule uapi_field_lines)
  have "plain_value ''header_protection_key=''"
    by (simp add: plain_value_def is_ascii_graphic_def)
  then have "plain_value (''header_protection_key='' @ as_hex (ap_header_protection_key p))"
    using as_hex_plain by (simp only: plain_value_append)
  then have one: "newline_char \<notin> set (''header_protection_key='' @ as_hex (ap_header_protection_key p))"
      "cr_char \<notin> set (''header_protection_key='' @ as_hex (ap_header_protection_key p))"
    using plain_one_line by blast+
  have "uapi_configuration p =
      (''header_protection_key='' @ as_hex (ap_header_protection_key p)) @ newline_char
        # concat (map (\<lambda>(k, v). k @ ''='' @ v @ [newline_char]) (ap_fields p))"
    by (simp add: uapi_configuration_def)
  then show ?thesis
    by (simp only: str_lines_Cons_line [OF one] fields)
qed

section \<open>Executable directives\<close>

lemma parse_trimmed_unsafe:
  assumes "split_once (CHR ''='') t = Some (k, v)" and "trim k \<in> set unsafe_keys"
    and "t \<noteq> []" and "\<not> starts_with_char (CHR ''#'') t"
  shows "parse_trimmed api st t \<noteq> Ok st'"
proof
  assume "parse_trimmed api st t = Ok st'"
  then show False
  proof (cases rule: parse_trimmed_cases)
    case (sect st1)
    with assms(1) show False by simp
  next
    case (peer st1)
    with assms(1) show False by simp
  qed (use assms in auto)
qed

lemma parse_view_member:
  "parse_view api st ts = Ok st' \<Longrightarrow> t \<in> set ts \<Longrightarrow> \<exists>a b. parse_trimmed api a t = Ok b"
  by (induction ts arbitrary: st) auto

section \<open>The transport of a configuration\<close>

text \<open>The scan of \<open>detect_configuration_transport\<close> on a trimmed line.\<close>

definition detect_trimmed :: "transport_scan \<Rightarrow> string \<Rightarrow> transport_scan" where
  "detect_trimmed st line =
     (if line = [] \<or> starts_with_char (CHR ''#'') line then st
      else if starts_with_char (CHR ''['') line \<and> ends_with_char (CHR '']'') line
        then st\<lparr>scan_interface := eq_ignore_ascii_case line ''[Interface]''\<rparr>
      else if \<not> scan_interface st then st
      else case split_once (CHR ''='') line of
          None \<Rightarrow> st
        | Some (key, value) \<Rightarrow>
            if trim value = [] then st
            else if to_ascii_lowercase (trim key) = ''headerprotectionkey''
              then st\<lparr>scan_header_protection_key := True\<rparr>
            else if to_ascii_lowercase (trim key) = ''contentpaddingaddition''
              then st\<lparr>scan_content_padding_addition := True\<rparr>
            else st)"

lemma detect_lines_view:
  "foldl detect_line st ls = foldl detect_trimmed st (filter (\<lambda>l. l \<noteq> []) (map trim ls))"
proof (induction ls arbitrary: st)
  case (Cons l ls)
  have "detect_line st l = detect_trimmed st (trim l)" for st
    by (simp add: detect_line_def detect_trimmed_def Let_def)
  moreover have "detect_trimmed st [] = st" for st by (simp add: detect_trimmed_def)
  ultimately show ?case using Cons by simp
qed simp

text \<open>The markers seen by the scan are the fields set in the builder.\<close>

definition markers_agree :: "transport_scan \<Rightarrow> 'net parser_state \<Rightarrow> bool" where
  "markers_agree sc st \<longleftrightarrow>
     scan_interface sc = in_if st
     \<and> scan_header_protection_key sc = (ab_header_protection_key (ib_awg3 (ps_interface st)) \<noteq> None)
     \<and> scan_content_padding_addition sc = (ab_content_padding_addition (ib_awg3 (ps_interface st)) \<noteq> None)"

lemma parse_awg_keeps:
  assumes "parse_awg kind b k v = Ok b'"
  shows "ab_header_protection_key b' = ab_header_protection_key b
    \<and> ab_content_padding_addition b' = ab_content_padding_addition b"
  using assms
  by (cases kind) (auto simp: parse_awg_u32_def parse_awg_u16_def parse_awg_range_def
      parse_awg_template_def insert_field_def split: option.splits if_splits)

lemma parse_interface_field_markers:
  assumes "parse_interface_field api ib key v = Ok ib'"
  shows "ab_header_protection_key (ib_awg3 ib') \<noteq> None \<longleftrightarrow>
      key = ''HeaderProtectionKey'' \<or> ab_header_protection_key (ib_awg3 ib) \<noteq> None"
    and "ab_content_padding_addition (ib_awg3 ib') \<noteq> None \<longleftrightarrow>
      key = ''ContentPaddingAddition'' \<or> ab_content_padding_addition (ib_awg3 ib) \<noteq> None"
proof -
  have H: "ab_header_protection_key (ib_awg3 ib') \<noteq> None" if "key = ''HeaderProtectionKey''"
    using assms unfolding that
    by (cases "ab_header_protection_key (ib_awg3 ib)")
      (auto simp: parse_interface_field_def map_of_awg_fields)
  have C: "ab_content_padding_addition (ib_awg3 ib') \<noteq> None" if "key = ''ContentPaddingAddition''"
    using assms unfolding that
    by (cases "ab_content_padding_addition (ib_awg3 ib)")
      (auto simp: parse_interface_field_def map_of_awg_fields)
  have "key = ''HeaderProtectionKey''
      \<or> ab_header_protection_key (ib_awg3 ib') = ab_header_protection_key (ib_awg3 ib)"
    using parse_interface_field_cases [OF assms]
    by (elim disjE exE conjE) (simp_all add: parse_awg_keeps)
  moreover have "key = ''ContentPaddingAddition''
      \<or> ab_content_padding_addition (ib_awg3 ib') = ab_content_padding_addition (ib_awg3 ib)"
    using parse_interface_field_cases [OF assms]
    by (elim disjE exE conjE) (simp_all add: parse_awg_keeps)
  ultimately show "ab_header_protection_key (ib_awg3 ib') \<noteq> None \<longleftrightarrow>
      key = ''HeaderProtectionKey'' \<or> ab_header_protection_key (ib_awg3 ib) \<noteq> None"
    "ab_content_padding_addition (ib_awg3 ib') \<noteq> None \<longleftrightarrow>
      key = ''ContentPaddingAddition'' \<or> ab_content_padding_addition (ib_awg3 ib) \<noteq> None"
    using H C by metis+
qed

lemma markers_step:
  assumes "parse_trimmed api st t = Ok st'" and "markers_agree sc st"
  shows "markers_agree (detect_trimmed sc t) st'"
  using assms(1)
proof (cases rule: parse_trimmed_cases)
  case skip
  then show ?thesis using assms(2) by (auto simp: detect_trimmed_def)
next
  case (sect st1)
  then show ?thesis
    using assms(2)
    by (simp add: detect_trimmed_def markers_agree_def starts_with_char_def ends_with_char_def
        eq_ignore_ascii_case_def)
next
  case (peer st1)
  have "\<not> eq_ignore_ascii_case ''[Peer]'' ''[Interface]''" by code_simp
  with peer show ?thesis
    using assms(2)
    by (simp add: detect_trimmed_def markers_agree_def starts_with_char_def ends_with_char_def)
next
  case (field k v)
  from field(7) show ?thesis
  proof (cases rule: parse_field_cases)
    case (interface ib)
    note keys = interface_keys_case [OF parse_interface_field_key [OF interface(2)]]
    show ?thesis
      using assms(2) field interface parse_interface_field_markers [OF interface(2)] keys
      by (auto simp: detect_trimmed_def markers_agree_def)
  next
    case (peer p p')
    then show ?thesis
      using assms(2) field by (simp add: detect_trimmed_def markers_agree_def)
  qed
qed

lemma markers_view:
  assumes "parse_view api st ts = Ok st'" and "markers_agree sc st"
  shows "markers_agree (foldl detect_trimmed sc ts) st'"
  using assms
proof (induction ts arbitrary: st sc)
  case (Cons t ts)
  then show ?case using markers_step by fastforce
qed simp


section \<open>Properties\<close>

lemma awg3_finish_markers:
  assumes "awg3_finish b = Ok a"
  shows "a \<noteq> None \<longleftrightarrow> ab_header_protection_key b \<noteq> None \<and> ab_content_padding_addition b \<noteq> None"
  using assms by (auto simp: awg3_finish_def has_fields_def split: if_splits)

lemma parse_configuration_Ok:
  assumes "parse_configuration api input = Ok c"
  obtains st where "parse_view api initial_parser_state (line_view input) = Ok st"
    and "finish_configuration st = Ok c"
  using assms that by (auto simp: parse_configuration_view)

lemma parse_configuration_wf: "parse_configuration api input = Ok c \<Longrightarrow> wf_configuration c"
proof (erule parse_configuration_Ok)
  fix st
  assume "parse_view api initial_parser_state (line_view input) = Ok st" "finish_configuration st = Ok c"
  then show "wf_configuration c"
    using parse_view_wf initial_parser_wf finish_configuration_wf by blast
qed

lemma override_dns_parses:
  fixes api :: "('net, 'z) config_api_scheme"
  assumes "parse_configuration api conf = Ok c" and "servers \<noteq> []"
  shows "\<exists>conf'. override_dns conf servers = Ok conf'
    \<and> parse_configuration api conf' = Ok (c\<lparr>pc_dns := servers\<rparr>)"
proof -
  let ?init = "initial_parser_state :: 'net parser_state" and ?ts = "map trim (str_lines conf)"
  from assms(1) obtain st where st: "parse_view api ?init (line_view conf) = Ok st"
      "finish_configuration st = Ok c"
    by (rule parse_configuration_Ok)
  have init: "set_dns [] ?init = ?init" "\<not> in_if ?init"
    "ib_private_key (ps_interface ?init) = None"
    by (simp_all add: set_dns_def initial_parser_state_def default_interface_builder_def)
  have "has_interface (line_view conf)"
  proof (rule ccontr)
    assume "\<not> has_interface (line_view conf)"
    then have "ps_interface st = ps_interface ?init"
      using parse_view_needs_interface [OF st(1)] init by simp
    with st(2) init(3) show False by (auto elim!: finish_configuration_cases)
  qed
  then obtain conf' ts where ov: "override_dns conf servers = Ok conf'"
      "line_view conf' = filter (\<lambda>l. l \<noteq> []) ts" "interface_dns False ts = [dns_setting servers]"
      "other_lines False ts = other_lines False ?ts"
    using override_dns_cases [OF assms(2), of conf] by blast
  have "parse_view api ?init ?ts = Ok st"
    using st(1) by (simp add: line_view_def parse_view_filter)
  then have "parse_view api (set_dns [] ?init) (other_lines (in_if ?init) ts) = Ok (set_dns [] st)"
    using parse_view_other_lines [of api ?init ?ts st "[]"] ov(4) init by simp
  then have "parse_view api (set_dns [] ?init) ts = Ok (set_dns servers (set_dns [] st))"
    using parse_view_insert_dns assms(2) ov(3) init by fastforce
  then have "parse_configuration api conf' = Ok (c\<lparr>pc_dns := servers\<rparr>)"
    using finish_configuration_set_dns [OF st(2), of servers] ov(2) init
    by (simp add: parse_configuration_view parse_view_filter)
  with ov(1) show ?thesis by blast
qed

text \<open>C11: applying a DNS override and parsing the result gives the configuration that was there with
  the requested servers.  For every text the service parses, the override succeeds, and the parser
  reads from its output the same configuration with exactly the given servers as DNS; this covers
  printing and parsing of IPv4 and IPv6 addresses and the position of the inserted line.\<close>

theorem override_then_parse:
  fixes api :: "('net, 'z) config_api_scheme"
  assumes "parse_configuration api conf = Ok c" and "servers \<noteq> []"
  shows "\<exists>conf'. override_dns conf servers = Ok conf'
    \<and> parse_configuration api conf' = Ok (c\<lparr>pc_dns := servers\<rparr>)"
  using assms by (rule override_dns_parses)

text \<open>A decoder for texts of length four and networks as their texts.\<close>

definition sample_config_api :: "string config_api" where
  "sample_config_api =
     \<lparr>b64_decode = (\<lambda>s. if length s = 4 then Some (replicate 32 7) else None), ipnet_parse = Some\<rparr>"

definition sample_lines :: "string list" where
  "sample_lines =
     [''[Interface]'', ''PrivateKey = AAAA'', ''Address = 10.0.0.2/32'', ''DNS = 1.1.1.1'',
      ''HeaderProtectionKey = BBBB'', ''ContentPaddingAddition = 0-4'', ''Jc = 3'',
      ''[Peer]'', ''PublicKey = CCCC'', ''AllowedIPs = 0.0.0.0/0'', ''Endpoint = vpn:7'']"

definition sample_conf :: string where
  "sample_conf = join [newline_char] sample_lines"

definition sample_parsed :: "string parsed_configuration" where
  "sample_parsed =
     \<lparr>pc_private_key = replicate 32 7, pc_addresses = [''10.0.0.2/32''],
      pc_dns = [V4 (Ipv4Addr 1 1 1 1)], pc_mtu = None, pc_listen_port = None,
      pc_peers =
        [\<lparr>pp_public_key = replicate 32 7, pp_preshared_key = None,
          pp_allowed_ips = [''0.0.0.0/0''], pp_endpoint = \<lparr>ep_host = ''vpn'', ep_port = 7\<rparr>,
          pp_persistent_keepalive = None\<rparr>],
      pc_transport = AmneziaWg3,
      pc_awg3 = Some \<lparr>ap_header_protection_key = replicate 32 7,
         ap_fields = [(''jc'', ''3''), (''content_padding_addition'', ''0-4'')]\<rparr>\<rparr>"

lemma sample_conf_parses: "parse_configuration sample_config_api sample_conf = Ok sample_parsed"
  by code_simp

theorem override_then_parse_witness:
  "\<exists>conf'. override_dns sample_conf [V6 (Ipv6Addr 0x2606 0x4700 0 0 0 0 0 0x1111)] = Ok conf'
    \<and> parse_configuration sample_config_api conf' =
      Ok (sample_parsed\<lparr>pc_dns := [V6 (Ipv6Addr 0x2606 0x4700 0 0 0 0 0 0x1111)]\<rparr>)"
  by (rule override_then_parse [OF sample_conf_parses]) simp

text \<open>C12: what the parser accepts is well formed.  Keys are 32 bytes, the MTU lies within 576 and
  65535, ports are between 1 and 65535, there is an address and a peer, every peer has networks
  and a host without blanks or path separators, and the AmneziaWG parameters, present exactly for
  that transport, have pairwise different known keys and printable values.\<close>

theorem parsed_configuration_wf:
  assumes "parse_configuration api input = Ok c"
  shows "wf_configuration c"
  using assms by (rule parse_configuration_wf)

theorem parsed_configuration_wf_witness: "wf_configuration sample_parsed"
  by (rule parsed_configuration_wf [OF sample_conf_parses])



text \<open>C14: two components agree on the transport.  For every text the service parses, the transport of
  the parsed configuration is the one \<open>detect_configuration_transport\<close> of the tunnel crate finds in
  the text, although one reads sections and keys case-sensitively and the other does not.\<close>

theorem transport_detection_agrees:
  assumes "parse_configuration api input = Ok c"
  shows "detect_configuration_transport input = pc_transport c"
proof -
  let ?scan = "\<lparr>scan_interface = False, scan_header_protection_key = False,
    scan_content_padding_addition = False\<rparr>"
  from assms obtain st where st: "parse_view api initial_parser_state (line_view input) = Ok st"
      "finish_configuration st = Ok c"
    by (rule parse_configuration_Ok)
  have "markers_agree ?scan initial_parser_state"
    by (simp add: markers_agree_def initial_parser_state_def default_interface_builder_def
        default_awg3_builder_def)
  then have "markers_agree (foldl detect_line ?scan (str_lines input)) st"
    using markers_view [OF st(1)] by (simp add: detect_lines_view line_view_def)
  with st(2) show ?thesis
    by (auto elim!: finish_configuration_cases dest!: awg3_finish_markers
        simp: markers_agree_def detect_configuration_transport_def Let_def)
qed

theorem transport_detection_agrees_witness:
  "detect_configuration_transport sample_conf = AmneziaWg3"
  using transport_detection_agrees [OF sample_conf_parses] by (simp add: sample_parsed_def)

text \<open>C15: no value of a configuration can inject a line into the control socket.  The text written
  for an accepted AmneziaWG configuration consists of one line for the header key and one line per
  field, in order, and their keys are pairwise different.\<close>

theorem uapi_text_has_one_line_per_field:
  assumes "parse_configuration api input = Ok c" and "pc_awg3 c = Some p"
  shows "str_lines (uapi_configuration p) =
      (''header_protection_key='' @ as_hex (ap_header_protection_key p))
        # map (\<lambda>(k, v). k @ ''='' @ v) (ap_fields p)
    \<and> distinct (map fst (ap_fields p))"
proof -
  have "wf_awg3_parameters p"
    using parse_configuration_wf [OF assms(1)] assms(2) by (simp add: wf_configuration_def)
  then show ?thesis
    by (simp add: uapi_configuration_lines) (simp add: wf_awg3_parameters_def)
qed

theorem uapi_text_has_one_line_per_field_witness:
  "str_lines (uapi_configuration (the (pc_awg3 sample_parsed))) =
    [''header_protection_key='' @ as_hex (replicate 32 7), ''jc=3'', ''content_padding_addition=0-4'']"
  using uapi_text_has_one_line_per_field
    [OF sample_conf_parses, of "the (pc_awg3 sample_parsed)"]
  by (simp add: sample_parsed_def)

end
