(* ===== verification/UnixService.thy ===== *)
theory UnixService
  imports Frames TunnelApi UnixConfig
begin

text \<open>
  The privileged helper of \<^verbatim>\<open>crates/unix-service/src/lib.rs\<close>: its request and response types and
  their frames, the request handler, the engine channel loop that the dispatcher drives, and the
  controller with which the client core talks to it.

  The trait \<^verbatim>\<open>ServiceTunnelBackend\<close> is the record \<open>tunnel_backend\<close> of functions over a backend state
  \<open>'b\<close>; a method taking \<^verbatim>\<open>&self\<close> only reads it.  \<^verbatim>\<open>serde_json\<close> on the wire types is the record
  \<open>service_json\<close>.
\<close>

section \<open>Errors\<close>

datatype service_error =
  FrameTooLarge | TruncatedFrame | InvalidRequest | UnauthorizedClient | UnsupportedProtocol
| InvalidConfiguration | Backend string

definition stable_route_error_codes :: "string list" where
  "stable_route_error_codes =
     [''route_plan_too_large'', ''route_conflict'', ''route_state_too_large'',
      ''route_state_invalid'', ''route_state_read_failed'', ''route_state_write_failed'',
      ''route_state_serialize_failed'', ''route_state_activate_failed'',
      ''route_state_remove_failed'', ''route_add_failed'', ''interface_up_failed'',
      ''route_del_failed'', ''route_delete_failed'', ''route_command_failed'',
      ''route_command_unavailable'', ''route_table_unavailable'', ''ip_command_unavailable'',
      ''physical_egress_unavailable'', ''local_networks_unavailable'',
      ''endpoint_route_unavailable'', ''endpoint_route_lost'', ''amneziawg_uapi_unavailable'',
      ''amneziawg_configuration_failed'', ''amneziawg_profile_mismatch'',
      ''amneziawg_interface_already_exists'', ''amneziawg_go_start_failed'',
      ''amneziawg_go_start_timeout'', ''untrusted_amneziawg_go'', ''wireguard_go_start_failed'',
      ''wireguard_go_start_timeout'', ''untrusted_wireguard_go'', ''untrusted_runtime_directory'',
      ''network_configuration_failed'', ''invalid_interface_name'', ''tunnel_not_running'',
      ''userspace_log_unavailable'', ''multiple_tunnel_interfaces_detected'',
      ''udp_rebind_failed'', ''udp_rebind_unsupported'']"

definition stable_route_error_code :: "string \<Rightarrow> string option" where
  "stable_route_error_code code =
     (if code \<in> set stable_route_error_codes then Some code else None)"

fun service_error_code :: "service_error \<Rightarrow> string" where
  "service_error_code FrameTooLarge = ''frame_too_large''"
| "service_error_code TruncatedFrame = ''truncated_frame''"
| "service_error_code InvalidRequest = ''invalid_request''"
| "service_error_code UnauthorizedClient = ''unauthorized_client''"
| "service_error_code UnsupportedProtocol = ''unsupported_protocol''"
| "service_error_code InvalidConfiguration = ''invalid_configuration''"
| "service_error_code (Backend code) =
     (case stable_route_error_code code of None \<Rightarrow> ''service_unavailable'' | Some c \<Rightarrow> c)"

section \<open>Requests and responses\<close>

definition PROTOCOL_VERSION :: u16 where "PROTOCOL_VERSION = 5"
definition MAX_FRAME_SIZE :: nat where "MAX_FRAME_SIZE = 1024 * 1024"

datatype service_tunnel_state =
  ServiceStopped | ServiceStarting | ServiceRunning | ServiceStopping | ServiceFailed

record response =
  rsp_protocol_version :: u16
  rsp_ok :: bool
  rsp_state :: "service_tunnel_state option"
  rsp_service_version :: "string option"
  rsp_fingerprint :: "string option"
  rsp_metrics :: "tunnel_metrics option"
  rsp_diagnostics :: "string option"
  rsp_error_code :: "string option"

definition response_success :: "service_tunnel_state option \<Rightarrow> response" where
  "response_success st =
     \<lparr>rsp_protocol_version = PROTOCOL_VERSION, rsp_ok = True, rsp_state = st, rsp_service_version = None,
      rsp_fingerprint = None, rsp_metrics = None, rsp_diagnostics = None, rsp_error_code = None\<rparr>"

definition response_failure :: "string \<Rightarrow> response" where
  "response_failure code =
     \<lparr>rsp_protocol_version = PROTOCOL_VERSION, rsp_ok = False, rsp_state = None, rsp_service_version = None,
      rsp_fingerprint = None, rsp_metrics = None, rsp_diagnostics = None, rsp_error_code = Some code\<rparr>"

datatype request =
  Start u16 string desktop_tunnel_options
| Stop u16
| Status u16
| Version u16
| PhysicalNetworkFingerprint u16
| Metrics u16 bool
| Diagnostics u16
| RebindUdp u16

definition start_with_options :: "string \<Rightarrow> desktop_tunnel_options \<Rightarrow> request" where
  "start_with_options configuration options = Start PROTOCOL_VERSION configuration options"

definition default_desktop_options :: desktop_tunnel_options where
  "default_desktop_options =
     \<lparr>excluded_ipv4_cidrs = [], exclude_local_networks = False, policy_hash = None\<rparr>"

definition request_start :: "string \<Rightarrow> request" where
  "request_start configuration = start_with_options configuration default_desktop_options"

definition request_stop :: request where "request_stop = Stop PROTOCOL_VERSION"
definition request_status :: request where "request_status = Status PROTOCOL_VERSION"
definition request_version :: request where "request_version = Version PROTOCOL_VERSION"
definition request_fingerprint :: request where
  "request_fingerprint = PhysicalNetworkFingerprint PROTOCOL_VERSION"
definition request_metrics :: "bool \<Rightarrow> request" where
  "request_metrics probe = Metrics PROTOCOL_VERSION probe"
definition request_diagnostics :: request where
  "request_diagnostics = Diagnostics PROTOCOL_VERSION"
definition request_rebind_udp :: request where "request_rebind_udp = RebindUdp PROTOCOL_VERSION"

fun request_protocol_version :: "request \<Rightarrow> u16" where
  "request_protocol_version (Start v _ _) = v"
| "request_protocol_version (Stop v) = v"
| "request_protocol_version (Status v) = v"
| "request_protocol_version (Version v) = v"
| "request_protocol_version (PhysicalNetworkFingerprint v) = v"
| "request_protocol_version (Metrics v _) = v"
| "request_protocol_version (Diagnostics v) = v"
| "request_protocol_version (RebindUdp v) = v"

text \<open>The borrowed type that is serialized and the owned type that is deserialized.\<close>

datatype request_ref =
  RefStart u16 string desktop_tunnel_options
| RefStop u16
| RefStatus u16
| RefVersion u16
| RefPhysicalNetworkFingerprint u16
| RefMetrics u16 bool
| RefDiagnostics u16
| RefRebindUdp u16

datatype request_owned =
  OwnedStart u16 string desktop_tunnel_options
| OwnedStop u16
| OwnedStatus u16
| OwnedVersion u16
| OwnedPhysicalNetworkFingerprint u16
| OwnedMetrics u16 bool
| OwnedDiagnostics u16
| OwnedRebindUdp u16

fun request_serialize :: "request \<Rightarrow> request_ref" where
  "request_serialize (Start v configuration options) = RefStart v configuration options"
| "request_serialize (Stop v) = RefStop v"
| "request_serialize (Status v) = RefStatus v"
| "request_serialize (Version v) = RefVersion v"
| "request_serialize (PhysicalNetworkFingerprint v) = RefPhysicalNetworkFingerprint v"
| "request_serialize (Metrics v probe) = RefMetrics v probe"
| "request_serialize (Diagnostics v) = RefDiagnostics v"
| "request_serialize (RebindUdp v) = RefRebindUdp v"

fun request_deserialize :: "request_owned \<Rightarrow> request" where
  "request_deserialize (OwnedStart v configuration options) = Start v configuration options"
| "request_deserialize (OwnedStop v) = Stop v"
| "request_deserialize (OwnedStatus v) = Status v"
| "request_deserialize (OwnedVersion v) = Version v"
| "request_deserialize (OwnedPhysicalNetworkFingerprint v) = PhysicalNetworkFingerprint v"
| "request_deserialize (OwnedMetrics v probe) = Metrics v probe"
| "request_deserialize (OwnedDiagnostics v) = Diagnostics v"
| "request_deserialize (OwnedRebindUdp v) = RebindUdp v"

section \<open>Authorization\<close>

record client_identity =
  ci_uid :: u32
  ci_process_path :: path

record client_policy =
  owner_uid :: u32
  installed_client_path :: path

definition authorize_peer :: "client_policy \<Rightarrow> client_identity \<Rightarrow> (service_error, unit) result" where
  "authorize_peer policy identity =
     (if owner_uid policy = ci_uid identity
         \<and> installed_client_path policy = ci_process_path identity
      then Ok () else Err UnauthorizedClient)"

section \<open>Wire frames\<close>

text \<open>\<^verbatim>\<open>dispatcher_control\<close> is the string member of that name of a body that is a JSON object; \<^verbatim>\<open>reply\<close>
  is the serialization of an object with one boolean member.\<close>

record service_json =
  request_to_vec :: "request_ref \<Rightarrow> bytes option"
  request_from_slice :: "bytes \<Rightarrow> request_owned option"
  response_to_vec :: "response \<Rightarrow> bytes option"
  response_from_slice :: "bytes \<Rightarrow> response option"
  dispatcher_control :: "bytes \<Rightarrow> string option"
  bool_reply :: "string \<Rightarrow> bool \<Rightarrow> bytes option"

definition service_encode_frame :: "bytes option \<Rightarrow> (service_error, bytes) result" where
  "service_encode_frame to_vec =
     and_then (ok_or InvalidRequest to_vec) (\<lambda>body.
       if length body > MAX_FRAME_SIZE then Err FrameTooLarge
       else Ok (u32_to_le_bytes (length body) @ body))"

definition service_decode_frame :: "(bytes \<Rightarrow> 'a option) \<Rightarrow> bytes \<Rightarrow> (service_error, 'a) result" where
  "service_decode_frame from_slice frame =
     (if length frame < 4 then Err TruncatedFrame
      else
        (let body_length = from_le_bytes (take 4 frame) in
         if body_length > MAX_FRAME_SIZE then Err FrameTooLarge
         else if length frame \<noteq> body_length + 4 then Err TruncatedFrame
         else ok_or InvalidRequest (from_slice (drop 4 frame))))"

definition encode_request :: "service_json \<Rightarrow> request \<Rightarrow> (service_error, bytes) result" where
  "encode_request js request = service_encode_frame (request_to_vec js (request_serialize request))"

definition decode_request :: "service_json \<Rightarrow> bytes \<Rightarrow> (service_error, request) result" where
  "decode_request js =
     service_decode_frame (\<lambda>b. map_option request_deserialize (request_from_slice js b))"

definition encode_response :: "service_json \<Rightarrow> response \<Rightarrow> (service_error, bytes) result" where
  "encode_response js response = service_encode_frame (response_to_vec js response)"

definition decode_response :: "service_json \<Rightarrow> bytes \<Rightarrow> (service_error, response) result" where
  "decode_response js = service_decode_frame (response_from_slice js)"

section \<open>The request handler\<close>

record ('b, 'net) tunnel_backend =
  be_start :: "'net parsed_configuration \<Rightarrow> desktop_tunnel_options \<Rightarrow> 'b \<Rightarrow>
    (service_error, service_tunnel_state) result \<times> 'b"
  be_stop :: "'b \<Rightarrow> (service_error, service_tunnel_state) result \<times> 'b"
  be_status :: "'b \<Rightarrow> (service_error, service_tunnel_state) result"
  be_fingerprint :: "'b \<Rightarrow> (service_error, string) result"
  be_metrics :: "bool \<Rightarrow> 'b \<Rightarrow> (service_error, tunnel_metrics) result"
  be_diagnostics :: "'b \<Rightarrow> (service_error, string) result"
  be_rebind_udp :: "'b \<Rightarrow> (service_error, service_tunnel_state) result \<times> 'b"

text \<open>The provided methods of the trait.\<close>

definition default_fingerprint :: "'b \<Rightarrow> (service_error, string) result" where
  "default_fingerprint _ = Err (Backend ''physical_network_fingerprint_unavailable'')"

definition default_metrics :: "bool \<Rightarrow> 'b \<Rightarrow> (service_error, tunnel_metrics) result" where
  "default_metrics _ _ = Err (Backend ''metrics_unavailable'')"

definition default_diagnostics :: "'b \<Rightarrow> (service_error, string) result" where
  "default_diagnostics _ = Err (Backend ''diagnostics_unavailable'')"

definition default_rebind_udp :: "'b \<Rightarrow> (service_error, service_tunnel_state) result \<times> 'b" where
  "default_rebind_udp b = (Err (Backend ''udp_rebind_unsupported''), b)"

record 'b request_handler =
  handler_backend :: 'b
  handler_service_version :: string

definition response_of :: "(service_error, response) result \<Rightarrow> response" where
  "response_of r = (case r of Err e \<Rightarrow> response_failure (service_error_code e) | Ok x \<Rightarrow> x)"

definition state_response :: "(service_error, service_tunnel_state) result \<Rightarrow> response" where
  "state_response r = response_of (and_then r (\<lambda>st. Ok (response_success (Some st))))"

text \<open>What \<^verbatim>\<open>Request::Start\<close> checks before it reaches the backend.\<close>

definition checked_configuration ::
  "('n, 'y) ipnet_api_scheme \<Rightarrow> ('net, 'z) config_api_scheme \<Rightarrow> string \<Rightarrow> desktop_tunnel_options \<Rightarrow>
   (service_error, 'net parsed_configuration) result" where
  "checked_configuration napi capi configuration options =
     and_then (map_err (\<lambda>_. InvalidRequest) (desktop_options_validate napi options)) (\<lambda>_.
       map_err (\<lambda>_. InvalidConfiguration) (parse_configuration capi configuration))"

definition handle ::
  "('n, 'y) ipnet_api_scheme \<Rightarrow> ('net, 'z) config_api_scheme \<Rightarrow> ('b, 'net) tunnel_backend \<Rightarrow>
   request \<Rightarrow> 'b request_handler \<Rightarrow> response \<times> 'b request_handler" where
  "handle napi capi be request h =
     (if request_protocol_version request \<noteq> PROTOCOL_VERSION
      then (response_failure (service_error_code UnsupportedProtocol), h)
      else
        (let b = handler_backend h in
         case request of
           Start _ configuration options \<Rightarrow>
             (case checked_configuration napi capi configuration options of
                Err e \<Rightarrow> (response_failure (service_error_code e), h)
              | Ok parsed \<Rightarrow>
                  (case be_start be parsed options b of
                     (r, b') \<Rightarrow> (state_response r, h\<lparr>handler_backend := b'\<rparr>)))
         | Stop _ \<Rightarrow> (case be_stop be b of (r, b') \<Rightarrow> (state_response r, h\<lparr>handler_backend := b'\<rparr>))
         | Status _ \<Rightarrow> (state_response (be_status be b), h)
         | Version _ \<Rightarrow>
             ((response_success None)\<lparr>rsp_service_version := Some (handler_service_version h)\<rparr>, h)
         | PhysicalNetworkFingerprint _ \<Rightarrow>
             (response_of (and_then (be_fingerprint be b) (\<lambda>f.
                Ok ((response_success None)\<lparr>rsp_fingerprint := Some f\<rparr>))), h)
         | Metrics _ probe \<Rightarrow>
             (response_of (and_then (be_metrics be probe b) (\<lambda>m.
                Ok ((response_success None)\<lparr>rsp_metrics := Some m\<rparr>))), h)
         | Diagnostics _ \<Rightarrow>
             (response_of (and_then (be_diagnostics be b) (\<lambda>d.
                Ok ((response_success None)\<lparr>rsp_diagnostics := Some d\<rparr>))), h)
         | RebindUdp _ \<Rightarrow>
             (case be_rebind_udp be b of (r, b') \<Rightarrow> (state_response r, h\<lparr>handler_backend := b'\<rparr>))))"

section \<open>The engine channel\<close>

text \<open>One pass of the loop of \<^verbatim>\<open>run_engine_channel\<close> for the frame it read: what it answers.\<close>

definition engine_request ::
  "service_json \<Rightarrow> ('n, 'y) ipnet_api_scheme \<Rightarrow> ('net, 'z) config_api_scheme \<Rightarrow>
   ('b, 'net) tunnel_backend \<Rightarrow> bytes \<Rightarrow> 'b request_handler \<Rightarrow>
   (io_error, bytes) result \<times> 'b request_handler" where
  "engine_request js napi capi be frame h =
     (case (case decode_request js frame of
              Err e \<Rightarrow> (response_failure (service_error_code e), h)
            | Ok request \<Rightarrow> handle napi capi be request h) of
        (response, h') \<Rightarrow> (map_err (\<lambda>_. blocked) (encode_response js response), h'))"

definition engine_reply ::
  "service_json \<Rightarrow> ('n, 'y) ipnet_api_scheme \<Rightarrow> ('net, 'z) config_api_scheme \<Rightarrow>
   ('b, 'net) tunnel_backend \<Rightarrow> bytes \<Rightarrow> 'b request_handler \<Rightarrow>
   (io_error, bytes) result \<times> 'b request_handler" where
  "engine_reply js napi capi be frame h =
     (case frame_body frame MAX_FRAME_SIZE of
        Err e \<Rightarrow> (Err e, h)
      | Ok body \<Rightarrow>
          if dispatcher_control js body = Some ''ready''
          then (encode_frame (bool_reply js ''engine_ready'' True), h)
          else if dispatcher_control js body = Some ''stop''
          then (case handle napi capi be request_stop h of
                  (response, h') \<Rightarrow>
                    (encode_frame (bool_reply js ''engine_stopped''
                       (rsp_ok response \<and> rsp_state response = Some ServiceStopped)), h'))
          else engine_request js napi capi be frame h)"

text \<open>\<^verbatim>\<open>write_all\<close> delivers every byte, so the \<^verbatim>\<open>flush\<close> that follows it has nothing left to do.\<close>

function run_engine_channel ::
  "service_json \<Rightarrow> ('n, 'y) ipnet_api_scheme \<Rightarrow> ('net, 'z) config_api_scheme \<Rightarrow>
   ('b, 'net) tunnel_backend \<Rightarrow> reader \<Rightarrow> writer \<Rightarrow> 'b request_handler \<Rightarrow>
   (io_error, unit) result \<times> writer \<times> 'b request_handler" where
  "run_engine_channel js napi capi be r w h =
     (case read_frame MAX_FRAME_SIZE r of
        (Err e, _) \<Rightarrow>
          ((if e = UnexpectedEof then Ok () else Err e), w, snd (handle napi capi be request_stop h))
      | (Ok frame, r') \<Rightarrow>
          (case engine_reply js napi capi be frame h of
             (Err e, h') \<Rightarrow> (Err e, w, h')
           | (Ok out, h') \<Rightarrow>
               (case write_all out w of
                  (Err e, w') \<Rightarrow> (Err e, w', h')
                | (Ok _, w') \<Rightarrow> run_engine_channel js napi capi be r' w' h')))"
  by pat_completeness auto

text \<open>Every frame takes at least its four length bytes from the reader, so the loop ends.\<close>

termination
  by (relation "measure (\<lambda>(js, napi, capi, be, r, w, h). length (rd_bytes r))")
    (auto dest: read_frame_consumes [OF sym] read_frame_consumes)

declare run_engine_channel.simps [simp del]

section \<open>The controller\<close>

definition validate_response :: "response \<Rightarrow> (tunnel_error, unit) result" where
  "validate_response response =
     (if rsp_protocol_version response \<noteq> PROTOCOL_VERSION
      then Err (TunnelBackend ''unsupported_protocol'')
      else if \<not> rsp_ok response
      then Err (TunnelBackend (case rsp_error_code response of
                  None \<Rightarrow> ''service_unavailable'' | Some code \<Rightarrow> code))
      else Ok ())"

definition require_state :: "response \<Rightarrow> service_tunnel_state \<Rightarrow> (tunnel_error, unit) result" where
  "require_state response expected =
     and_then (validate_response response) (\<lambda>_.
       if rsp_state response = Some expected then Ok ()
       else Err (TunnelBackend ''unexpected_tunnel_service_state''))"

definition to_tunnel_error :: "service_error \<Rightarrow> tunnel_error" where
  "to_tunnel_error error = TunnelBackend (service_error_code error)"

definition valid_fingerprint :: "string \<Rightarrow> bool" where
  "valid_fingerprint v \<longleftrightarrow>
     length v = 64 \<and> list_all (\<lambda>c. is_ascii_hexdigit c \<and> \<not> is_ascii_uppercase c) v"

text \<open>A transport \<open>exchange\<close> carries one request and answers it; \<open>'t\<close> is what it talks to.\<close>

type_synonym 't transport = "request \<Rightarrow> 't \<Rightarrow> (service_error, response) result \<times> 't"

definition exchange_ok :: "'t transport \<Rightarrow> request \<Rightarrow> 't \<Rightarrow> (tunnel_error, response) result \<times> 't" where
  "exchange_ok exchange request t = map_err_io to_tunnel_error (exchange request t)"

definition controller_service_version :: "'t transport \<Rightarrow> 't \<Rightarrow> (tunnel_error, string) result \<times> 't" where
  "controller_service_version exchange t =
     bind_io (exchange_ok exchange request_version t) (\<lambda>response t.
       (and_then (validate_response response) (\<lambda>_.
          ok_or (TunnelBackend ''missing_service_version'') (rsp_service_version response)), t))"

definition controller_diagnostics :: "'t transport \<Rightarrow> 't \<Rightarrow> (tunnel_error, string) result \<times> 't" where
  "controller_diagnostics exchange t =
     bind_io (exchange_ok exchange request_diagnostics t) (\<lambda>response t.
       (and_then (validate_response response) (\<lambda>_.
          ok_or (TunnelBackend ''missing_service_diagnostics'') (rsp_diagnostics response)), t))"

definition controller_start ::
  "'t transport \<Rightarrow> tunnel_start_request \<Rightarrow> 't \<Rightarrow> (tunnel_error, unit) result \<times> 't" where
  "controller_start exchange request t =
     (case tunnel_options_validate (ts_options request) of
        Err code \<Rightarrow> (Err (TunnelInvalidOptions code), t)
      | Ok _ \<Rightarrow>
          (case override_dns (ts_configuration request) (dns_servers (ts_options request)) of
             Err e \<Rightarrow> (Err (TunnelBackend (tunnel_configuration_error_display e)), t)
           | Ok configuration \<Rightarrow>
               bind_io (exchange_ok exchange
                          (start_with_options configuration (from_tunnel_options (ts_options request))) t)
                 (\<lambda>response t. (require_state response ServiceRunning, t))))"

definition controller_stop :: "'t transport \<Rightarrow> 't \<Rightarrow> (tunnel_error, unit) result \<times> 't" where
  "controller_stop exchange t =
     bind_io (exchange_ok exchange request_stop t) (\<lambda>response t.
       (require_state response ServiceStopped, t))"

fun tunnel_status_of :: "service_tunnel_state \<Rightarrow> tunnel_status" where
  "tunnel_status_of ServiceStopped = TunnelStopped"
| "tunnel_status_of ServiceStarting = TunnelStarting"
| "tunnel_status_of ServiceRunning = TunnelRunning"
| "tunnel_status_of ServiceStopping = TunnelStopping"
| "tunnel_status_of ServiceFailed = TunnelFailed"

definition controller_status :: "'t transport \<Rightarrow> 't \<Rightarrow> (tunnel_error, tunnel_status) result \<times> 't" where
  "controller_status exchange t =
     bind_io (exchange_ok exchange request_status t) (\<lambda>response t.
       (and_then (validate_response response) (\<lambda>_.
          case rsp_state response of
            Some st \<Rightarrow> Ok (tunnel_status_of st)
          | None \<Rightarrow> Err (TunnelBackend ''missing_tunnel_service_state'')), t))"

definition controller_fingerprint ::
  "'t transport \<Rightarrow> 't \<Rightarrow> (tunnel_error, string option) result \<times> 't" where
  "controller_fingerprint exchange t =
     bind_io (exchange_ok exchange request_fingerprint t) (\<lambda>response t.
       (and_then (validate_response response) (\<lambda>_.
        and_then (ok_or (TunnelBackend ''missing_physical_network_fingerprint'')
                    (rsp_fingerprint response)) (\<lambda>f.
          if valid_fingerprint f then Ok (Some f)
          else Err (TunnelBackend ''invalid_physical_network_fingerprint''))), t))"

definition controller_metrics ::
  "'t transport \<Rightarrow> bool \<Rightarrow> 't \<Rightarrow> (tunnel_error, tunnel_metrics option) result \<times> 't" where
  "controller_metrics exchange probe t =
     bind_io (exchange_ok exchange (request_metrics probe) t) (\<lambda>response t.
       (and_then (validate_response response) (\<lambda>_.
          ok_or (TunnelBackend ''missing_tunnel_metrics'') (map_option Some (rsp_metrics response))), t))"

definition controller_rebind_udp :: "'t transport \<Rightarrow> 't \<Rightarrow> (tunnel_error, bool) result \<times> 't" where
  "controller_rebind_udp exchange t =
     bind_io (exchange_ok exchange request_rebind_udp t) (\<lambda>response t.
       (and_then (require_state response ServiceRunning) (\<lambda>_. Ok True), t))"

definition controller_capabilities :: "bool \<Rightarrow> tunnel_capabilities" where
  "controller_capabilities macos =
     \<lparr>cap_platform = (if macos then PlatformMacos else PlatformLinux), cap_android_api_level = None,
      cap_address_split_tunnel = True, cap_application_split_tunnel = False\<rparr>"

section \<open>Frames\<close>

text \<open>What the client relies on from \<^verbatim>\<open>serde_json\<close>: a value reads back as what was written.\<close>

definition owned_of :: "request_ref \<Rightarrow> request_owned" where
  "owned_of r = (case r of
     RefStart v c opts \<Rightarrow> OwnedStart v c opts | RefStop v \<Rightarrow> OwnedStop v | RefStatus v \<Rightarrow> OwnedStatus v
   | RefVersion v \<Rightarrow> OwnedVersion v
   | RefPhysicalNetworkFingerprint v \<Rightarrow> OwnedPhysicalNetworkFingerprint v
   | RefMetrics v probe \<Rightarrow> OwnedMetrics v probe | RefDiagnostics v \<Rightarrow> OwnedDiagnostics v
   | RefRebindUdp v \<Rightarrow> OwnedRebindUdp v)"

definition json_reads_back :: "service_json \<Rightarrow> bool" where
  "json_reads_back js \<longleftrightarrow>
     (\<forall>r b. request_to_vec js r = Some b \<longrightarrow> request_from_slice js b = Some (owned_of r))
     \<and> (\<forall>r b. response_to_vec js r = Some b \<longrightarrow> response_from_slice js b = Some r)"

lemma owned_of_serialize [simp]: "request_deserialize (owned_of (request_serialize r)) = r"
  by (cases r) (simp_all add: owned_of_def)

lemma service_encode_frame_Ok:
  "service_encode_frame v = Ok f \<longleftrightarrow>
   (\<exists>body. v = Some body \<and> length body \<le> MAX_FRAME_SIZE \<and> f = u32_to_le_bytes (length body) @ body)"
  by (cases v) (auto simp: service_encode_frame_def)

lemma service_decode_frame_of_frame:
  "length body \<le> MAX_FRAME_SIZE \<Longrightarrow>
   service_decode_frame from_slice (u32_to_le_bytes (length body) @ body)
   = ok_or InvalidRequest (from_slice body)"
  by (simp add: service_decode_frame_def MAX_FRAME_SIZE_def)

lemma decode_encode_request:
  "json_reads_back js \<Longrightarrow> encode_request js r = Ok f \<Longrightarrow> decode_request js f = Ok r"
  by (auto simp: json_reads_back_def encode_request_def decode_request_def service_encode_frame_Ok
      service_decode_frame_of_frame)

lemma decode_encode_response:
  "json_reads_back js \<Longrightarrow> encode_response js r = Ok f \<Longrightarrow> decode_response js f = Ok r"
  by (auto simp: json_reads_back_def encode_response_def decode_response_def service_encode_frame_Ok
      service_decode_frame_of_frame)

section \<open>What reaches the backend\<close>

definition backend_keeps ::
  "('n, 'y) ipnet_api_scheme \<Rightarrow> ('b, 'net) tunnel_backend \<Rightarrow> ('b \<Rightarrow> bool) \<Rightarrow> bool" where
  "backend_keeps napi be I \<longleftrightarrow>
     (\<forall>c opts b. wf_configuration c \<longrightarrow> desktop_options_validate napi opts = Ok () \<longrightarrow> I b \<longrightarrow>
        I (snd (be_start be c opts b)))
     \<and> (\<forall>b. I b \<longrightarrow> I (snd (be_stop be b)))
     \<and> (\<forall>b. I b \<longrightarrow> I (snd (be_rebind_udp be b)))"

lemma checked_configuration_Ok:
  "checked_configuration napi capi conf opts = Ok c \<Longrightarrow>
   desktop_options_validate napi opts = Ok () \<and> parse_configuration capi conf = Ok c
   \<and> wf_configuration c"
  by (auto simp: checked_configuration_def intro: parse_configuration_wf)

lemma handle_keeps:
  fixes capi :: "('net, 'z) config_api_scheme"
  assumes "backend_keeps napi be I" and "I (handler_backend h)"
  shows "I (handler_backend (snd (handle napi capi be request h)))"
proof (cases request)
  case (Start v conf opts)
  then show ?thesis
    using assms checked_configuration_Ok [of napi capi conf opts]
    by (cases "checked_configuration napi capi conf opts")
      (simp_all add: handle_def Let_def backend_keeps_def split_beta)
qed (use assms in \<open>simp_all add: handle_def Let_def backend_keeps_def split_beta\<close>)

lemma engine_reply_keeps:
  assumes "backend_keeps napi be I" and "I (handler_backend h)"
  shows "I (handler_backend (snd (engine_reply js napi capi be frame h)))"
  using assms handle_keeps [OF assms]
  by (auto simp: engine_reply_def engine_request_def split_beta split: sum.splits)

lemma run_engine_channel_keeps:
  "backend_keeps napi be I \<Longrightarrow> I (handler_backend h) \<Longrightarrow>
   I (handler_backend (snd (snd (run_engine_channel js napi capi be r w h))))"
proof (induction js napi capi be r w h rule: run_engine_channel.induct)
  case (1 js napi capi be r w h)
  have reply: "I (handler_backend h')" if "engine_reply js napi capi be frame h = (out, h')"
    for frame out h'
    using engine_reply_keeps [OF 1(2,3)] that by (metis snd_conv)
  have stop: "I (handler_backend (snd (handle napi capi be request_stop h)))"
    using 1(2,3) by (rule handle_keeps)
  show ?case
    using 1 stop
    by (subst run_engine_channel.simps) (auto split: prod.splits sum.splits simp: reply)
qed

section \<open>Sessions\<close>

text \<open>What the channel does, as a sequence of messages: each frame is answered in turn, and the first
  reply that cannot be encoded ends the session.\<close>

fun engine_session ::
  "service_json \<Rightarrow> ('n, 'y) ipnet_api_scheme \<Rightarrow> ('net, 'z) config_api_scheme \<Rightarrow>
   ('b, 'net) tunnel_backend \<Rightarrow> bytes list \<Rightarrow> 'b request_handler \<Rightarrow>
   (io_error, bytes list) result \<times> 'b request_handler" where
  "engine_session js napi capi be [] h = (Ok [], h)"
| "engine_session js napi capi be (frame # frames) h =
     bind_io (engine_reply js napi capi be frame h) (\<lambda>out h.
     bind_io (engine_session js napi capi be frames h) (\<lambda>outs h. (Ok (out # outs), h)))"

definition frame_of :: "bytes \<Rightarrow> bytes" where
  "frame_of body = u32_to_le_bytes (length body) @ body"

lemma write_all_unbounded:
  "wr_room w = None \<Longrightarrow> write_all bs w = (Ok (), w\<lparr>wr_bytes := wr_bytes w @ bs\<rparr>)"
  by (simp add: write_all_def)

lemma run_engine_channel_session:
  assumes "engine_session js napi capi be (map frame_of bodies) h = (Ok outs, h')"
    and "\<forall>b \<in> set bodies. length b \<le> MAX_FRAME_SIZE"
    and "read_frame MAX_FRAME_SIZE \<lparr>rd_bytes = tail, rd_failure = f\<rparr> = (Err e, t')"
    and "wr_room w = None"
  shows "run_engine_channel js napi capi be
      \<lparr>rd_bytes = concat (map frame_of bodies) @ tail, rd_failure = f\<rparr> w h
    = ((if e = UnexpectedEof then Ok () else Err e),
       w\<lparr>wr_bytes := wr_bytes w @ concat outs\<rparr>, snd (handle napi capi be request_stop h'))"
  using assms
proof (induction bodies arbitrary: h w outs)
  case Nil
  then show ?case by (subst run_engine_channel.simps) simp
next
  case (Cons b bodies)
  from Cons.prems(1) obtain out h1 outs' where
    reply: "engine_reply js napi capi be (frame_of b) h = (Ok out, h1)"
    and rest: "engine_session js napi capi be (map frame_of bodies) h1 = (Ok outs', h')"
    and outs: "outs = out # outs'"
    by (auto simp: bind_io_eq_Ok_iff)
  let ?rest = "concat (map frame_of bodies) @ tail"
  have "read_frame MAX_FRAME_SIZE \<lparr>rd_bytes = concat (map frame_of (b # bodies)) @ tail, rd_failure = f\<rparr>
      = (Ok (frame_of b), \<lparr>rd_bytes = ?rest, rd_failure = f\<rparr>)"
    using read_frame_of_frame [of b MAX_FRAME_SIZE ?rest f] Cons.prems(2)
    by (simp add: frame_of_def MAX_FRAME_SIZE_def)
  then show ?case
    using Cons.IH [OF rest, of "w\<lparr>wr_bytes := wr_bytes w @ out\<rparr>"] Cons.prems reply outs
    by (subst run_engine_channel.simps) (simp add: write_all_unbounded)
qed

section \<open>Error codes\<close>

text \<open>The fixed set of codes that leave the helper.\<close>

definition public_error_codes :: "string set" where
  "public_error_codes =
     set stable_route_error_codes \<union>
     {''frame_too_large'', ''truncated_frame'', ''invalid_request'', ''unauthorized_client'',
      ''unsupported_protocol'', ''invalid_configuration'', ''service_unavailable''}"

lemma service_error_code_public: "service_error_code e \<in> public_error_codes"
  by (cases e) (simp_all add: public_error_codes_def stable_route_error_code_def)

lemma response_of_codes:
  assumes "\<And>x. r = Ok x \<Longrightarrow> rsp_error_code x = None"
  shows "rsp_error_code (response_of r) = Some c \<Longrightarrow> c \<in> public_error_codes"
  using assms service_error_code_public
  by (auto simp: response_of_def response_failure_def split: sum.splits)

lemma state_response_codes: "rsp_error_code (state_response r) = Some c \<Longrightarrow> c \<in> public_error_codes"
  unfolding state_response_def by (rule response_of_codes) (auto simp: response_success_def)

section \<open>The controller over the service\<close>

text \<open>A request of the controller travels to the handler and back in frames.\<close>

definition service_exchange ::
  "service_json \<Rightarrow> ('n, 'y) ipnet_api_scheme \<Rightarrow> ('net, 'z) config_api_scheme \<Rightarrow>
   ('b, 'net) tunnel_backend \<Rightarrow> 'b request_handler transport" where
  "service_exchange js napi capi be request h =
     (case encode_request js request of
        Err e \<Rightarrow> (Err e, h)
      | Ok frame \<Rightarrow>
          (case (case decode_request js frame of
                   Err e \<Rightarrow> (response_failure (service_error_code e), h)
                 | Ok r \<Rightarrow> handle napi capi be r h) of
             (response, h') \<Rightarrow> (and_then (encode_response js response) (decode_response js), h')))"

lemma service_exchange_handle:
  assumes "json_reads_back js" and "encode_request js request = Ok frame"
    and "handle napi capi be request h = (response, h')"
    and "encode_response js response = Ok frame'"
  shows "service_exchange js napi capi be request h = (Ok response, h')"
  using assms decode_encode_request [OF assms(1,2)] decode_encode_response [OF assms(1,4)]
  by (simp add: service_exchange_def)

lemma start_handled:
  assumes "desktop_options_validate napi opts = Ok ()"
    and "parse_configuration capi conf = Ok c"
    and "be_start be c opts (handler_backend h) = (Ok ServiceRunning, b')"
  shows "handle napi capi be (start_with_options conf opts) h
    = (response_success (Some ServiceRunning), h\<lparr>handler_backend := b'\<rparr>)"
  using assms
  by (simp add: handle_def start_with_options_def checked_configuration_def state_response_def
      response_of_def)

section \<open>Properties\<close>

text \<open>For the witnesses: a backend that records the configurations it was started with, and a
  serializer that knows one request and one response.\<close>

definition recording_backend :: "(string parsed_configuration list, string) tunnel_backend" where
  "recording_backend =
     \<lparr>be_start = (\<lambda>c opts b. (Ok ServiceRunning, c # b)), be_stop = (\<lambda>b. (Ok ServiceStopped, b)),
      be_status = (\<lambda>b. Ok ServiceRunning), be_fingerprint = default_fingerprint,
      be_metrics = default_metrics, be_diagnostics = default_diagnostics,
      be_rebind_udp = default_rebind_udp\<rparr>"

definition sample_handler :: "string parsed_configuration list request_handler" where
  "sample_handler = \<lparr>handler_backend = [], handler_service_version = ''1.2.3''\<rparr>"

definition sample_start :: tunnel_start_request where
  "sample_start = full_tunnel sample_conf"

definition sample_json :: service_json where
  "sample_json =
     \<lparr>request_to_vec = (\<lambda>r. if r = RefStart 5 sample_conf default_desktop_options then Some ''r'' else None),
      request_from_slice = (\<lambda>b. if b = ''r'' then Some (OwnedStart 5 sample_conf default_desktop_options) else None),
      response_to_vec = (\<lambda>r. if r = response_success (Some ServiceRunning) then Some ''s'' else None),
      response_from_slice = (\<lambda>b. if b = ''s'' then Some (response_success (Some ServiceRunning)) else None),
      dispatcher_control = (\<lambda>b. None), bool_reply = (\<lambda>k b. Some ''b'')\<rparr>"

lemma sample_json_reads_back: "json_reads_back sample_json"
  by (auto simp: json_reads_back_def sample_json_def owned_of_def split: if_splits)

lemma recording_backend_keeps:
  "backend_keeps napi recording_backend (list_all wf_configuration)"
  by (simp add: backend_keeps_def recording_backend_def default_rebind_udp_def)

text \<open>C22: Whatever bytes arrive on the engine channel, the backend is only ever started with a
  well-formed configuration and validated options.  A predicate on the backend state that such
  starts, stops and rebinds keep holds after the channel has ended, for every input stream, way the
  stream ends and output failure.\<close>

theorem channel_starts_only_checked_configurations:
  assumes "backend_keeps napi be I" and "I (handler_backend h)"
  shows "I (handler_backend (snd (snd (run_engine_channel js napi capi be r w h))))"
  using assms by (rule run_engine_channel_keeps)

theorem channel_starts_only_checked_configurations_witness:
  "list_all wf_configuration (handler_backend (snd (snd (run_engine_channel sample_json pair_net_api
     sample_config_api recording_backend \<lparr>rd_bytes = frame_of ''r'', rd_failure = None\<rparr>
     \<lparr>wr_bytes = [], wr_room = Some 2\<rparr> sample_handler))))"
  by (rule channel_starts_only_checked_configurations [OF recording_backend_keeps])
    (simp add: sample_handler_def)


lemma default_options_valid: "desktop_options_validate napi default_desktop_options = Ok ()"
  by (simp add: desktop_options_validate_def default_desktop_options_def)

lemma sample_start_handled:
  "handle pair_net_api sample_config_api recording_backend
     (start_with_options sample_conf default_desktop_options) sample_handler
   = (response_success (Some ServiceRunning), sample_handler\<lparr>handler_backend := [sample_parsed]\<rparr>)"
  by (rule start_handled [OF default_options_valid sample_conf_parses])
    (simp add: recording_backend_def sample_handler_def)


text \<open>C24: No free text leaves the helper as an error code: the code in any response of the handler
  is one of a fixed set, whatever message the backend attached to its error.\<close>

theorem handler_error_codes_fixed:
  assumes "rsp_error_code (fst (handle napi capi be request h)) = Some code"
  shows "code \<in> public_error_codes"
proof -
  have fail: "code \<in> public_error_codes" if "rsp_error_code (response_failure (service_error_code e)) = Some code"
    for e using that service_error_code_public by (auto simp: response_failure_def)
  show ?thesis
  proof (cases "request_protocol_version request = PROTOCOL_VERSION")
    case True
    then show ?thesis
      using assms
      by (cases request)
        (auto simp: handle_def Let_def split_beta split: sum.splits
          dest: fail state_response_codes elim!: response_of_codes [rotated],
          auto simp: response_success_def)
  next
    case False
    then show ?thesis using assms fail [of UnsupportedProtocol] by (simp add: handle_def)
  qed
qed

theorem handler_error_codes_fixed_witness: "''unsupported_protocol'' \<in> public_error_codes"
  by (rule handler_error_codes_fixed [of pair_net_api sample_config_api recording_backend "Stop 4"
        sample_handler])
    (simp add: handle_def PROTOCOL_VERSION_def response_failure_def)

text \<open>C25: A start of the controller, end to end.  When the options are valid, the configuration
  parses and the frames fit, the request that travels through encoding, decoding and the handler
  starts the backend with the parsed configuration, its DNS servers replaced by the requested ones,
  and the controller reports success exactly when the backend reports that it runs.\<close>

theorem controller_start_end_to_end:
  fixes capi :: "('net, 'z) config_api_scheme"
  assumes "json_reads_back js"
    and "tunnel_options_validate (ts_options request) = Ok ()"
    and "desktop_options_validate napi (from_tunnel_options (ts_options request)) = Ok ()"
    and "parse_configuration capi (ts_configuration request) = Ok c"
    and "\<And>conf. override_dns (ts_configuration request) (dns_servers (ts_options request)) = Ok conf
           \<Longrightarrow> is_ok (encode_request js
             (start_with_options conf (from_tunnel_options (ts_options request))))"
    and "is_ok (encode_response js (response_success (Some st)))"
    and "be_start be (if dns_servers (ts_options request) = [] then c
           else c\<lparr>pc_dns := dns_servers (ts_options request)\<rparr>)
           (from_tunnel_options (ts_options request)) (handler_backend h) = (Ok st, b')"
  shows "\<exists>r. controller_start (service_exchange js napi capi be) request h
      = (r, h\<lparr>handler_backend := b'\<rparr>)
    \<and> (r = Ok () \<longleftrightarrow> st = ServiceRunning)"
proof -
  let ?opts = "from_tunnel_options (ts_options request)"
  let ?servers = "dns_servers (ts_options request)"
  obtain conf c' where conf: "override_dns (ts_configuration request) ?servers = Ok conf"
    "parse_configuration capi conf = Ok c'" "c' = (if ?servers = [] then c else c\<lparr>pc_dns := ?servers\<rparr>)"
    using assms(4) override_dns_parses [OF assms(4), of ?servers]
    by (cases "?servers = []") (auto simp: override_dns_def)
  have handled: "handle napi capi be (start_with_options conf ?opts) h
      = (response_success (Some st), h\<lparr>handler_backend := b'\<rparr>)"
    using assms(3,7) conf
    by (simp add: handle_def start_with_options_def checked_configuration_def state_response_def
        response_of_def)
  obtain f f' where "encode_request js (start_with_options conf ?opts) = Ok f"
    "encode_response js (response_success (Some st)) = Ok f'"
    using assms(5) [OF conf(1)] assms(6) by (auto simp: is_ok_iff)
  from service_exchange_handle [OF assms(1) this(1) handled this(2)]
  have "controller_start (service_exchange js napi capi be) request h
      = (require_state (response_success (Some st)) ServiceRunning, h\<lparr>handler_backend := b'\<rparr>)"
    using assms(2) conf(1) by (simp add: controller_start_def exchange_ok_def)
  then show ?thesis
    by (simp add: require_state_def validate_response_def response_success_def)
qed

theorem controller_start_end_to_end_witness:
  "controller_start (service_exchange sample_json pair_net_api sample_config_api recording_backend)
     sample_start sample_handler
   = (Ok (), sample_handler\<lparr>handler_backend := [sample_parsed]\<rparr>)"
proof -
  have opts: "from_tunnel_options (ts_options sample_start) = default_desktop_options"
    "dns_servers (ts_options sample_start) = []" "ts_configuration sample_start = sample_conf"
    by (simp_all add: sample_start_def full_tunnel_def default_tunnel_options_def
        from_tunnel_options_def default_desktop_options_def)
  have valid: "tunnel_options_validate (ts_options sample_start) = Ok ()"
    by (simp add: sample_start_def full_tunnel_def default_tunnel_options_def
        tunnel_options_validate_def)
  have enc: "is_ok (encode_request sample_json (start_with_options sample_conf default_desktop_options))"
    "is_ok (encode_response sample_json (response_success (Some ServiceRunning)))"
    by (simp_all add: encode_request_def encode_response_def service_encode_frame_def
        sample_json_def start_with_options_def PROTOCOL_VERSION_def MAX_FRAME_SIZE_def)
  show ?thesis
    using controller_start_end_to_end [OF sample_json_reads_back valid, of pair_net_api
        sample_config_api sample_parsed ServiceRunning recording_backend sample_handler "[sample_parsed]"]
    by (simp add: opts default_options_valid sample_conf_parses override_dns_def enc
        recording_backend_def sample_handler_def)
qed

end
