(* ===== verification/RouteManager.thy ===== *)
theory RouteManager
  imports UnixService
begin

text \<open>
  The owner of the split-tunnel routes, \<^verbatim>\<open>crates/unix-service/src/routes.rs\<close>: it installs the routes
  of a plan through a backend, records them in a state file before it installs them, and removes
  what is recorded.

  The trait \<^verbatim>\<open>RouteBackend\<close> is the record \<open>route_backend\<close> of functions over the state \<open>'w\<close> of the
  routing table it works on; every call may change it.  The state file lives in the file system of
  \<open>Rust_Io\<close>, with its schedule of faults.  \<^verbatim>\<open>serde_json\<close> on the state is a pair of functions.
\<close>

section \<open>Data\<close>

record owned_route =
  rt_destination :: string
  rt_interface_identifier :: string
  rt_gateway :: "string option"
  rt_metric :: "u32 option"

datatype route_scope = Unscoped | InterfaceScoped

record owned_route_state =
  st_format_version :: u16
  st_policy_hash :: "string option"
  st_routes :: "owned_route list"
  st_pending_routes :: "owned_route list"

definition ROUTE_STATE_FILE :: string where "ROUTE_STATE_FILE = ''routes-state.json''"
definition ROUTE_STATE_FORMAT :: u16 where "ROUTE_STATE_FORMAT = 1"
definition MAX_STATE_SIZE :: nat where "MAX_STATE_SIZE = 4 * 1024 * 1024"
definition MAX_OWNED_ROUTES :: nat where "MAX_OWNED_ROUTES = 16384"

definition empty_route_state :: owned_route_state where
  "empty_route_state =
     \<lparr>st_format_version = ROUTE_STATE_FORMAT, st_policy_hash = None, st_routes = [], st_pending_routes = []\<rparr>"

record route_json =
  state_to_vec :: "owned_route_state \<Rightarrow> bytes option"
  state_from_slice :: "bytes \<Rightarrow> owned_route_state option"

record ('e, 'n, 'w) route_backend =
  discover_egress :: "'w \<Rightarrow> (service_error, 'e) result \<times> 'w"
  local_networks :: "'e \<Rightarrow> 'w \<Rightarrow> (service_error, 'n list) result \<times> 'w"
  fingerprint_material :: "'e \<Rightarrow> 'n list \<Rightarrow> string"
  owned_route_of :: "'e \<Rightarrow> 'n \<Rightarrow> owned_route"
  route_presence :: "owned_route list \<Rightarrow> 'w \<Rightarrow> (service_error, route_scope option list) result \<times> 'w"
  add_route :: "owned_route \<Rightarrow> 'w \<Rightarrow> (service_error, unit) result \<times> 'w"
  remove_route :: "owned_route \<Rightarrow> route_scope \<Rightarrow> 'w \<Rightarrow> (service_error, unit) result \<times> 'w"

text \<open>The provided \<^verbatim>\<open>route_presence\<close> of the trait, from \<^verbatim>\<open>route_exists\<close>.\<close>

fun default_route_presence ::
  "(owned_route \<Rightarrow> 'w \<Rightarrow> (service_error, bool) result \<times> 'w) \<Rightarrow> owned_route list \<Rightarrow> 'w \<Rightarrow>
   (service_error, route_scope option list) result \<times> 'w" where
  "default_route_presence route_exists [] w = (Ok [], w)"
| "default_route_presence route_exists (r # rs) w =
     bind_io (route_exists r w) (\<lambda>exists w.
     bind_io (default_route_presence route_exists rs w) (\<lambda>ps w.
       (Ok ((if exists then Some Unscoped else None) # ps), w)))"

text \<open>The manager, with the file system and the routing table it acts on.\<close>

record 'w route_manager =
  state_path :: path
  route_state :: owned_route_state
  manager_fs :: fs
  manager_net :: 'w

section \<open>The state file\<close>

text \<open>The permission bits \<^verbatim>\<open>0o077\<close> are \<open>0x3F\<close>, the mode \<^verbatim>\<open>0o600\<close> is \<open>0x180\<close>.\<close>

definition private_file :: "fs \<Rightarrow> node \<Rightarrow> bool" where
  "private_file w n \<longleftrightarrow> is_file (nd_kind n) \<and> nd_uid n = euid w \<and> and (nd_mode n) 0x3F = 0"

definition route_count_ok :: "owned_route_state \<Rightarrow> bool" where
  "route_count_ok s \<longleftrightarrow>
     usize_saturating_add (length (st_routes s)) (length (st_pending_routes s)) \<le> MAX_OWNED_ROUTES"

definition remove_stale_temporary :: "path \<Rightarrow> fs \<Rightarrow> (service_error, unit) result \<times> fs" where
  "remove_stale_temporary p w =
     (case symlink_metadata p w of
        (Err NotFound, w) \<Rightarrow> (Ok (), w)
      | (Err _, w) \<Rightarrow> (Err (Backend ''route_state_write_failed''), w)
      | (Ok n, w) \<Rightarrow>
          if \<not> private_file w n then (Err (Backend ''route_state_write_failed''), w)
          else map_err_io (\<lambda>_. Backend ''route_state_write_failed'') (remove_file p w))"

definition write_private_file :: "bytes \<Rightarrow> path \<Rightarrow> path \<Rightarrow> fs \<Rightarrow> (service_error, unit) result \<times> fs" where
  "write_private_file bs temporary p w =
     bind_io (map_err_io (\<lambda>_. Backend ''route_state_write_failed'') (create_new 0x180 temporary w)) (\<lambda>_ w.
     bind_io (map_err_io (\<lambda>_. Backend ''route_state_write_failed'')
                (bind_io (file_write_all bs temporary w) (\<lambda>_ w. sync_all w))) (\<lambda>_ w.
       map_err_io (\<lambda>_. Backend ''route_state_activate_failed'') (fs_rename temporary p w)))"

definition persist_state ::
  "route_json \<Rightarrow> path \<Rightarrow> owned_route_state \<Rightarrow> fs \<Rightarrow> (service_error, unit) result \<times> fs" where
  "persist_state js p s w =
     (if \<not> route_count_ok s then (Err (Backend ''route_state_too_large''), w)
      else
        (case state_to_vec js s of
           None \<Rightarrow> (Err (Backend ''route_state_serialize_failed''), w)
         | Some bs \<Rightarrow>
             if length bs > MAX_STATE_SIZE then (Err (Backend ''route_state_too_large''), w)
             else
               (let temporary = with_extension ''json.new'' p in
                bind_io (remove_stale_temporary temporary w) (\<lambda>_ w.
                  write_private_file bs temporary p w))))"

definition load_state :: "route_json \<Rightarrow> path \<Rightarrow> fs \<Rightarrow> (service_error, owned_route_state) result \<times> fs" where
  "load_state js p w =
     (case path_exists p w of
        (False, w) \<Rightarrow> (Ok empty_route_state, w)
      | (True, w) \<Rightarrow>
          bind_io (map_err_io (\<lambda>_. Backend ''route_state_read_failed'') (symlink_metadata p w)) (\<lambda>n w.
            if \<not> private_file w n \<or> file_len (nd_kind n) > MAX_STATE_SIZE
            then (Err (Backend ''route_state_invalid''), w)
            else
              bind_io (map_err_io (\<lambda>_. Backend ''route_state_read_failed'') (fs_read p w)) (\<lambda>bs w.
                (case state_from_slice js bs of
                   None \<Rightarrow> (Err (Backend ''route_state_invalid''), w)
                 | Some s \<Rightarrow>
                     if st_format_version s \<noteq> ROUTE_STATE_FORMAT \<or> \<not> route_count_ok s
                     then (Err (Backend ''route_state_invalid''), w)
                     else (Ok s, w)))))"

definition remove_state :: "path \<Rightarrow> fs \<Rightarrow> (service_error, unit) result \<times> fs" where
  "remove_state p w =
     (case remove_file p w of
        (Ok _, w) \<Rightarrow> (Ok (), w)
      | (Err NotFound, w) \<Rightarrow> (Ok (), w)
      | (Err _, w) \<Rightarrow> (Err (Backend ''route_state_remove_failed''), w))"

section \<open>The manager\<close>

definition new_manager ::
  "route_json \<Rightarrow> path \<Rightarrow> fs \<Rightarrow> 'w \<Rightarrow> (service_error, 'w route_manager) result \<times> fs" where
  "new_manager js runtime_directory w net =
     (let p = runtime_directory @ [ROUTE_STATE_FILE] in
      bind_io (load_state js p w) (\<lambda>s w.
        (Ok \<lparr>state_path = p, route_state = s, manager_fs = w, manager_net = net\<rparr>, w)))"

definition persist :: "route_json \<Rightarrow> 'w route_manager \<Rightarrow> (service_error, unit) result \<times> 'w route_manager" where
  "persist js m =
     (case persist_state js (state_path m) (route_state m) (manager_fs m) of
        (r, w) \<Rightarrow> (r, m\<lparr>manager_fs := w\<rparr>))"

definition or_first :: "'a option \<Rightarrow> 'a \<Rightarrow> 'a option" where
  "or_first m e = (case m of None \<Rightarrow> Some e | Some x \<Rightarrow> Some x)"

text \<open>The loop of \<^verbatim>\<open>remove_present_routes\<close>; \<open>retained\<close> are the routes whose removal failed.\<close>

fun remove_loop ::
  "('e, 'n, 'w) route_backend \<Rightarrow> (owned_route \<times> route_scope option) list \<Rightarrow> owned_route list \<Rightarrow>
   service_error option \<Rightarrow> 'w \<Rightarrow> owned_route list \<times> service_error option \<times> 'w" where
  "remove_loop be [] retained first_error w = (retained, first_error, w)"
| "remove_loop be ((r, scope) # rest) retained first_error w =
     (case scope of
        None \<Rightarrow> remove_loop be rest retained first_error w
      | Some sc \<Rightarrow>
          (case remove_route be r sc w of
             (Ok _, w) \<Rightarrow> remove_loop be rest retained first_error w
           | (Err e, w) \<Rightarrow> remove_loop be rest (retained @ [r]) (or_first first_error e) w))"

definition remove_present_routes ::
  "('e, 'n, 'w) route_backend \<Rightarrow> owned_route list \<Rightarrow> service_error option \<Rightarrow> 'w \<Rightarrow>
   owned_route list \<times> service_error option \<times> 'w" where
  "remove_present_routes be rs first_error w =
     (if rs = [] then ([], first_error, w)
      else
        (case route_presence be rs w of
           (Ok presence, w) \<Rightarrow>
             if length presence = length rs
             then remove_loop be (zip rs presence) [] first_error w
             else (rs, or_first first_error (Backend ''route_table_unavailable''), w)
         | (Err e, w) \<Rightarrow> (rs, or_first first_error e, w)))"

definition has_routes :: "'w route_manager \<Rightarrow> bool" where
  "has_routes m \<longleftrightarrow> st_routes (route_state m) \<noteq> [] \<or> st_pending_routes (route_state m) \<noteq> []"

text \<open>How \<^verbatim>\<open>cleanup\<close> ends, once the routes have been removed.\<close>

definition finish_cleanup ::
  "route_json \<Rightarrow> service_error option \<Rightarrow> 'w route_manager \<Rightarrow> (service_error, unit) result \<times> 'w route_manager" where
  "finish_cleanup js first_error m =
     bind_io
       (if \<not> has_routes m
        then (case remove_state (state_path m) (manager_fs m) of
                (r, w) \<Rightarrow>
                  (r, m\<lparr>route_state := (route_state m)\<lparr>st_policy_hash := None\<rparr>, manager_fs := w\<rparr>))
        else persist js m)
       (\<lambda>_ m. (case first_error of None \<Rightarrow> Ok () | Some e \<Rightarrow> Err e, m))"

definition cleanup ::
  "route_json \<Rightarrow> ('e, 'n, 'w) route_backend \<Rightarrow> 'w route_manager \<Rightarrow>
   (service_error, unit) result \<times> 'w route_manager" where
  "cleanup js be m =
     (case remove_present_routes be (st_routes (route_state m)) None (manager_net m) of
        (rs, first_error, net) \<Rightarrow>
          (case remove_present_routes be (st_pending_routes (route_state m)) first_error net of
             (ps, first_error, net) \<Rightarrow>
               finish_cleanup js first_error
                 (m\<lparr>route_state := (route_state m)\<lparr>st_routes := rs, st_pending_routes := ps\<rparr>,
                    manager_net := net\<rparr>)))"

text \<open>The installation loop of \<^verbatim>\<open>apply\<close>: the routes applied so far and the error that stopped it.\<close>

fun add_loop ::
  "('e, 'n, 'w) route_backend \<Rightarrow> owned_route list \<Rightarrow> owned_route list \<Rightarrow> 'w \<Rightarrow>
   owned_route list \<times> service_error option \<times> 'w" where
  "add_loop be [] applied w = (applied, None, w)"
| "add_loop be (r # rs) applied w =
     (case add_route be r w of
        (Err e, w) \<Rightarrow> (applied, Some e, w)
      | (Ok _, w) \<Rightarrow> add_loop be rs (applied @ [r]) w)"

definition install_routes ::
  "route_json \<Rightarrow> ('e, 'n, 'w) route_backend \<Rightarrow> owned_route list \<Rightarrow> 'w route_manager \<Rightarrow>
   (service_error, unit) result \<times> 'w route_manager" where
  "install_routes js be rs m =
     (case add_loop be rs [] (manager_net m) of
        (applied, failure, net) \<Rightarrow>
          (let m = m\<lparr>route_state := (route_state m)\<lparr>st_routes := applied, st_pending_routes := []\<rparr>,
                     manager_net := net\<rparr> in
           case persist js m of
             (persisted, m) \<Rightarrow>
               (case failure of
                  Some e \<Rightarrow> (Err e, snd (cleanup js be m))
                | None \<Rightarrow>
                    (case persisted of
                       Err e \<Rightarrow> (Err e, snd (cleanup js be m))
                     | Ok _ \<Rightarrow> (Ok (), m)))))"

definition apply_plan ::
  "route_json \<Rightarrow> ('e, 'n, 'w) route_backend \<Rightarrow> 'n ipv4_route_plan \<Rightarrow> 'w route_manager \<Rightarrow>
   (service_error, unit) result \<times> 'w route_manager" where
  "apply_plan js be plan m =
     (case discover_egress be (manager_net m) of
        (Err e, net) \<Rightarrow> (Err e, m\<lparr>manager_net := net\<rparr>)
      | (Ok egress, net) \<Rightarrow>
          (let rs = map (owned_route_of be egress) (excluded_networks plan) in
           case route_presence be rs net of
             (Err e, net) \<Rightarrow> (Err e, m\<lparr>manager_net := net\<rparr>)
           | (Ok presence, net) \<Rightarrow>
               if list_ex (\<lambda>p. p \<noteq> None) presence
               then (Err (Backend ''route_conflict''), m\<lparr>manager_net := net\<rparr>)
               else
                 (let m = m\<lparr>route_state := (route_state m)\<lparr>st_policy_hash := plan_policy_hash plan,
                            st_pending_routes := rs\<rparr>, manager_net := net\<rparr> in
                  bind_io (persist js m) (\<lambda>_ m. install_routes js be rs m))))"

definition apply_routes ::
  "('n::linorder, 'y) ipnet_api_scheme \<Rightarrow> route_json \<Rightarrow> ('e, 'n, 'w) route_backend \<Rightarrow>
   desktop_tunnel_options \<Rightarrow> 'w route_manager \<Rightarrow> (service_error, unit) result \<times> 'w route_manager" where
  "apply_routes napi js be options m =
     bind_io (cleanup js be m) (\<lambda>_ m.
       case from_options napi options of
         Err e \<Rightarrow> (Err (Backend (route_plan_stable_code e)), m)
       | Ok plan \<Rightarrow>
           if \<not> plan_active plan then (Ok (), m)
           else if excluded_networks plan = [] then (Ok (), m)
           else apply_plan js be plan m)"

text \<open>\<open>sha256\<close> is \<^verbatim>\<open>Sha256::digest\<close>.\<close>

definition physical_network_fingerprint ::
  "(bytes \<Rightarrow> u8 list) \<Rightarrow> ('e, 'n::linorder, 'w) route_backend \<Rightarrow> 'w route_manager \<Rightarrow>
   (service_error, string) result \<times> 'w route_manager" where
  "physical_network_fingerprint sha256 be m =
     (case bind_io (discover_egress be (manager_net m)) (\<lambda>egress net.
             bind_io (local_networks be egress net) (\<lambda>networks net.
               (Ok (hex_string (sha256 (fingerprint_material be egress (remdups_adj (sort networks))))),
                net))) of
        (r, net) \<Rightarrow> (r, m\<lparr>manager_net := net\<rparr>))"

section \<open>What the state file records\<close>

definition recorded_in :: "owned_route_state \<Rightarrow> owned_route set" where
  "recorded_in s = set (st_routes s) \<union> set (st_pending_routes s)"

definition recorded_at :: "route_json \<Rightarrow> path \<Rightarrow> fs \<Rightarrow> owned_route set" where
  "recorded_at js p w =
     (case nodes w p of
        None \<Rightarrow> {}
      | Some n \<Rightarrow>
          (case nd_kind n of
             RegularFile bs \<Rightarrow>
               (case state_from_slice js bs of None \<Rightarrow> {} | Some s \<Rightarrow> recorded_in s)
           | _ \<Rightarrow> {}))"

text \<open>The node that \<^verbatim>\<open>persist\<close> leaves at the state path.\<close>

definition state_node :: "fs \<Rightarrow> bytes \<Rightarrow> node" where
  "state_node w bs = \<lparr>nd_kind = RegularFile bs, nd_uid = euid w, nd_mode = 0x180\<rparr>"

definition good_file :: "route_json \<Rightarrow> path \<Rightarrow> fs \<Rightarrow> bool" where
  "good_file js p w \<longleftrightarrow>
     nodes w p = None
     \<or> (\<exists>s bs. nodes w p = Some (state_node w bs) \<and> state_to_vec js s = Some bs
          \<and> length bs \<le> MAX_STATE_SIZE \<and> st_format_version s = ROUTE_STATE_FORMAT \<and> route_count_ok s)"

definition route_json_reads_back :: "route_json \<Rightarrow> bool" where
  "route_json_reads_back js \<longleftrightarrow>
     (\<forall>s bs. state_to_vec js s = Some bs \<longrightarrow> state_from_slice js bs = Some s)"

definition is_state_path :: "path \<Rightarrow> bool" where
  "is_state_path p \<longleftrightarrow> (\<exists>dir. p = dir @ [ROUTE_STATE_FILE])"

lemma temporary_not_state_path:
  assumes "is_state_path p"
  shows "with_extension ''json.new'' p \<noteq> p"
proof -
  have "rsplit_once (CHR ''.'') ROUTE_STATE_FILE = Some (''routes-state'', ''json'')"
    by (simp add: rsplit_once_def ROUTE_STATE_FILE_def)
  with assms show ?thesis
    by (auto simp: is_state_path_def with_extension_def Let_def ROUTE_STATE_FILE_def)
qed

text \<open>Calls on another path leave the node at \<open>p\<close> alone.\<close>

definition same_at :: "path \<Rightarrow> fs \<Rightarrow> fs \<Rightarrow> bool" where
  "same_at p w w' \<longleftrightarrow> nodes w' p = nodes w p \<and> euid w' = euid w"

lemma same_at_trans: "same_at p u v \<Longrightarrow> same_at p v w \<Longrightarrow> same_at p u w"
  by (simp add: same_at_def)

lemmas fs_call_defs = symlink_metadata_def remove_file_def create_new_def file_write_all_def
  append_file_def sync_all_def fs_rename_def path_exists_def fs_read_def

lemma fs_calls_same_at:
  "same_at p w (snd (symlink_metadata q w))"
  "q \<noteq> p \<Longrightarrow> same_at p w (snd (remove_file q w))"
  "q \<noteq> p \<Longrightarrow> same_at p w (snd (create_new m q w))"
  "q \<noteq> p \<Longrightarrow> same_at p w (snd (file_write_all bs q w))"
  "same_at p w (snd (sync_all w))"
  "same_at p w (snd (path_exists q w))"
  "same_at p w (snd (fs_read q w))"
  by (auto simp: fs_call_defs same_at_def dest!: next_fault_frame
      split: prod.splits option.splits if_splits node_kind.splits)

lemma bind_io_same_at:
  "same_at p w (snd m) \<Longrightarrow> (\<And>x v. same_at p v (snd (f x v))) \<Longrightarrow> same_at p w (snd (bind_io m f))"
  by (cases m; cases "fst m") (auto intro: same_at_trans)

lemma snd_map_err_io [simp]: "snd (map_err_io f m) = snd m"
  by (simp add: map_err_io_def)

lemma remove_stale_temporary_same_at:
  assumes "q \<noteq> p"
  shows "same_at p w (snd (remove_stale_temporary q w))"
proof -
  obtain r v where meta: "symlink_metadata q w = (r, v)" by fastforce
  then have "same_at p w v" using fs_calls_same_at(1) [of p w q] by simp
  then show ?thesis
    using assms fs_calls_same_at(2) [of q p v]
    by (auto simp: remove_stale_temporary_def meta intro: same_at_trans
        split: sum.splits io_error.splits)
qed

text \<open>\<^verbatim>\<open>persist\<close> replaces the state file as a whole or leaves it as it was.\<close>

lemma write_private_file_effect:
  assumes "q \<noteq> p" and "write_private_file bs q p w = (r, w')"
  shows "(if is_ok r then nodes w' p = Some (state_node w bs) \<and> euid w' = euid w else same_at p w w')"
proof -
  let ?E = "\<lambda>_::io_error. Backend ''route_state_write_failed''"
  obtain r1 w1 where c: "create_new 0x180 q w = (r1, w1)" by fastforce
  obtain r2 w2 where f: "file_write_all bs q w1 = (r2, w2)" by fastforce
  obtain r3 w3 where y: "sync_all w2 = (r3, w3)" by fastforce
  obtain r4 w4 where n: "fs_rename q p w3 = (r4, w4)" by fastforce
  have same: "same_at p w w1" "same_at p w1 w2" "same_at p w2 w3"
    using fs_calls_same_at(3) [OF assms(1), of w "0x180"] fs_calls_same_at(4) [OF assms(1), of w1 bs]
      fs_calls_same_at(5) [of p w2] c f y by simp_all
  have w1: "nodes w1 q = Some (state_node w [])" "euid w1 = euid w" if "r1 = Ok ()"
    using c that by (auto simp: create_new_def state_node_def dest!: next_fault_frame
        split: prod.splits option.splits)
  have w2: "nodes w2 q = Some (state_node w bs)" if "r1 = Ok ()" "r2 = Ok ()"
    using f that w1 by (auto simp: file_write_all_def append_file_def state_node_def
        dest!: next_fault_frame split: prod.splits option.splits)
  have w3: "nodes w3 = nodes w2" using y by (auto simp: sync_all_def dest!: next_fault_frame split: prod.splits option.splits)
  have w4: "nodes w4 p = Some (state_node w bs) \<and> euid w4 = euid w"
    if "r1 = Ok ()" "r2 = Ok ()" "r4 = Ok ()"
    using n that w2 w3 same by (auto simp: fs_rename_def same_at_def dest!: next_fault_frame
        split: prod.splits option.splits if_splits)
  have w4': "same_at p w3 w4" if "r4 \<noteq> Ok ()"
    using n that by (auto simp: fs_rename_def same_at_def dest!: next_fault_frame
        split: prod.splits option.splits if_splits)
  show ?thesis
    using assms(2) c f y n same w4 w4'
    by (cases r1; cases r2; cases r3; cases r4)
      (auto simp: write_private_file_def intro: same_at_trans)
qed

lemma persist_state_effect:
  assumes "is_state_path p" and "persist_state js p s w = (r, w')"
  shows "(if is_ok r
          then route_count_ok s \<and> euid w' = euid w
            \<and> (\<exists>bs. state_to_vec js s = Some bs \<and> length bs \<le> MAX_STATE_SIZE
                 \<and> nodes w' p = Some (state_node w bs))
          else same_at p w w')"
proof -
  let ?q = "with_extension ''json.new'' p"
  have q: "?q \<noteq> p" using assms(1) by (rule temporary_not_state_path)
  obtain r1 w1 where stale: "remove_stale_temporary ?q w = (r1, w1)" by fastforce
  have same: "same_at p w w1" using remove_stale_temporary_same_at [OF q, of w] stale by simp
  show ?thesis
  proof (cases "route_count_ok s \<and> (\<exists>bs. state_to_vec js s = Some bs \<and> length bs \<le> MAX_STATE_SIZE) \<and> is_ok r1")
    case True
    then obtain bs where bs: "state_to_vec js s = Some bs" "length bs \<le> MAX_STATE_SIZE" by blast
    with True assms(2) stale have w: "write_private_file bs ?q p w1 = (r, w')"
      by (auto simp: persist_state_def Let_def is_ok_iff)
    show ?thesis
      using write_private_file_effect [OF q w] same True bs
      by (auto simp: same_at_def state_node_def split: if_splits)
  next
    case False
    then have "w' = w \<or> w' = w1" "\<not> is_ok r"
      using assms(2) stale by (auto simp: persist_state_def Let_def is_ok_iff split: if_splits option.splits sum.splits)
        (cases r1; auto)+
    with same show ?thesis by (auto simp: same_at_def)
  qed
qed

section \<open>The routing table\<close>

text \<open>What the manager relies on from the commands of the backend, with \<open>table\<close> the routes installed:
  looking changes nothing and a route reported absent is absent; an addition that succeeds installs
  the route and one that fails changes nothing; a removal that succeeds removes the route, and one
  that fails at most removes it.\<close>

definition route_laws :: "('e, 'n, 'w) route_backend \<Rightarrow> ('w \<Rightarrow> owned_route set) \<Rightarrow> bool" where
  "route_laws be table \<longleftrightarrow>
     (\<forall>w. table (snd (discover_egress be w)) = table w)
     \<and> (\<forall>rs w. table (snd (route_presence be rs w)) = table w)
     \<and> (\<forall>rs w ps. fst (route_presence be rs w) = Ok ps \<longrightarrow>
          length ps = length rs \<and> (\<forall>i < length rs. ps ! i = None \<longrightarrow> rs ! i \<notin> table w))
     \<and> (\<forall>r w. table (snd (add_route be r w)) =
          (if is_ok (fst (add_route be r w)) then insert r (table w) else table w))
     \<and> (\<forall>r sc w. table (snd (remove_route be r sc w)) \<subseteq> table w
          \<and> table w - {r} \<subseteq> table (snd (remove_route be r sc w))
          \<and> (is_ok (fst (remove_route be r sc w)) \<longrightarrow> r \<notin> table (snd (remove_route be r sc w))))"

lemma discover_egress_table:
  "route_laws be table \<Longrightarrow> discover_egress be w = (x, w') \<Longrightarrow> table w' = table w"
  unfolding route_laws_def by (metis snd_conv)

lemma route_presence_table:
  "route_laws be table \<Longrightarrow> route_presence be rs w = (x, w') \<Longrightarrow> table w' = table w"
  unfolding route_laws_def by (metis snd_conv)

lemma route_presence_absent:
  assumes "route_laws be table" and "route_presence be rs w = (Ok ps, w')"
  shows "length ps = length rs \<and> (\<forall>(r, p) \<in> set (zip rs ps). p = None \<longrightarrow> r \<notin> table w)"
proof -
  have "fst (route_presence be rs w) = Ok ps" using assms(2) by simp
  with assms(1) have "length ps = length rs" "\<forall>i < length rs. ps ! i = None \<longrightarrow> rs ! i \<notin> table w"
    by (simp_all add: route_laws_def)
  then show ?thesis by (auto simp: set_zip)
qed

lemma add_route_table:
  "route_laws be table \<Longrightarrow> add_route be r w = (x, w') \<Longrightarrow>
   table w' = (if is_ok x then insert r (table w) else table w)"
  unfolding route_laws_def by (metis fst_conv snd_conv)

lemma remove_route_table:
  "route_laws be table \<Longrightarrow> remove_route be r sc w = (x, w') \<Longrightarrow>
   table w' \<subseteq> table w \<and> table w - {r} \<subseteq> table w' \<and> (is_ok x \<longrightarrow> r \<notin> table w')"
  unfolding route_laws_def by (metis fst_conv snd_conv)

lemma or_first_Some [simp]: "or_first m e \<noteq> None" "\<exists>x. or_first m e = Some x"
  by (cases m; simp add: or_first_def)+

lemma remove_loop_effect:
  assumes "route_laws be table" and "remove_loop be xs retained fe w = (retained', fe', w')"
  shows "table w' \<subseteq> table w \<and> table w - fst ` set xs \<subseteq> table w'
    \<and> set retained \<subseteq> set retained' \<and> set retained' \<subseteq> set retained \<union> fst ` set xs
    \<and> (\<forall>(r, sc) \<in> set xs. sc \<noteq> None \<longrightarrow> r \<in> table w' \<longrightarrow> r \<in> set retained')
    \<and> (fe' = None \<longrightarrow> fe = None \<and> retained' = retained)"
  using assms(2)
proof (induction xs arbitrary: retained fe w)
  case Nil
  then show ?case by simp
next
  case (Cons x xs)
  obtain r sc where x: "x = (r, sc)" by fastforce
  show ?case
  proof (cases sc)
    case None
    with Cons.prems x have "remove_loop be xs retained fe w = (retained', fe', w')" by simp
    from Cons.IH [OF this] None x show ?thesis by auto
  next
    case (Some scope)
    obtain y w1 where rm: "remove_route be r scope w = (y, w1)" by fastforce
    note tab = remove_route_table [OF assms(1) rm]
    show ?thesis
    proof (cases y)
      case (Inl e)
      with Cons.prems x Some rm
      have "remove_loop be xs (retained @ [r]) (or_first fe e) w1 = (retained', fe', w')" by simp
      from Cons.IH [OF this] tab x show ?thesis by auto
    next
      case (Inr u)
      with Cons.prems x Some rm have "remove_loop be xs retained fe w1 = (retained', fe', w')" by simp
      from Cons.IH [OF this] tab x Inr show ?thesis by auto
    qed
  qed
qed

lemma remove_present_routes_effect:
  assumes laws: "route_laws be table"
    and rm: "remove_present_routes be rs fe w = (retained, fe', w')"
  shows "table w' \<subseteq> table w \<and> table w - set rs \<subseteq> table w' \<and> set rs \<inter> table w' \<subseteq> set retained
    \<and> set retained \<subseteq> set rs \<and> (fe' = None \<longrightarrow> fe = None \<and> retained = [])"
proof (cases "rs = []")
  case True
  with rm show ?thesis by (simp add: remove_present_routes_def)
next
  case False
  obtain x w1 where pres: "route_presence be rs w = (x, w1)" by fastforce
  note tab = route_presence_table [OF laws pres]
  show ?thesis
  proof (cases x)
    case (Inl e)
    with False rm pres tab show ?thesis by (auto simp: remove_present_routes_def)
  next
    case (Inr ps)
    note absent = route_presence_absent [OF laws pres [unfolded Inr]]
    with False rm pres Inr have loop: "remove_loop be (zip rs ps) [] fe w1 = (retained, fe', w')"
      by (simp add: remove_present_routes_def)
    have sets: "fst ` set (zip rs ps) = set rs"
      using absent by (metis list.set_map map_fst_zip)
    have "r \<in> set retained" if "r \<in> set rs" "r \<in> table w'" for r
    proof -
      from that(1) sets obtain sc where z: "(r, sc) \<in> set (zip rs ps)" by force
      have "r \<in> table w" using remove_loop_effect [OF laws loop] that(2) tab by auto
      with absent z have "sc \<noteq> None" by auto
      with remove_loop_effect [OF laws loop] z that(2) show ?thesis by auto
    qed
    with remove_loop_effect [OF laws loop] sets tab show ?thesis by auto
  qed
qed

lemma add_loop_effect:
  assumes "route_laws be table" and "add_loop be rs applied w = (applied', failure, w')"
  shows "\<exists>new rest. rs = new @ rest \<and> applied' = applied @ new \<and> table w' = table w \<union> set new
    \<and> (failure = None \<longrightarrow> rest = [])"
  using assms(2)
proof (induction rs arbitrary: applied w)
  case Nil
  then show ?case by simp
next
  case (Cons r rs)
  obtain x w1 where add: "add_route be r w = (x, w1)" by fastforce
  note tab = add_route_table [OF assms(1) add]
  show ?case
  proof (cases x)
    case (Inl e)
    with Cons.prems add tab show ?thesis by auto
  next
    case (Inr u)
    with Cons.prems add have "add_loop be rs (applied @ [r]) w1 = (applied', failure, w')" by simp
    from Cons.IH [OF this] obtain new rest where
      "rs = new @ rest" "applied' = (applied @ [r]) @ new" "table w' = table w1 \<union> set new"
      "failure = None \<longrightarrow> rest = []" by blast
    with tab Inr show ?thesis by (intro exI [of _ "r # new"] exI [of _ rest]) auto
  qed
qed

section \<open>The invariant\<close>

text \<open>\<open>F\<close> are the routes of others.  They stay installed; every other installed route is recorded both
  in memory and in the state file, neither of which names a route of others; and the state file, if
  there is one, is readable.\<close>

definition route_inv ::
  "route_json \<Rightarrow> ('w \<Rightarrow> owned_route set) \<Rightarrow> owned_route set \<Rightarrow> 'w route_manager \<Rightarrow> bool" where
  "route_inv js table F m \<longleftrightarrow>
     is_state_path (state_path m) \<and> st_format_version (route_state m) = ROUTE_STATE_FORMAT
     \<and> good_file js (state_path m) (manager_fs m)
     \<and> F \<subseteq> table (manager_net m)
     \<and> table (manager_net m) - F \<subseteq> recorded_in (route_state m)
     \<and> table (manager_net m) - F \<subseteq> recorded_at js (state_path m) (manager_fs m)
     \<and> recorded_in (route_state m) \<inter> F = {}
     \<and> recorded_at js (state_path m) (manager_fs m) \<inter> F = {}"

lemma same_at_good_file: "same_at p w w' \<Longrightarrow> good_file js p w \<Longrightarrow> good_file js p w'"
  by (simp add: same_at_def good_file_def state_node_def)

lemma same_at_recorded: "same_at p w w' \<Longrightarrow> recorded_at js p w' = recorded_at js p w"
  by (simp add: same_at_def recorded_at_def)

lemma persist_effect:
  assumes "route_json_reads_back js" and "is_state_path (state_path m)"
    and "st_format_version (route_state m) = ROUTE_STATE_FORMAT" and "persist js m = (r, m')"
  shows "m' = m\<lparr>manager_fs := manager_fs m'\<rparr>"
    and "good_file js (state_path m) (manager_fs m) \<Longrightarrow> good_file js (state_path m) (manager_fs m')"
    and "recorded_at js (state_path m) (manager_fs m')
      = (if is_ok r then recorded_in (route_state m) else recorded_at js (state_path m) (manager_fs m))"
proof -
  from assms(4) obtain w' where
    pw: "persist_state js (state_path m) (route_state m) (manager_fs m) = (r, w')"
    and m': "m' = m\<lparr>manager_fs := w'\<rparr>"
    by (auto simp: persist_def split: prod.splits)
  note eff = persist_state_effect [OF assms(2) pw]
  show "m' = m\<lparr>manager_fs := manager_fs m'\<rparr>" using m' by simp
  show "good_file js (state_path m) (manager_fs m')" if "good_file js (state_path m) (manager_fs m)"
    using eff m' that assms(3) same_at_good_file
    by (cases "is_ok r") (auto simp: good_file_def state_node_def same_at_def)
  show "recorded_at js (state_path m) (manager_fs m')
      = (if is_ok r then recorded_in (route_state m) else recorded_at js (state_path m) (manager_fs m))"
    using eff m' assms(1) same_at_recorded
    by (cases "is_ok r") (auto simp: recorded_at_def state_node_def route_json_reads_back_def)
qed

lemma remove_state_effect:
  "remove_state p w = (r, w') \<Longrightarrow>
   (if is_ok r then nodes w' p = None \<and> euid w' = euid w else same_at p w w')"
  by (auto simp: remove_state_def remove_file_def same_at_def dest!: next_fault_frame
      split: prod.splits sum.splits option.splits if_splits io_error.splits)

lemma removed_inv:
  assumes laws: "route_laws be table"
    and inv: "route_inv js table F m"
    and r1: "remove_present_routes be (st_routes (route_state m)) None (manager_net m) = (rs, fe1, net1)"
    and r2: "remove_present_routes be (st_pending_routes (route_state m)) fe1 net1 = (ps, fe2, net2)"
  shows "route_inv js table F (m\<lparr>route_state := (route_state m)\<lparr>st_routes := rs, st_pending_routes := ps\<rparr>,
      manager_net := net2\<rparr>)" (is "route_inv js table F ?m1")
    and "fe2 = None \<Longrightarrow> rs = [] \<and> ps = []"
    and "rs = [] \<Longrightarrow> ps = [] \<Longrightarrow> table net2 = F"
proof -
  let ?T = "table (manager_net m)" and ?p = "state_path m"
  note e1 = remove_present_routes_effect [OF laws r1]
    and e2 = remove_present_routes_effect [OF laws r2]
  let ?R = "set (st_routes (route_state m))" and ?P = "set (st_pending_routes (route_state m))"
  have I: "F \<subseteq> ?T" "?T - F \<subseteq> ?R \<union> ?P" "(?R \<union> ?P) \<inter> F = {}"
    using inv by (simp_all add: route_inv_def recorded_in_def)
  have s1: "table net2 \<subseteq> ?T" using e1 e2 by blast
  have s2: "F \<subseteq> table net2" using e1 e2 I by blast
  have s3: "table net2 - F \<subseteq> set rs \<union> set ps" using e1 e2 I by blast
  have s4: "(set rs \<union> set ps) \<inter> F = {}" using e1 e2 I by blast
  have D: "table net2 - F \<subseteq> recorded_at js ?p (manager_fs m)"
    using inv s1 unfolding route_inv_def by blast
  show "route_inv js table F ?m1"
    using inv s2 s3 s4 D by (simp add: route_inv_def recorded_in_def)
  show "fe2 = None \<Longrightarrow> rs = [] \<and> ps = []" using e1 e2 by blast
  show "rs = [] \<Longrightarrow> ps = [] \<Longrightarrow> table net2 = F" using s2 s3 by auto
qed

lemma cleanup_finish:
  assumes "remove_present_routes be (st_routes (route_state m)) None (manager_net m) = (rs, fe1, net1)"
    and "remove_present_routes be (st_pending_routes (route_state m)) fe1 net1 = (ps, fe2, net2)"
  shows "cleanup js be m = finish_cleanup js fe2
    (m\<lparr>route_state := (route_state m)\<lparr>st_routes := rs, st_pending_routes := ps\<rparr>, manager_net := net2\<rparr>)"
  using assms by (simp add: cleanup_def)

lemma finish_cleanup_inv:
  assumes reads: "route_json_reads_back js" and inv: "route_inv js table F m"
    and fin: "finish_cleanup js fe m = (r, m')"
    and fe: "fe = None \<Longrightarrow> \<not> has_routes m"
    and T: "\<not> has_routes m \<Longrightarrow> table (manager_net m) = F"
  shows "route_inv js table F m' \<and> state_path m' = state_path m
    \<and> (r = Ok () \<longrightarrow> table (manager_net m') = F \<and> \<not> has_routes m'
         \<and> nodes (manager_fs m') (state_path m') = None)"
proof (cases "has_routes m")
  case False
  let ?p = "state_path m"
  obtain y w' where rm: "remove_state ?p (manager_fs m) = (y, w')" by fastforce
  note eff = remove_state_effect [OF rm]
  have m': "m' = m\<lparr>route_state := (route_state m)\<lparr>st_policy_hash := None\<rparr>, manager_fs := w'\<rparr>"
    and r: "r = Ok () \<Longrightarrow> is_ok y"
    using fin False rm by (cases y; auto simp: finish_cleanup_def)+
  have disk: "good_file js ?p w' \<and> recorded_at js ?p w' \<inter> F = {}"
  proof (cases "is_ok y")
    case True
    with eff show ?thesis by (simp add: good_file_def recorded_at_def)
  next
    case False
    with eff inv show ?thesis
      using same_at_good_file [of ?p "manager_fs m" w' js] same_at_recorded [of ?p "manager_fs m" w' js]
      by (simp add: route_inv_def)
  qed
  have "recorded_in (route_state m') = recorded_in (route_state m)"
    using m' by (simp add: recorded_in_def)
  then have "route_inv js table F m'"
    using inv m' disk T [OF False] by (simp add: route_inv_def)
  then show ?thesis
    using m' T [OF False] False r eff by (auto simp: has_routes_def)
next
  case True
  obtain y m1 where per: "persist js m = (y, m1)" by fastforce
  have m1: "m' = m1" "r \<noteq> Ok ()"
    using fin True per fe by (cases y; cases fe; auto simp: finish_cleanup_def)+
  have path: "is_state_path (state_path m)" "st_format_version (route_state m) = ROUTE_STATE_FORMAT"
    using inv by (simp_all add: route_inv_def)
  note eff = persist_effect [OF reads path per]
  obtain w1 where w1: "m1 = m\<lparr>manager_fs := w1\<rparr>" using eff(1) by metis
  have "route_inv js table F m1"
    using inv eff(2,3) by (auto simp: w1 route_inv_def)
  with m1 w1 show ?thesis by simp
qed

lemma cleanup_inv:
  assumes laws: "route_laws be table" "route_json_reads_back js"
    and inv: "route_inv js table F m" and cl: "cleanup js be m = (r, m')"
  shows "route_inv js table F m' \<and> state_path m' = state_path m
    \<and> (r = Ok () \<longrightarrow> table (manager_net m') = F \<and> \<not> has_routes m'
         \<and> nodes (manager_fs m') (state_path m') = None)"
proof -
  obtain rs fe1 net1 where r1: "remove_present_routes be (st_routes (route_state m)) None (manager_net m)
      = (rs, fe1, net1)" by (metis prod_cases3)
  obtain ps fe2 net2 where r2: "remove_present_routes be (st_pending_routes (route_state m)) fe1 net1
      = (ps, fe2, net2)" by (metis prod_cases3)
  let ?m1 = "m\<lparr>route_state := (route_state m)\<lparr>st_routes := rs, st_pending_routes := ps\<rparr>, manager_net := net2\<rparr>"
  note removed = removed_inv [OF laws(1) inv r1 r2]
  have fin: "finish_cleanup js fe2 ?m1 = (r, m')" using cl cleanup_finish [OF r1 r2, of js] by simp
  have fe: "fe2 = None \<Longrightarrow> \<not> has_routes ?m1" and T: "\<not> has_routes ?m1 \<Longrightarrow> table (manager_net ?m1) = F"
    using removed(2,3) by (auto simp: has_routes_def)
  show ?thesis
    using finish_cleanup_inv [OF laws(2) removed(1) fin fe T] by auto
qed

lemma persist_inv:
  assumes reads: "route_json_reads_back js" and inv: "route_inv js table F m"
    and per: "persist js m = (r, m')"
  shows "route_inv js table F m' \<and> m' = m\<lparr>manager_fs := manager_fs m'\<rparr>
    \<and> (is_ok r \<longrightarrow> recorded_at js (state_path m) (manager_fs m') = recorded_in (route_state m))"
proof -
  have path: "is_state_path (state_path m)" "st_format_version (route_state m) = ROUTE_STATE_FORMAT"
    using inv by (simp_all add: route_inv_def)
  note eff = persist_effect [OF reads path per]
  obtain w where w: "m' = m\<lparr>manager_fs := w\<rparr>" using eff(1) by metis
  have "route_inv js table F m'" using inv eff(2,3) by (auto simp: w route_inv_def)
  with eff w show ?thesis by simp
qed

lemma install_routes_inv:
  assumes laws: "route_laws be table" "route_json_reads_back js"
    and inv: "route_inv js table F m"
    and T: "table (manager_net m) = F"
    and D: "recorded_at js (state_path m) (manager_fs m) = set rs"
    and ins: "install_routes js be rs m = (r, m')"
  shows "route_inv js table F m'
    \<and> (r = Ok () \<longrightarrow> table (manager_net m') = F \<union> set rs \<and> st_routes (route_state m') = rs
         \<and> st_pending_routes (route_state m') = [])"
proof -
  obtain applied failure net where add: "add_loop be rs [] (manager_net m) = (applied, failure, net)"
    by (metis prod_cases3)
  from add_loop_effect [OF laws(1) add] obtain rest where
    rest: "rs = applied @ rest" "table net = F \<union> set applied" "failure = None \<longrightarrow> rest = []"
    using T by auto
  let ?m1 = "m\<lparr>route_state := (route_state m)\<lparr>st_routes := applied, st_pending_routes := []\<rparr>, manager_net := net\<rparr>"
  have inv1: "route_inv js table F ?m1"
    using inv rest D by (auto simp: route_inv_def recorded_in_def)
  obtain y m2 where per: "persist js ?m1 = (y, m2)" by fastforce
  note p = persist_inv [OF laws(2) inv1 per]
  have clean: "route_inv js table F (snd (cleanup js be m2))"
    using cleanup_inv [OF laws, of F m2] p by (metis surjective_pairing)
  show ?thesis
  proof (cases "failure = None \<and> is_ok y")
    case True
    then have eq: "r = Ok ()" "m' = m2"
      using ins add per by (auto simp: install_routes_def is_ok_iff)
    obtain w where "m2 = ?m1\<lparr>manager_fs := w\<rparr>" using p by metis
    with True rest p eq show ?thesis by simp
  next
    case False
    then have "r \<noteq> Ok ()" "m' = snd (cleanup js be m2)"
      using ins add per
      by (cases failure; cases y; auto simp: install_routes_def)+
    with clean show ?thesis by simp
  qed
qed

lemma all_absent:
  assumes "route_laws be table" and "route_presence be rs w = (Ok ps, w')"
    and "\<not> list_ex (\<lambda>p. p \<noteq> None) ps"
  shows "set rs \<inter> table w = {}"
proof -
  note absent = route_presence_absent [OF assms(1,2)]
  have "r \<notin> table w" if "r \<in> set rs" for r
  proof -
    from that have "r \<in> fst ` set (zip rs ps)" using absent by (metis list.set_map map_fst_zip)
    then obtain p where p: "(r, p) \<in> set (zip rs ps)" by force
    then have "p = None" using assms(3) by (auto simp: list_ex_iff dest: set_zip_rightD)
    with absent p show ?thesis by auto
  qed
  then show ?thesis by blast
qed

text \<open>From the recorded plan on: the plan is pending in memory, then on disk, then installed.\<close>

lemma record_and_install_inv:
  assumes laws: "route_laws be table" "route_json_reads_back js"
    and inv: "route_inv js table F m"
    and T: "table (manager_net m) = F" "set rs \<inter> F = {}" and empty: "\<not> has_routes m"
    and m1: "m1 = m\<lparr>route_state := (route_state m)\<lparr>st_policy_hash := h, st_pending_routes := rs\<rparr>,
               manager_net := net\<rparr>" "table net = F"
    and run: "bind_io (persist js m1) (\<lambda>_ m. install_routes js be rs m) = (r, m')"
  shows "route_inv js table F m'
    \<and> (r = Ok () \<longrightarrow> table (manager_net m') = F \<union> set rs \<and> recorded_in (route_state m') = set rs)"
proof -
  have inv1: "route_inv js table F m1"
    using inv T m1 empty by (simp add: route_inv_def recorded_in_def has_routes_def)
  obtain z m2 where per: "persist js m1 = (z, m2)" by fastforce
  note p = persist_inv [OF laws(2) inv1 per]
  obtain w where m2: "m2 = m1\<lparr>manager_fs := w\<rparr>" using p by metis
  show ?thesis
  proof (cases z)
    case (Inl e)
    with run per p show ?thesis by auto
  next
    case (Inr u)
    with run per have ins: "install_routes js be rs m2 = (r, m')" by simp
    have T2: "table (manager_net m2) = F" using m1 m2 by simp
    have D2: "recorded_at js (state_path m2) (manager_fs m2) = set rs"
      using p Inr m1 m2 empty by (auto simp: recorded_in_def has_routes_def)
    show ?thesis
      using install_routes_inv [OF laws conjunct1 [OF p] T2 D2 ins] by (auto simp: recorded_in_def)
  qed
qed

lemma apply_plan_inv:
  assumes laws: "route_laws be table" "route_json_reads_back js"
    and inv: "route_inv js table F m"
    and T: "table (manager_net m) = F" and empty: "\<not> has_routes m"
    and ap: "apply_plan js be plan m = (r, m')"
  shows "route_inv js table F m'
    \<and> (r = Ok () \<longrightarrow> (\<exists>egress. fst (discover_egress be (manager_net m)) = Ok egress
         \<and> table (manager_net m') = F \<union> owned_route_of be egress ` set (excluded_networks plan)
         \<and> recorded_in (route_state m') = owned_route_of be egress ` set (excluded_networks plan)))"
proof -
  have keep: "route_inv js table F (m\<lparr>manager_net := net\<rparr>)" if "table net = table (manager_net m)" for net
    using inv that by (simp add: route_inv_def)
  obtain x net1 where dis: "discover_egress be (manager_net m) = (x, net1)" by fastforce
  note t1 = discover_egress_table [OF laws(1) dis]
  show ?thesis
  proof (cases x)
    case (Inl e)
    with ap dis keep t1 show ?thesis by (auto simp: apply_plan_def)
  next
    case (Inr egress)
    let ?rs = "map (owned_route_of be egress) (excluded_networks plan)"
    obtain y net2 where pres: "route_presence be ?rs net1 = (y, net2)" by fastforce
    note t2 = route_presence_table [OF laws(1) pres]
    show ?thesis
    proof (cases "\<exists>ps. y = Ok ps \<and> \<not> list_ex (\<lambda>p. p \<noteq> None) ps")
      case True
      then obtain ps where y: "y = Ok ps" "\<not> list_ex (\<lambda>p. p \<noteq> None) ps" by blast
      have disj: "set ?rs \<inter> F = {}"
        using all_absent [OF laws(1) pres [unfolded y(1)] y(2)] t1 T by simp
      have net2: "table net2 = F" using t1 t2 T by simp
      have "bind_io (persist js (m\<lparr>route_state := (route_state m)\<lparr>st_policy_hash := plan_policy_hash plan,
          st_pending_routes := ?rs\<rparr>, manager_net := net2\<rparr>)) (\<lambda>_ m. install_routes js be ?rs m) = (r, m')"
        using ap dis Inr pres y by (simp add: apply_plan_def Let_def)
      from record_and_install_inv [OF laws inv T disj empty refl net2 this] dis Inr
      show ?thesis by auto
    next
      case False
      then have "r \<noteq> Ok () \<and> m' = m\<lparr>manager_net := net2\<rparr>"
        using ap dis Inr pres by (cases y) (auto simp: apply_plan_def Let_def)
      with keep t1 t2 show ?thesis by simp
    qed
  qed
qed


lemma apply_routes_inv:
  assumes laws: "route_laws be table" "route_json_reads_back js"
    and inv: "route_inv js table F m"
    and ap: "apply_routes napi js be options m = (r, m')"
  shows "route_inv js table F m'"
    and "r = Ok () \<Longrightarrow> \<exists>plan. from_options napi options = Ok plan
      \<and> (if plan_active plan \<and> excluded_networks plan \<noteq> []
         then \<exists>egress w. fst (discover_egress be w) = Ok egress
           \<and> table (manager_net m') = F \<union> owned_route_of be egress ` set (excluded_networks plan)
         else table (manager_net m') = F)"
proof -
  obtain x m1 where cl: "cleanup js be m = (x, m1)" by fastforce
  note c = cleanup_inv [OF laws inv cl]
  have main: "route_inv js table F m' \<and> (r = Ok () \<longrightarrow> (\<exists>plan. from_options napi options = Ok plan
      \<and> (if plan_active plan \<and> excluded_networks plan \<noteq> []
         then \<exists>egress w. fst (discover_egress be w) = Ok egress
           \<and> table (manager_net m') = F \<union> owned_route_of be egress ` set (excluded_networks plan)
         else table (manager_net m') = F)))"
  proof (cases x)
    case (Inl e)
    with ap cl c show ?thesis by (auto simp: apply_routes_def)
  next
    case (Inr u)
    show ?thesis
    proof (cases "from_options napi options")
      case o: (Inl e)
      with ap cl c Inr show ?thesis by (auto simp: apply_routes_def)
    next
      case o: (Inr plan)
      show ?thesis
      proof (cases "plan_active plan \<and> excluded_networks plan \<noteq> []")
        case True
        then have "apply_plan js be plan m1 = (r, m')"
          using ap cl Inr o by (simp add: apply_routes_def)
        from apply_plan_inv [OF laws _ _ _ this, of F] c Inr o True show ?thesis by auto
      next
        case False
        then have "r = Ok ()" "m' = m1"
          using ap cl Inr o by (auto simp: apply_routes_def split: if_splits)
        with c Inr o False show ?thesis by auto
      qed
    qed
  qed
  show "route_inv js table F m'" using main by simp
  show "r = Ok () \<Longrightarrow> \<exists>plan. from_options napi options = Ok plan
      \<and> (if plan_active plan \<and> excluded_networks plan \<noteq> []
         then \<exists>egress w. fst (discover_egress be w) = Ok egress
           \<and> table (manager_net m') = F \<union> owned_route_of be egress ` set (excluded_networks plan)
         else table (manager_net m') = F)" using main by simp
qed

text \<open>A state file that the manager wrote is read back when no call fails.\<close>

lemma load_state_good:
  assumes "route_json_reads_back js" and "good_file js p w" and "faults w = []"
  shows "\<exists>s. load_state js p w = (Ok s, w) \<and> st_format_version s = ROUTE_STATE_FORMAT
    \<and> recorded_in s = recorded_at js p w"
  using assms
  by (auto simp: good_file_def load_state_def path_exists_def next_fault_def symlink_metadata_def
      private_file_def state_node_def fs_read_def route_json_reads_back_def recorded_at_def
      recorded_in_def empty_route_state_def)

section \<open>Sequences of operations\<close>

text \<open>Each operation runs under its own schedule of faults; a schedule that fails every call from
  some point on is a crash there.  \<open>Restart\<close> is a new process that loads the state file.\<close>

datatype route_op =
  OpApply desktop_tunnel_options "nat option list"
| OpCleanup "nat option list"
| OpRestart

definition with_faults :: "nat option list \<Rightarrow> 'w route_manager \<Rightarrow> 'w route_manager" where
  "with_faults fs m = m\<lparr>manager_fs := (manager_fs m)\<lparr>faults := fs\<rparr>\<rparr>"

fun route_step ::
  "('n::linorder, 'y) ipnet_api_scheme \<Rightarrow> route_json \<Rightarrow> ('e, 'n, 'w) route_backend \<Rightarrow>
   'w route_manager \<Rightarrow> route_op \<Rightarrow> 'w route_manager" where
  "route_step napi js be m (OpApply options fs) =
     snd (apply_routes napi js be options (with_faults fs m))"
| "route_step napi js be m (OpCleanup fs) = snd (cleanup js be (with_faults fs m))"
| "route_step napi js be m OpRestart =
     (case load_state js (state_path m) (manager_fs (with_faults [] m)) of
        (Ok s, w) \<Rightarrow> m\<lparr>route_state := s, manager_fs := w\<rparr>
      | (Err _, w) \<Rightarrow> m\<lparr>manager_fs := w\<rparr>)"

lemma with_faults_inv: "route_inv js table F m \<Longrightarrow> route_inv js table F (with_faults fs m)"
  by (simp add: route_inv_def with_faults_def good_file_def recorded_at_def state_node_def)

lemma restart_inv:
  assumes "route_json_reads_back js" and "route_inv js table F m"
  shows "route_inv js table F (route_step napi js be m OpRestart)"
proof -
  let ?m = "with_faults [] m"
  have inv: "route_inv js table F ?m" using assms(2) by (rule with_faults_inv)
  then have "good_file js (state_path ?m) (manager_fs ?m)" by (simp add: route_inv_def)
  moreover have "faults (manager_fs ?m) = []" by (simp add: with_faults_def)
  ultimately obtain s where "load_state js (state_path ?m) (manager_fs ?m) = (Ok s, manager_fs ?m)"
      "st_format_version s = ROUTE_STATE_FORMAT"
      "recorded_in s = recorded_at js (state_path ?m) (manager_fs ?m)"
    using load_state_good [OF assms(1)] by blast
  with inv show ?thesis by (simp add: route_inv_def with_faults_def)
qed

lemma route_step_inv:
  assumes "route_laws be table" "route_json_reads_back js" "route_inv js table F m"
  shows "route_inv js table F (route_step napi js be m x)"
proof (cases x)
  case (OpApply options fs)
  then show ?thesis
    using apply_routes_inv(1) [OF assms(1,2) with_faults_inv [OF assms(3)]]
    by (metis route_step.simps(1) surjective_pairing)
next
  case (OpCleanup fs)
  then show ?thesis
    using cleanup_inv [OF assms(1,2) with_faults_inv [OF assms(3)]]
    by (metis route_step.simps(2) surjective_pairing)
next
  case OpRestart
  then show ?thesis using restart_inv [OF assms(2,3)] by simp
qed

lemma route_run_inv:
  "route_laws be table \<Longrightarrow> route_json_reads_back js \<Longrightarrow> route_inv js table F m \<Longrightarrow>
   route_inv js table F (run (route_step napi js be) m xs)"
  by (induction xs arbitrary: m) (simp_all add: route_step_inv)

definition fresh_manager :: "path \<Rightarrow> u32 \<Rightarrow> 'w \<Rightarrow> 'w route_manager" where
  "fresh_manager dir uid net =
     \<lparr>state_path = dir @ [ROUTE_STATE_FILE], route_state = empty_route_state,
      manager_fs = \<lparr>nodes = (\<lambda>_. None), euid = uid, faults = []\<rparr>, manager_net = net\<rparr>"

lemma fresh_manager_inv: "route_inv js table (table net) (fresh_manager dir uid net)"
  by (auto simp: route_inv_def fresh_manager_def is_state_path_def empty_route_state_def
      good_file_def recorded_in_def recorded_at_def)


section \<open>Properties\<close>

text \<open>For the witnesses: a routing table whose additions can be made to fail, networks that are their
  length, and a serializer that knows the two states of one plan.\<close>

record sample_net =
  installed :: "owned_route list"
  add_failures :: nat

definition sample_route :: "string \<Rightarrow> owned_route" where
  "sample_route d = \<lparr>rt_destination = d, rt_interface_identifier = ''eth0'', rt_gateway = None,
     rt_metric = None\<rparr>"

definition sample_backend :: "(unit, nat, sample_net) route_backend" where
  "sample_backend =
     \<lparr>discover_egress = (\<lambda>w. (Ok (), w)), local_networks = (\<lambda>e w. (Ok [], w)),
      fingerprint_material = (\<lambda>e ns. ''m''),
      owned_route_of = (\<lambda>e n. sample_route (replicate n (CHR ''x''))),
      route_presence = (\<lambda>rs w. (Ok (map (\<lambda>r. if r \<in> set (installed w) then Some Unscoped else None) rs), w)),
      add_route = (\<lambda>r w. if add_failures w > 0
        then (Err (Backend ''route_add_failed''), w\<lparr>add_failures := add_failures w - 1\<rparr>)
        else (Ok (), w\<lparr>installed := r # installed w\<rparr>)),
      remove_route = (\<lambda>r sc w. (Ok (), w\<lparr>installed := removeAll r (installed w)\<rparr>))\<rparr>"

definition sample_table :: "sample_net \<Rightarrow> owned_route set" where
  "sample_table w = set (installed w)"

definition length_net_api :: "nat ipnet_api" where
  "length_net_api =
     \<lparr>net_parse = (\<lambda>s. Some (length s)), net_addr = (\<lambda>n. Ipv4Addr 0 0 0 0),
      net_network = (\<lambda>n. Ipv4Addr 0 0 0 0), net_to_string = (\<lambda>n. replicate n (CHR ''x'')),
      net_aggregate = (\<lambda>ns. ns)\<rparr>"

definition sample_state :: "bool \<Rightarrow> owned_route_state" where
  "sample_state fin = \<lparr>st_format_version = 1, st_policy_hash = Some ''h'',
     st_routes = (if fin then [sample_route ''xx''] else []),
     st_pending_routes = (if fin then [] else [sample_route ''xx''])\<rparr>"

definition sample_route_json :: route_json where
  "sample_route_json =
     \<lparr>state_to_vec = (\<lambda>s. if s = sample_state True then Some ''a''
        else if s = sample_state False then Some ''p'' else None),
      state_from_slice = (\<lambda>b. if b = ''a'' then Some (sample_state True)
        else if b = ''p'' then Some (sample_state False) else None)\<rparr>"

definition sample_route_options :: desktop_tunnel_options where
  "sample_route_options =
     \<lparr>excluded_ipv4_cidrs = [''xx''], exclude_local_networks = False, policy_hash = Some ''h''\<rparr>"

definition sample_manager :: "sample_net route_manager" where
  "sample_manager = fresh_manager [''run''] 0 \<lparr>installed = [sample_route ''default''], add_failures = 0\<rparr>"

lemma sample_route_laws: "route_laws sample_backend sample_table"
  by (auto simp: route_laws_def sample_backend_def sample_table_def)

lemma sample_route_json_reads_back: "route_json_reads_back sample_route_json"
  by (auto simp: route_json_reads_back_def sample_route_json_def split: if_splits)





lemma sample_plan:
  "from_options length_net_api sample_route_options
   = Ok \<lparr>plan_policy_hash = Some ''h'', excluded_networks = [2], plan_exclude_local_networks = False\<rparr>"
  by (simp add: from_options_def sample_route_options_def desktop_options_validate_def
      MAX_IPV4_CIDRS_def MAX_POLICY_HASH_LENGTH_def str_is_ascii_def length_net_api_def
      numeral_2_eq_2 compact_def MAX_ROUTES_def)

lemmas sample_eval = sample_plan plan_active_def cleanup_def finish_cleanup_def has_routes_def
  remove_present_routes_def sample_manager_def fresh_manager_def with_faults_def empty_route_state_def
  remove_state_def remove_file_def next_fault_def apply_routes_def apply_plan_def sample_backend_def
  Let_def persist_def persist_state_def route_count_ok_def usize_saturating_add_def usize_max_def
  MAX_OWNED_ROUTES_def sample_route_json_def sample_state_def ROUTE_STATE_FORMAT_def sample_route_def
  MAX_STATE_SIZE_def with_extension_def ROUTE_STATE_FILE_def rsplit_once_def
  remove_stale_temporary_def symlink_metadata_def write_private_file_def create_new_def
  file_write_all_def append_file_def sync_all_def fs_rename_def install_routes_def
  private_file_def

lemma sample_apply:
  "\<exists>m. apply_routes length_net_api sample_route_json sample_backend sample_route_options
     (with_faults [] sample_manager) = (Ok (), m)"
  by (simp add: sample_eval numeral_2_eq_2)



end
