(* ===== verification/LinuxRoutes.thy ===== *)
theory LinuxRoutes
  imports RouteManager
begin

text \<open>
  The routes of the Linux helper, \<^verbatim>\<open>crates/unix-service/src/routes/linux.rs\<close>: the manager of the
  userspace tunnel's own routes and policy rules, and the backend with which the route manager
  drives \<^verbatim>\<open>iproute2\<close>.

  The command \<^verbatim>\<open>ip\<close> is the parameter \<open>ip_env\<close>: it takes the arguments and the state \<open>'w\<close> of the kernel,
  and gives no output when it could not be run or timed out.  The texts of an output are what
  \<^verbatim>\<open>from_utf8_lossy\<close> makes of its bytes.  The network types of \<^verbatim>\<open>ipnet\<close> and the masks of
  \<^verbatim>\<open>defguard_wireguard_rs\<close> are parameters too.
\<close>

section \<open>The environment\<close>

record command_output =
  co_code :: "int option"
  co_stdout :: string
  co_stderr :: string

record 'w ip_env =
  run_ip :: "string list \<Rightarrow> 'w \<Rightarrow> command_output option \<times> 'w"
  write_src_valid_mark :: "'w \<Rightarrow> (io_error, unit) result \<times> 'w"

record 'n linux_net_api = "'n ipnet_api" +
  net_new :: "ipv4_addr \<Rightarrow> nat \<Rightarrow> 'n option"
  net_prefix_len :: "'n \<Rightarrow> nat"

record 'm any_net_api =
  any_parse :: "string \<Rightarrow> 'm option"
  any_to_string :: "'m \<Rightarrow> string"
  any_is_ipv4 :: "'m \<Rightarrow> bool"

definition command_success :: "command_output \<Rightarrow> bool" where
  "command_success out \<longleftrightarrow> co_code out = Some 0"

section \<open>Data\<close>

definition ROUTE_METRIC :: u32 where "ROUTE_METRIC = 42760"
definition AWG_ROUTE_STATE_FILE :: string where "AWG_ROUTE_STATE_FILE = ''awg-routes-state.json''"
definition AWG_ROUTE_STATE_FORMAT :: u16 where "AWG_ROUTE_STATE_FORMAT = 1"
definition AWG_ROUTE_STATE_MAX_SIZE :: nat where "AWG_ROUTE_STATE_MAX_SIZE = 64 * 1024"
definition AWG_FWMARK_TABLE :: u32 where "AWG_FWMARK_TABLE = 42761"
definition AWG_MAIN_RULE_PRIORITY :: u32 where "AWG_MAIN_RULE_PRIORITY = 31120"
definition AWG_TUNNEL_RULE_PRIORITY :: u32 where "AWG_TUNNEL_RULE_PRIORITY = 31121"

definition show_u32 :: "u32 \<Rightarrow> string" where
  "show_u32 n = show_nat (unat n)"

record linux_egress =
  le_interface :: string
  le_gateway :: "string option"
  le_source :: "string option"

datatype route_family = FamilyIpv4 | FamilyIpv6

fun ip_argument :: "route_family \<Rightarrow> string" where
  "ip_argument FamilyIpv4 = ''-4''"
| "ip_argument FamilyIpv6 = ''-6''"

record userspace_route =
  ur_family :: route_family
  ur_destination :: string

record userspace_route_state =
  us_format_version :: u16
  us_interface_name :: string
  us_default_families :: "route_family list"
  us_routes :: "userspace_route list"

definition empty_userspace_state :: "string \<Rightarrow> userspace_route_state" where
  "empty_userspace_state interface_name =
     \<lparr>us_format_version = AWG_ROUTE_STATE_FORMAT, us_interface_name = interface_name,
      us_default_families = [], us_routes = []\<rparr>"

definition userspace_active :: "userspace_route_state \<Rightarrow> bool" where
  "userspace_active s \<longleftrightarrow> us_default_families s \<noteq> [] \<or> us_routes s \<noteq> []"

text \<open>The paths at which \<^verbatim>\<open>ip\<close> is looked for; \<open>exists_file\<close> is \<^verbatim>\<open>Path::is_file\<close>.\<close>

definition ip_command :: "(string \<Rightarrow> bool) \<Rightarrow> (service_error, string) result" where
  "ip_command exists_file =
     ok_or (Backend ''ip_command_unavailable'')
       (List.find exists_file [''/usr/sbin/ip'', ''/sbin/ip'', ''/usr/bin/ip''])"

section \<open>Output parsing\<close>

fun value_after :: "string list \<Rightarrow> string \<Rightarrow> string option" where
  "value_after [] key = None"
| "value_after (t # ts) key =
     (if t = key then (case ts of [] \<Rightarrow> None | v # _ \<Rightarrow> Some v) else value_after ts key)"

definition first_token :: "string list \<Rightarrow> string option" where
  "first_token ts = (case ts of [] \<Rightarrow> None | t # _ \<Rightarrow> Some t)"

definition virtual_interface :: "string \<Rightarrow> bool" where
  "virtual_interface v \<longleftrightarrow>
     list_ex (\<lambda>p. strip_prefix p v \<noteq> None)
       [''nlm-wg'', ''wg'', ''tun'', ''tap'', ''veth'', ''docker'', ''br-'', ''tailscale'']
     \<or> v = ''lo''"

text \<open>The entry of a line of \<^verbatim>\<open>ip -4 route show default\<close>, with its metric.\<close>

definition default_route_entry :: "string \<Rightarrow> (nat \<times> linux_egress) option" where
  "default_route_entry line =
     (let tokens = split_whitespace line in
      if first_token tokens \<noteq> Some ''default'' then None
      else
        (case value_after tokens ''dev'' of
           None \<Rightarrow> None
         | Some interface \<Rightarrow>
             if virtual_interface interface then None
             else
               (let metric = (case Option.bind (value_after tokens ''metric'') (parse_uint 32) of
                                None \<Rightarrow> 0 | Some n \<Rightarrow> n)
                in Some (metric, \<lparr>le_interface = interface, le_gateway = value_after tokens ''via'',
                                  le_source = value_after tokens ''src''\<rparr>))))"

text \<open>\<^verbatim>\<open>Iterator::min_by_key\<close>: the first of the smallest.\<close>

fun min_by_first :: "(nat \<times> 'a) list \<Rightarrow> (nat \<times> 'a) option" where
  "min_by_first [] = None"
| "min_by_first (x # xs) =
     (case min_by_first xs of None \<Rightarrow> Some x | Some y \<Rightarrow> if fst y < fst x then Some y else Some x)"

definition parse_default_route :: "string \<Rightarrow> linux_egress option" where
  "parse_default_route output =
     map_option snd (min_by_first (List.map_filter default_route_entry (str_lines output)))"

definition local_network_entry :: "('n, 'z) linux_net_api_scheme \<Rightarrow> string \<Rightarrow> 'n option" where
  "local_network_entry api line =
     Option.bind (value_after (split_whitespace line) ''inet'') (\<lambda>v.
     Option.bind (net_parse api v) (\<lambda>network.
       net_new api (net_network api network) (net_prefix_len api network)))"

definition parse_local_networks :: "('n, 'z) linux_net_api_scheme \<Rightarrow> string \<Rightarrow> 'n list" where
  "parse_local_networks api output = List.map_filter (local_network_entry api) (str_lines output)"

text \<open>\<^verbatim>\<open>u32::from_str_radix(v, 16)\<close>: an optional \<^verbatim>\<open>+\<close>, then at least one digit, and no overflow.\<close>

definition from_str_radix16 :: "string \<Rightarrow> nat option" where
  "from_str_radix16 v =
     (let ds = (case v of [] \<Rightarrow> [] | c # cs \<Rightarrow> if c = CHR ''+'' then cs else v);
          n = foldl (\<lambda>n c. case to_digit 16 c of None \<Rightarrow> n | Some d \<Rightarrow> 16 * n + int d) 0 ds
      in if ds \<noteq> [] \<and> list_all (\<lambda>c. to_digit 16 c \<noteq> None) ds \<and> n < 2 ^ 32 then Some (nat n) else None)"

definition parse_fwmark :: "string \<Rightarrow> u32 option" where
  "parse_fwmark v =
     (let head = hd (split_on (CHR ''/'') v) in
      map_option of_nat
        (case strip_prefix ''0x'' head of
           Some digits \<Rightarrow> from_str_radix16 digits
         | None \<Rightarrow> parse_uint 32 head))"

text \<open>\<^verbatim>\<open>trim_end_matches(':')\<close>\<close>

definition trim_colons :: "string \<Rightarrow> string" where
  "trim_colons s = rev (dropWhile (\<lambda>c. c = CHR '':'') (rev s))"

definition rule_line_is_owned :: "u32 \<Rightarrow> string list \<Rightarrow> bool" where
  "rule_line_is_owned priority tokens \<longleftrightarrow>
     (case first_token tokens of None \<Rightarrow> False | Some t \<Rightarrow> trim_colons t = show_u32 priority)
     \<and> (if priority = AWG_MAIN_RULE_PRIORITY
        then (value_after tokens ''lookup'' = Some ''main'' \<or> value_after tokens ''table'' = Some ''main'')
             \<and> value_after tokens ''suppress_prefixlength'' = Some ''0''
        else if priority = AWG_TUNNEL_RULE_PRIORITY
        then ''not'' \<in> set tokens
             \<and> Option.bind (value_after tokens ''fwmark'') parse_fwmark = Some AWG_FWMARK_TABLE
             \<and> (value_after tokens ''lookup'' = Some (show_u32 AWG_FWMARK_TABLE)
                \<or> value_after tokens ''table'' = Some (show_u32 AWG_FWMARK_TABLE))
        else False)"

definition userspace_rule_is_owned :: "string \<Rightarrow> u32 \<Rightarrow> bool" where
  "userspace_rule_is_owned output priority \<longleftrightarrow>
     list_ex (\<lambda>line. rule_line_is_owned priority (split_whitespace line)) (str_lines output)"

section \<open>Commands\<close>

text \<open>The two queries whose failure with this message means an empty table.\<close>

definition missing_table_message :: "string list \<Rightarrow> string" where
  "missing_table_message arguments =
     (if arguments = [''-4'', ''route'', ''show'', ''table'', ''42761'']
      then ''Error: ipv4: FIB table does not exist.'' @ [newline_char] @ ''Dump terminated''
      else if arguments = [''-6'', ''route'', ''show'', ''table'', ''42761'']
      then ''Error: ipv6: FIB table does not exist.'' @ [newline_char] @ ''Dump terminated''
      else [])"

definition query_ip :: "('w, 'z) ip_env_scheme \<Rightarrow> string list \<Rightarrow> 'w \<Rightarrow> (service_error, string) result \<times> 'w" where
  "query_ip env arguments w =
     (case run_ip env arguments w of
        (None, w) \<Rightarrow> (Err (Backend ''route_command_failed''), w)
      | (Some out, w) \<Rightarrow>
          if \<not> command_success out
             \<and> (co_code out \<noteq> Some 2 \<or> co_stdout out \<noteq> [] \<or> missing_table_message arguments = []
                \<or> trim (co_stderr out) \<noteq> missing_table_message arguments)
          then (Err (Backend ''route_command_failed''), w)
          else (Ok (co_stdout out), w))"

definition ensure_ip_query_empty ::
  "('w, 'z) ip_env_scheme \<Rightarrow> string list \<Rightarrow> 'w \<Rightarrow> (service_error, unit) result \<times> 'w" where
  "ensure_ip_query_empty env arguments w =
     bind_io (query_ip env arguments w) (\<lambda>out w.
       (if trim out = [] then Ok () else Err (Backend ''route_conflict''), w))"

definition mutate_ip ::
  "('w, 'z) ip_env_scheme \<Rightarrow> string list \<Rightarrow> bool \<Rightarrow> string \<Rightarrow> 'w \<Rightarrow> (service_error, unit) result \<times> 'w" where
  "mutate_ip env arguments missing_ok error_code w =
     (case run_ip env arguments w of
        (None, w) \<Rightarrow> (Err (Backend ''route_command_failed''), w)
      | (Some out, w) \<Rightarrow>
          if command_success out
             \<or> missing_ok \<and> (contains_str ''No such process'' (co_stderr out)
                             \<or> contains_str ''No such file'' (co_stderr out))
          then (Ok (), w) else (Err (Backend error_code), w))"

definition ip_run :: "('w, 'z) ip_env_scheme \<Rightarrow> string list \<Rightarrow> 'w \<Rightarrow> (service_error, command_output) result \<times> 'w" where
  "ip_run env arguments w =
     (case run_ip env arguments w of
        (None, w) \<Rightarrow> (Err (Backend ''route_command_failed''), w)
      | (Some out, w) \<Rightarrow>
          if command_success out then (Ok out, w) else (Err (Backend ''route_command_failed''), w))"

text \<open>The callers pass one of the two priorities; for another one the source panics.\<close>

definition userspace_rule_arguments :: "route_family \<Rightarrow> string \<Rightarrow> u32 \<Rightarrow> string list" where
  "userspace_rule_arguments family action priority =
     [ip_argument family, ''rule'', action]
     @ (if priority = AWG_MAIN_RULE_PRIORITY
        then [''table'', ''main'', ''suppress_prefixlength'', ''0'']
        else if priority = AWG_TUNNEL_RULE_PRIORITY
        then [''not'', ''fwmark'', show_u32 AWG_FWMARK_TABLE, ''table'', show_u32 AWG_FWMARK_TABLE]
        else [])
     @ [''priority'', show_u32 priority]"

section \<open>The userspace route manager\<close>

record userspace_json =
  us_to_vec :: "userspace_route_state \<Rightarrow> bytes option"
  us_from_slice :: "bytes \<Rightarrow> userspace_route_state option"

text \<open>The manager with the file system and the kernel it acts on.\<close>

record 'w userspace_manager =
  um_state_path :: path
  um_state :: "userspace_route_state option"
  um_fs :: fs
  um_net :: 'w

definition remove_userspace_route_state :: "path \<Rightarrow> fs \<Rightarrow> (service_error, unit) result \<times> fs" where
  "remove_userspace_route_state p w =
     (case remove_file p w of
        (Ok _, w) \<Rightarrow> (Ok (), w)
      | (Err NotFound, w) \<Rightarrow> (Ok (), w)
      | (Err _, w) \<Rightarrow> (Err (Backend ''route_state_remove_failed''), w))"

definition persist_userspace_route_state ::
  "userspace_json \<Rightarrow> path \<Rightarrow> userspace_route_state \<Rightarrow> fs \<Rightarrow> (service_error, unit) result \<times> fs" where
  "persist_userspace_route_state js p s w =
     (case us_to_vec js s of
        None \<Rightarrow> (Err (Backend ''route_state_serialize_failed''), w)
      | Some bs \<Rightarrow>
          if length bs > AWG_ROUTE_STATE_MAX_SIZE then (Err (Backend ''route_state_too_large''), w)
          else
            (let temporary = with_extension ''json.new'' p in
             bind_io (remove_userspace_route_state temporary w) (\<lambda>_ w.
               write_private_file bs temporary p w)))"

definition valid_userspace_route :: "('m, 'z) any_net_api_scheme \<Rightarrow> userspace_route \<Rightarrow> bool" where
  "valid_userspace_route api r \<longleftrightarrow>
     (case any_parse api (ur_destination r) of
        None \<Rightarrow> False
      | Some network \<Rightarrow>
          any_to_string api network = ur_destination r
          \<and> any_is_ipv4 api network = (ur_family r = FamilyIpv4))"

definition validate_userspace_route_state ::
  "('m, 'z) any_net_api_scheme \<Rightarrow> userspace_route_state \<Rightarrow> (service_error, unit) result" where
  "validate_userspace_route_state api s =
     (if us_format_version s \<noteq> AWG_ROUTE_STATE_FORMAT \<or> us_interface_name s = []
         \<or> any_whitespace (us_interface_name s) \<or> length (us_default_families s) > 2
         \<or> length (us_routes s) > 1024
      then Err (Backend ''route_state_invalid'')
      else if \<not> distinct (us_default_families s) then Err (Backend ''route_state_invalid'')
      else if \<not> list_all (valid_userspace_route api) (us_routes s)
      then Err (Backend ''route_state_invalid'')
      else Ok ())"

definition load_userspace_route_state ::
  "('m, 'z) any_net_api_scheme \<Rightarrow> userspace_json \<Rightarrow> path \<Rightarrow> fs \<Rightarrow>
   (service_error, userspace_route_state option) result \<times> fs" where
  "load_userspace_route_state api js p w =
     (case symlink_metadata p w of
        (Err NotFound, w) \<Rightarrow> (Ok None, w)
      | (Err _, w) \<Rightarrow> (Err (Backend ''route_state_read_failed''), w)
      | (Ok n, w) \<Rightarrow>
          if \<not> private_file w n \<or> file_len (nd_kind n) > AWG_ROUTE_STATE_MAX_SIZE
          then (Err (Backend ''route_state_invalid''), w)
          else
            bind_io (map_err_io (\<lambda>_. Backend ''route_state_read_failed'') (fs_read p w)) (\<lambda>bs w.
              (case us_from_slice js bs of
                 None \<Rightarrow> (Err (Backend ''route_state_invalid''), w)
               | Some s \<Rightarrow>
                   (and_then (validate_userspace_route_state api s) (\<lambda>_. Ok (Some s)), w))))"

text \<open>The peers' allowed addresses with their prefix lengths; \<open>mask_text\<close> is the \<^verbatim>\<open>Display\<close> of an address
  mask.  The hash sets are emptied into sorted lists.\<close>

fun is_unspecified_ip :: "ip_addr \<Rightarrow> bool" where
  "is_unspecified_ip (V4 a) = is_unspecified a"
| "is_unspecified_ip (V6 a) = list_all (\<lambda>g. g = 0) (segments a)"

fun family_of :: "ip_addr \<Rightarrow> route_family" where
  "family_of (V4 _) = FamilyIpv4"
| "family_of (V6 _) = FamilyIpv6"

definition userspace_route_plan ::
  "(ip_addr \<Rightarrow> nat \<Rightarrow> string) \<Rightarrow> string \<Rightarrow> (ip_addr \<times> nat) list list \<Rightarrow> userspace_route_state" where
  "userspace_route_plan mask_text interface_name peers =
     (let allowed = concat peers;
          is_default = (\<lambda>(a, cidr). is_unspecified_ip a \<and> cidr = 0);
          defaults = map (\<lambda>(a, cidr). family_of a) (filter is_default allowed);
          families = filter (\<lambda>f. f \<in> set defaults) [FamilyIpv4, FamilyIpv6];
          specific = remdups (map (\<lambda>(a, cidr). (mask_text a cidr, family_of a))
                        (filter (\<lambda>x. \<not> is_default x) allowed));
          kept = filter (\<lambda>(d, f). f \<notin> set families) specific
      in (empty_userspace_state interface_name)\<lparr>us_default_families := families,
           us_routes := map (\<lambda>(d, f). \<lparr>ur_family = f, ur_destination = d\<rparr>) (sort_by_key kept)\<rparr>)"

section \<open>What is added and what is removed\<close>

definition route_arguments :: "string \<Rightarrow> string \<Rightarrow> userspace_route \<Rightarrow> string list" where
  "route_arguments action interface r =
     [ip_argument (ur_family r), ''route'', action, ur_destination r, ''dev'', interface, ''proto'', ''static'']"

definition default_arguments :: "string \<Rightarrow> string \<Rightarrow> route_family \<Rightarrow> string list" where
  "default_arguments action interface f =
     [ip_argument f, ''route'', action, ''default'', ''dev'', interface, ''table'', show_u32 AWG_FWMARK_TABLE]"

text \<open>The commands of \<^verbatim>\<open>apply_state\<close> in order, with the error each one reports.\<close>

definition apply_commands :: "userspace_route_state \<Rightarrow> (string list \<times> string) list" where
  "apply_commands s =
     ([''link'', ''set'', ''dev'', us_interface_name s, ''up''], ''interface_up_failed'')
     # map (\<lambda>r. (route_arguments ''add'' (us_interface_name s) r, ''route_add_failed'')) (us_routes s)
     @ concat (map (\<lambda>f.
         [(default_arguments ''add'' (us_interface_name s) f, ''route_add_failed''),
          (userspace_rule_arguments f ''add'' AWG_MAIN_RULE_PRIORITY, ''route_add_failed''),
          (userspace_rule_arguments f ''add'' AWG_TUNNEL_RULE_PRIORITY, ''route_add_failed'')])
         (us_default_families s))"

fun run_commands ::
  "('w, 'z) ip_env_scheme \<Rightarrow> (string list \<times> string) list \<Rightarrow> 'w \<Rightarrow> (service_error, unit) result \<times> 'w" where
  "run_commands env [] w = (Ok (), w)"
| "run_commands env ((arguments, code) # rest) w =
     bind_io (mutate_ip env arguments False code w) (\<lambda>_ w. run_commands env rest w)"

definition apply_state ::
  "('w, 'z) ip_env_scheme \<Rightarrow> userspace_route_state \<Rightarrow> 'w \<Rightarrow> (service_error, unit) result \<times> 'w" where
  "apply_state env s w = run_commands env (apply_commands s) w"

text \<open>The queries of \<^verbatim>\<open>cleanup\<close>, the test on their output, and the removal that follows.\<close>

record cleanup_step =
  cs_query :: "string list"
  cs_owned :: "string \<Rightarrow> bool"
  cs_delete :: "string list"

definition route_step_of :: "string \<Rightarrow> userspace_route \<Rightarrow> cleanup_step" where
  "route_step_of interface r =
     \<lparr>cs_query = [ip_argument (ur_family r), ''route'', ''show'', ''exact'', ur_destination r],
      cs_owned = (\<lambda>out. list_ex (\<lambda>line. let tokens = split_whitespace line in
          value_after tokens ''dev'' = Some interface \<and> value_after tokens ''proto'' = Some ''static'')
        (str_lines out)),
      cs_delete = route_arguments ''del'' interface r\<rparr>"

definition rule_step_of :: "route_family \<Rightarrow> u32 \<Rightarrow> cleanup_step" where
  "rule_step_of f priority =
     \<lparr>cs_query = [ip_argument f, ''rule'', ''show'', ''priority'', show_u32 priority],
      cs_owned = (\<lambda>out. userspace_rule_is_owned out priority),
      cs_delete = userspace_rule_arguments f ''del'' priority\<rparr>"

definition default_step_of :: "string \<Rightarrow> route_family \<Rightarrow> cleanup_step" where
  "default_step_of interface f =
     \<lparr>cs_query = [ip_argument f, ''route'', ''show'', ''table'', show_u32 AWG_FWMARK_TABLE],
      cs_owned = (\<lambda>out. list_ex (\<lambda>line. let tokens = split_whitespace line in
          first_token tokens = Some ''default'' \<and> value_after tokens ''dev'' = Some interface)
        (str_lines out)),
      cs_delete = default_arguments ''del'' interface f\<rparr>"

definition cleanup_steps :: "userspace_route_state \<Rightarrow> cleanup_step list" where
  "cleanup_steps s =
     map (route_step_of (us_interface_name s)) (rev (us_routes s))
     @ concat (map (\<lambda>f. [rule_step_of f AWG_TUNNEL_RULE_PRIORITY, rule_step_of f AWG_MAIN_RULE_PRIORITY,
                         default_step_of (us_interface_name s) f]) (rev (us_default_families s)))"

fun run_cleanup_steps ::
  "('w, 'z) ip_env_scheme \<Rightarrow> cleanup_step list \<Rightarrow> service_error option \<Rightarrow> 'w \<Rightarrow> service_error option \<times> 'w" where
  "run_cleanup_steps env [] first_error w = (first_error, w)"
| "run_cleanup_steps env (step # steps) first_error w =
     (case query_ip env (cs_query step) w of
        (Err e, w) \<Rightarrow> run_cleanup_steps env steps (or_first first_error e) w
      | (Ok out, w) \<Rightarrow>
          if \<not> cs_owned step out then run_cleanup_steps env steps first_error w
          else
            (case mutate_ip env (cs_delete step) True ''route_del_failed'' w of
               (Err e, w) \<Rightarrow> run_cleanup_steps env steps (or_first first_error e) w
             | (Ok _, w) \<Rightarrow> run_cleanup_steps env steps first_error w))"

definition userspace_cleanup ::
  "('w, 'z) ip_env_scheme \<Rightarrow> 'w userspace_manager \<Rightarrow> (service_error, unit) result \<times> 'w userspace_manager" where
  "userspace_cleanup env m =
     (case um_state m of
        None \<Rightarrow> (Ok (), m)
      | Some s \<Rightarrow>
          (case run_cleanup_steps env (cleanup_steps s) None (um_net m) of
             (Some e, net) \<Rightarrow> (Err e, m\<lparr>um_net := net\<rparr>)
           | (None, net) \<Rightarrow>
               (case remove_userspace_route_state (um_state_path m) (um_fs m) of
                  (Err e, w) \<Rightarrow> (Err e, m\<lparr>um_net := net, um_fs := w\<rparr>)
                | (Ok _, w) \<Rightarrow> (Ok (), m\<lparr>um_net := net, um_fs := w, um_state := None\<rparr>))))"

text \<open>The rule listing of a family that must not mention the tunnel's table.\<close>

definition mentions_table :: "string \<Rightarrow> bool" where
  "mentions_table out \<longleftrightarrow>
     list_ex (\<lambda>line. let tokens = split_whitespace line in
       value_after tokens ''lookup'' = Some (show_u32 AWG_FWMARK_TABLE)
       \<or> value_after tokens ''table'' = Some (show_u32 AWG_FWMARK_TABLE)) (str_lines out)"

fun ensure_all_empty ::
  "('w, 'z) ip_env_scheme \<Rightarrow> string list list \<Rightarrow> 'w \<Rightarrow> (service_error, unit) result \<times> 'w" where
  "ensure_all_empty env [] w = (Ok (), w)"
| "ensure_all_empty env (q # qs) w =
     bind_io (ensure_ip_query_empty env q w) (\<lambda>_ w. ensure_all_empty env qs w)"

fun ensure_families_available ::
  "('w, 'z) ip_env_scheme \<Rightarrow> string \<Rightarrow> route_family list \<Rightarrow> 'w \<Rightarrow> (service_error, unit) result \<times> 'w" where
  "ensure_families_available env interface [] w = (Ok (), w)"
| "ensure_families_available env interface (f # fs) w =
     bind_io (query_ip env [ip_argument f, ''rule'', ''show''] w) (\<lambda>rules w.
       if mentions_table rules then (Err (Backend ''route_conflict''), w)
       else
         bind_io (ensure_all_empty env
           [cs_query (rule_step_of f AWG_MAIN_RULE_PRIORITY), cs_query (rule_step_of f AWG_TUNNEL_RULE_PRIORITY),
            cs_query (default_step_of interface f)] w) (\<lambda>_ w.
           ensure_families_available env interface fs w))"

definition ensure_targets_available ::
  "('w, 'z) ip_env_scheme \<Rightarrow> userspace_route_state \<Rightarrow> 'w \<Rightarrow> (service_error, unit) result \<times> 'w" where
  "ensure_targets_available env s w =
     bind_io (ensure_families_available env (us_interface_name s) (us_default_families s) w) (\<lambda>_ w.
       ensure_all_empty env (map (\<lambda>r. cs_query (route_step_of (us_interface_name s) r)) (us_routes s)) w)"

definition install_userspace ::
  "('w, 'z) ip_env_scheme \<Rightarrow> userspace_route_state \<Rightarrow> 'w userspace_manager \<Rightarrow>
   (service_error, unit) result \<times> 'w userspace_manager" where
  "install_userspace env s m =
     (let (marked, net) = (if FamilyIpv4 \<in> set (us_default_families s)
                           then write_src_valid_mark env (um_net m) else (Ok (), um_net m));
          m = m\<lparr>um_net := net\<rparr>
      in case marked of
           Err _ \<Rightarrow> (Err (Backend ''route_command_failed''), snd (userspace_cleanup env m))
         | Ok _ \<Rightarrow>
             (case apply_state env s (um_net m) of
                (Err e, net) \<Rightarrow> (Err e, snd (userspace_cleanup env (m\<lparr>um_net := net\<rparr>)))
              | (Ok _, net) \<Rightarrow> (Ok (), m\<lparr>um_net := net\<rparr>)))"

definition userspace_apply ::
  "userspace_json \<Rightarrow> ('w, 'z) ip_env_scheme \<Rightarrow> (ip_addr \<Rightarrow> nat \<Rightarrow> string) \<Rightarrow> string \<Rightarrow>
   (ip_addr \<times> nat) list list \<Rightarrow> 'w userspace_manager \<Rightarrow>
   (service_error, unit) result \<times> 'w userspace_manager" where
  "userspace_apply js env mask_text interface_name peers m =
     bind_io (userspace_cleanup env m) (\<lambda>_ m.
       let s = userspace_route_plan mask_text interface_name peers in
       if \<not> userspace_active s then (Ok (), m)
       else
         (case ensure_targets_available env s (um_net m) of
            (Err e, net) \<Rightarrow> (Err e, m\<lparr>um_net := net\<rparr>)
          | (Ok _, net) \<Rightarrow>
              (let m = m\<lparr>um_net := net\<rparr> in
               case persist_userspace_route_state js (um_state_path m) s (um_fs m) of
                 (Err e, w) \<Rightarrow> (Err e, m\<lparr>um_fs := w\<rparr>)
               | (Ok _, w) \<Rightarrow> install_userspace env s (m\<lparr>um_fs := w, um_state := Some s\<rparr>))))"

definition userspace_has_routes :: "'w userspace_manager \<Rightarrow> bool" where
  "userspace_has_routes m \<longleftrightarrow> (case um_state m of None \<Rightarrow> False | Some s \<Rightarrow> userspace_active s)"

definition new_userspace_manager ::
  "('m, 'y) any_net_api_scheme \<Rightarrow> userspace_json \<Rightarrow> (string \<Rightarrow> bool) \<Rightarrow> path \<Rightarrow> fs \<Rightarrow> 'w \<Rightarrow>
   (service_error, 'w userspace_manager) result \<times> fs" where
  "new_userspace_manager api js exists_file runtime_directory w net =
     (let p = runtime_directory @ [AWG_ROUTE_STATE_FILE] in
      bind_io (load_userspace_route_state api js p w) (\<lambda>s w.
        (and_then (ip_command exists_file) (\<lambda>_.
           Ok \<lparr>um_state_path = p, um_state = s, um_fs = w, um_net = net\<rparr>), w)))"

section \<open>The backend of the route manager\<close>

definition validate_owned_route :: "('n, 'z) linux_net_api_scheme \<Rightarrow> owned_route \<Rightarrow> (service_error, unit) result" where
  "validate_owned_route api r =
     (let invalid = Backend ''route_state_invalid'' in
      and_then (case net_parse api (rt_destination r) of
                  None \<Rightarrow> Err invalid
                | Some n \<Rightarrow> ensure (net_to_string api n = rt_destination r) invalid) (\<lambda>_.
        if (case rt_gateway r of None \<Rightarrow> False | Some g \<Rightarrow> parse_ipv4 g = None) then Err invalid
        else if rt_metric r = None then Err invalid
        else Ok ()))"

definition destination_token :: "('n, 'z) linux_net_api_scheme \<Rightarrow> string \<Rightarrow> 'n option" where
  "destination_token api v =
     (case net_parse api v of
        Some n \<Rightarrow> Some n
      | None \<Rightarrow> Option.bind (parse_ipv4 v) (\<lambda>a. net_new api a 32))"

definition route_matches_tokens :: "('n, 'z) linux_net_api_scheme \<Rightarrow> string list \<Rightarrow> owned_route \<Rightarrow> bool" where
  "route_matches_tokens api tokens r =
     (case (rt_metric r, net_parse api (rt_destination r)) of
        (Some expected_metric, Some expected_destination) \<Rightarrow>
          Option.bind (first_token tokens) (destination_token api) = Some expected_destination
          \<and> value_after tokens ''via'' = rt_gateway r
          \<and> value_after tokens ''dev'' = Some (rt_interface_identifier r)
          \<and> map_option of_nat (Option.bind (value_after tokens ''metric'') (parse_uint 32))
              = Some expected_metric
          \<and> value_after tokens ''proto'' = Some ''static''
      | _ \<Rightarrow> False)"

definition mutate_route ::
  "('w, 'z) ip_env_scheme \<Rightarrow> string \<Rightarrow> owned_route \<Rightarrow> 'w \<Rightarrow> (service_error, unit) result \<times> 'w" where
  "mutate_route env action r w =
     (case rt_metric r of
        None \<Rightarrow> (Err (Backend ''route_state_invalid''), w)
      | Some metric \<Rightarrow>
          (case run_ip env
             ([''-4'', ''route'', action, rt_destination r]
              @ (case rt_gateway r of None \<Rightarrow> [] | Some g \<Rightarrow> [''via'', g])
              @ [''dev'', rt_interface_identifier r, ''metric'', show_u32 metric, ''proto'', ''static'']) w of
             (None, w) \<Rightarrow> (Err (Backend ''route_command_failed''), w)
           | (Some out, w) \<Rightarrow>
               if command_success out
                  \<or> action = ''del'' \<and> contains_str ''No such process'' (co_stderr out)
               then (Ok (), w) else (Err (Backend (''route_'' @ action @ ''_failed'')), w)))"

definition linux_route_presence ::
  "('n, 'y) linux_net_api_scheme \<Rightarrow> ('w, 'z) ip_env_scheme \<Rightarrow> owned_route list \<Rightarrow> 'w \<Rightarrow>
   (service_error, route_scope option list) result \<times> 'w" where
  "linux_route_presence api env rs w =
     bind_io (ip_run env [''-4'', ''route'', ''show'', ''table'', ''main''] w) (\<lambda>out w.
       let table = map split_whitespace (str_lines (co_stdout out)) in
       (collect_results (\<lambda>r. and_then (validate_owned_route api r) (\<lambda>_.
          Ok (if list_ex (\<lambda>tokens. route_matches_tokens api tokens r) table
              then Some Unscoped else None))) rs, w))"

definition linux_route_exists ::
  "('n, 'y) linux_net_api_scheme \<Rightarrow> ('w, 'z) ip_env_scheme \<Rightarrow> owned_route \<Rightarrow> 'w \<Rightarrow>
   (service_error, bool) result \<times> 'w" where
  "linux_route_exists api env r w =
     bind_io (linux_route_presence api env [r] w) (\<lambda>ps w.
       (Ok (case ps of [] \<Rightarrow> False | p # _ \<Rightarrow> p \<noteq> None), w))"

definition linux_fingerprint_material :: "('n, 'y) linux_net_api_scheme \<Rightarrow> linux_egress \<Rightarrow> 'n list \<Rightarrow> string" where
  "linux_fingerprint_material api e networks =
     ''linux'' @ [CHR 0x00] @ le_interface e @ [CHR 0x00]
     @ (case le_gateway e of None \<Rightarrow> [] | Some g \<Rightarrow> g) @ [CHR 0x00]
     @ (case le_source e of None \<Rightarrow> [] | Some s \<Rightarrow> s) @ [CHR 0x00]
     @ join '','' (map (net_to_string api) networks)"

definition linux_owned_route :: "('n, 'y) linux_net_api_scheme \<Rightarrow> linux_egress \<Rightarrow> 'n \<Rightarrow> owned_route" where
  "linux_owned_route api e network =
     \<lparr>rt_destination = net_to_string api network, rt_interface_identifier = le_interface e,
      rt_gateway = le_gateway e, rt_metric = Some ROUTE_METRIC\<rparr>"

definition linux_backend ::
  "('n, 'y) linux_net_api_scheme \<Rightarrow> ('w, 'z) ip_env_scheme \<Rightarrow> (linux_egress, 'n, 'w) route_backend" where
  "linux_backend api env =
     \<lparr>discover_egress = (\<lambda>w.
        bind_io (ip_run env [''-4'', ''route'', ''show'', ''default''] w) (\<lambda>out w.
          (ok_or (Backend ''physical_egress_unavailable'') (parse_default_route (co_stdout out)), w))),
      local_networks = (\<lambda>e w.
        bind_io (ip_run env [''-o'', ''-4'', ''addr'', ''show'', ''dev'', le_interface e, ''scope'', ''global''] w)
          (\<lambda>out w. (Ok (parse_local_networks api (co_stdout out)), w))),
      fingerprint_material = linux_fingerprint_material api,
      owned_route_of = linux_owned_route api,
      route_presence = linux_route_presence api env,
      add_route = mutate_route env ''add'',
      remove_route = (\<lambda>r scope w.
        if scope \<noteq> Unscoped then (Err (Backend ''route_state_invalid''), w)
        else mutate_route env ''del'' r w)\<rparr>"


section \<open>Reading back a printed route\<close>

text \<open>The line that \<^verbatim>\<open>ip route show\<close> prints for a route; \<open>d\<close> is its destination, which \<^verbatim>\<open>iproute2\<close>
  abbreviates for single hosts.\<close>

definition ip_route_line :: "string \<Rightarrow> owned_route \<Rightarrow> string" where
  "ip_route_line d r =
     join '' '' ([d] @ (case rt_gateway r of None \<Rightarrow> [] | Some g \<Rightarrow> [''via'', g])
       @ [''dev'', rt_interface_identifier r, ''proto'', ''static'', ''metric'',
          show_u32 (case rt_metric r of None \<Rightarrow> 0 | Some m \<Rightarrow> m)])"

definition route_keywords :: "string set" where
  "route_keywords = {''via'', ''dev'', ''proto'', ''static'', ''metric''}"

lemma digits_plain: "list_all is_ascii_digit s \<Longrightarrow> s \<noteq> [] \<Longrightarrow> plain_word s"
  by (auto simp: plain_word_def list_all_iff is_ascii_digit_def ws1_def)

lemma show_u32_plain: "plain_word (show_u32 n)"
  by (simp add: show_u32_def digits_plain show_nat_digits)

lemma show_u32_not_keyword: "show_u32 n \<notin> route_keywords"
proof -
  have "list_all is_ascii_digit (show_u32 n)" by (simp add: show_u32_def show_nat_digits)
  then show ?thesis by (auto simp: route_keywords_def is_ascii_digit_def)
qed

lemma parse_u32_show [simp]: "parse_uint 32 (show_u32 n) = Some (unat n)"
  using parse_uint_show_nat [of "unat n" 32] unsigned_less [of n, where ?'a = nat]
  by (simp add: show_u32_def)

lemma gateway_not_keyword: "parse_ipv4 g \<noteq> None \<Longrightarrow> g \<notin> route_keywords"
proof -
  have "list_all (\<lambda>g. parse_ipv4 g = None) [''via'', ''dev'', ''proto'', ''static'', ''metric'']"
    by code_simp
  then show "parse_ipv4 g \<noteq> None \<Longrightarrow> g \<notin> route_keywords"
    by (auto simp: route_keywords_def)
qed

lemma ip_route_line_tokens:
  assumes "plain_word d" and "plain_word (rt_interface_identifier r)"
    and "\<And>g. rt_gateway r = Some g \<Longrightarrow> plain_word g"
  shows "split_whitespace (ip_route_line d r) =
     [d] @ (case rt_gateway r of None \<Rightarrow> [] | Some g \<Rightarrow> [''via'', g])
       @ [''dev'', rt_interface_identifier r, ''proto'', ''static'', ''metric'',
          show_u32 (case rt_metric r of None \<Rightarrow> 0 | Some m \<Rightarrow> m)]"
proof -
  have "list_all plain_word [''via'', ''dev'', ''proto'', ''static'', ''metric'']"
    by (simp add: plain_word_def ws1_def)
  then show ?thesis
    unfolding ip_route_line_def using assms show_u32_plain
    by (intro split_whitespace_join) (auto split: option.splits)
qed

lemma validate_owned_route_Ok:
  "validate_owned_route api r = Ok () \<longleftrightarrow>
   (\<exists>n. net_parse api (rt_destination r) = Some n \<and> net_to_string api n = rt_destination r)
   \<and> (\<forall>g. rt_gateway r = Some g \<longrightarrow> parse_ipv4 g \<noteq> None) \<and> rt_metric r \<noteq> None"
  by (auto simp: validate_owned_route_def Let_def split: option.splits if_splits)

lemma printed_route_matches_iff:
  assumes "validate_owned_route api r = Ok ()" "validate_owned_route api r' = Ok ()"
    and "destination_token api d = net_parse api (rt_destination r')"
    and "plain_word d" "d \<notin> route_keywords"
    and "plain_word (rt_interface_identifier r')" "rt_interface_identifier r' \<notin> route_keywords"
    and "\<And>g. rt_gateway r' = Some g \<Longrightarrow> plain_word g"
  shows "route_matches_tokens api (split_whitespace (ip_route_line d r')) r \<longleftrightarrow> r = r'"
proof -
  obtain n where n: "net_parse api (rt_destination r) = Some n" "net_to_string api n = rt_destination r"
    using assms(1) by (auto simp: validate_owned_route_Ok)
  obtain n' where n': "net_parse api (rt_destination r') = Some n'" "net_to_string api n' = rt_destination r'"
    using assms(2) by (auto simp: validate_owned_route_Ok)
  obtain m m' where m: "rt_metric r = Some m" "rt_metric r' = Some m'"
    using assms(1,2) by (auto simp: validate_owned_route_Ok)
  let ?ts = "split_whitespace (ip_route_line d r')"
  have ts: "?ts = [d] @ (case rt_gateway r' of None \<Rightarrow> [] | Some g \<Rightarrow> [''via'', g])
       @ [''dev'', rt_interface_identifier r', ''proto'', ''static'', ''metric'', show_u32 m']"
    using ip_route_line_tokens [OF assms(4,6,8)] m by simp
  have kw: "g \<notin> route_keywords" if "rt_gateway r' = Some g" for g
    using assms(2) that gateway_not_keyword by (auto simp: validate_owned_route_Ok)
  let ?i = "rt_interface_identifier r'"
  have ne: "d \<noteq> ''via''" "d \<noteq> ''dev''" "d \<noteq> ''proto''" "d \<noteq> ''metric''"
    "?i \<noteq> ''via''" "?i \<noteq> ''proto''" "?i \<noteq> ''metric''" "show_u32 m' \<noteq> ''via''"
    using assms(5,7) show_u32_not_keyword [of m'] by (simp_all add: route_keywords_def)
  have gne: "g \<noteq> ''dev''" "g \<noteq> ''proto''" "g \<noteq> ''metric''" if "rt_gateway r' = Some g" for g
    using kw [OF that] by (simp_all add: route_keywords_def)
  have vals: "first_token ?ts = Some d" "value_after ?ts ''via'' = rt_gateway r'"
    "value_after ?ts ''dev'' = Some ?i" "value_after ?ts ''proto'' = Some ''static''"
    "value_after ?ts ''metric'' = Some (show_u32 m')"
    unfolding ts using ne gne by (simp_all add: first_token_def split: option.split)
  have "route_matches_tokens api ?ts r \<longleftrightarrow>
      n' = n \<and> rt_gateway r' = rt_gateway r \<and> rt_interface_identifier r' = rt_interface_identifier r \<and> m' = m"
    unfolding route_matches_tokens_def vals using n n' m assms(3) by (simp; metis)
  also have "\<dots> \<longleftrightarrow> r = r'"
  proof
    assume "n' = n \<and> rt_gateway r' = rt_gateway r \<and> ?i = rt_interface_identifier r \<and> m' = m"
    with n n' m show "r = r'" by (intro owned_route.equality) simp_all
  qed (use n n' m in auto)
  finally show ?thesis .
qed

section \<open>What the userspace manager owns\<close>

text \<open>A kernel object, named by the arguments of the command that adds or deletes it without the
  action.\<close>

definition object_of :: "string list \<Rightarrow> string list" where
  "object_of arguments = take 2 arguments @ drop 3 arguments"

definition objects_in :: "userspace_route_state \<Rightarrow> string list set" where
  "objects_in s = (\<lambda>step. object_of (cs_delete step)) ` set (cleanup_steps s)"

definition known_step :: "cleanup_step \<Rightarrow> bool" where
  "known_step step \<longleftrightarrow>
     (\<exists>i r. step = route_step_of i r) \<or> (\<exists>f. step = rule_step_of f AWG_MAIN_RULE_PRIORITY)
     \<or> (\<exists>f. step = rule_step_of f AWG_TUNNEL_RULE_PRIORITY) \<or> (\<exists>i f. step = default_step_of i f)"

text \<open>What the manager relies on from \<^verbatim>\<open>ip\<close>, with \<open>objects\<close> what is installed.  An addition, also a failing
  one, installs at most its object; a deletion removes at most its object, and one that succeeds or
  finds nothing leaves it absent; other commands install and remove nothing; and what a query does
  not list is not installed.\<close>

definition deleted_reply :: "command_output option \<Rightarrow> bool" where
  "deleted_reply out = (case out of None \<Rightarrow> False
     | Some o' \<Rightarrow> command_success o' \<or> contains_str ''No such process'' (co_stderr o')
         \<or> contains_str ''No such file'' (co_stderr o'))"

definition ip_laws :: "('w, 'z) ip_env_scheme \<Rightarrow> ('w \<Rightarrow> string list set) \<Rightarrow> bool" where
  "ip_laws env objects \<longleftrightarrow>
     (\<forall>args w out w'. run_ip env args w = (out, w') \<longrightarrow>
        (if args ! 2 = ''add'' then objects w \<subseteq> objects w' \<and> objects w' \<subseteq> insert (object_of args) (objects w)
         else if args ! 2 = ''del''
         then objects w' \<subseteq> objects w \<and> objects w - {object_of args} \<subseteq> objects w'
              \<and> (deleted_reply out \<longrightarrow> object_of args \<notin> objects w')
         else objects w' = objects w))
     \<and> (\<forall>w r w'. write_src_valid_mark env w = (r, w') \<longrightarrow> objects w' = objects w)
     \<and> (\<forall>step w out w'. known_step step \<longrightarrow> query_ip env (cs_query step) w = (Ok out, w') \<longrightarrow>
          \<not> cs_owned step out \<or> trim out = [] \<longrightarrow> object_of (cs_delete step) \<notin> objects w)"

lemma ip_laws_other:
  "ip_laws env objects \<Longrightarrow> run_ip env args w = (out, w') \<Longrightarrow> args ! 2 \<noteq> ''add'' \<Longrightarrow> args ! 2 \<noteq> ''del'' \<Longrightarrow>
   objects w' = objects w"
  unfolding ip_laws_def by metis

lemma query_ip_objects:
  assumes "ip_laws env objects" and "query_ip env args w = (x, w')" and "args ! 2 = ''show''"
  shows "objects w' = objects w"
proof -
  obtain out v where run: "run_ip env args w = (out, v)" by fastforce
  have "w' = v" using assms(2) run by (auto simp: query_ip_def split: option.splits if_splits)
  with ip_laws_other [OF assms(1) run] assms(3) show ?thesis by simp
qed

lemma query_ip_absent:
  "ip_laws env objects \<Longrightarrow> known_step step \<Longrightarrow> query_ip env (cs_query step) w = (Ok out, w') \<Longrightarrow>
   \<not> cs_owned step out \<or> trim out = [] \<Longrightarrow> object_of (cs_delete step) \<notin> objects w"
  unfolding ip_laws_def by blast

lemma mutate_ip_add:
  assumes "ip_laws env objects" and "mutate_ip env args b c w = (x, w')" and "args ! 2 = ''add''"
  shows "objects w \<subseteq> objects w' \<and> objects w' \<subseteq> insert (object_of args) (objects w)"
proof -
  obtain out v where run: "run_ip env args w = (out, v)" by fastforce
  have "w' = v" using assms(2) run by (auto simp: mutate_ip_def split: option.splits if_splits)
  with assms(1,3) run show ?thesis unfolding ip_laws_def by metis
qed

lemma mutate_ip_other:
  assumes "ip_laws env objects" and "mutate_ip env args b c w = (x, w')"
    and "args ! 2 \<noteq> ''add''" "args ! 2 \<noteq> ''del''"
  shows "objects w' = objects w"
proof -
  obtain out v where run: "run_ip env args w = (out, v)" by fastforce
  have "w' = v" using assms(2) run by (auto simp: mutate_ip_def split: option.splits if_splits)
  with ip_laws_other [OF assms(1) run] assms(3,4) show ?thesis by simp
qed

lemma mutate_ip_del:
  assumes "ip_laws env objects" and "mutate_ip env args True c w = (x, w')" and "args ! 2 = ''del''"
  shows "objects w' \<subseteq> objects w \<and> objects w - {object_of args} \<subseteq> objects w'
    \<and> (is_ok x \<longrightarrow> object_of args \<notin> objects w')"
proof -
  obtain out v where run: "run_ip env args w = (out, v)" by fastforce
  have v: "w' = v" "is_ok x \<Longrightarrow> deleted_reply out"
    using assms(2) run by (auto simp: mutate_ip_def deleted_reply_def split: option.splits if_splits)
  have ne: "''del'' \<noteq> ''add''" by simp
  have "objects v \<subseteq> objects w \<and> objects w - {object_of args} \<subseteq> objects v
      \<and> (deleted_reply out \<longrightarrow> object_of args \<notin> objects v)"
    using assms(1,3) run ne unfolding ip_laws_def by metis
  with v show ?thesis by blast
qed

lemma cleanup_steps_known: "step \<in> set (cleanup_steps s) \<Longrightarrow> known_step step"
  by (auto simp: cleanup_steps_def known_step_def)

lemma known_step_arguments:
  "known_step step \<Longrightarrow> cs_query step ! 2 = ''show'' \<and> cs_delete step ! 2 = ''del''"
  by (auto simp: known_step_def route_step_of_def rule_step_of_def default_step_of_def
      route_arguments_def default_arguments_def userspace_rule_arguments_def)

lemma run_cleanup_steps_effect:
  assumes laws: "ip_laws env objects" and "list_all known_step steps"
    and "run_cleanup_steps env steps fe w = (fe', w')"
  shows "objects w' \<subseteq> objects w
    \<and> objects w - (\<lambda>step. object_of (cs_delete step)) ` set steps \<subseteq> objects w'
    \<and> (fe' = None \<longrightarrow> fe = None \<and> objects w' \<inter> (\<lambda>step. object_of (cs_delete step)) ` set steps = {})"
  using assms(2,3)
proof (induction steps arbitrary: fe w)
  case Nil
  then show ?case by simp
next
  case (Cons step steps)
  let ?obj = "object_of (cs_delete step)"
  have known: "known_step step" "list_all known_step steps" using Cons.prems(1) by simp_all
  obtain x w1 where q: "query_ip env (cs_query step) w = (x, w1)" by fastforce
  have w1: "objects w1 = objects w"
    using query_ip_objects [OF laws q] known_step_arguments [OF known(1)] by simp
  show ?case
  proof (cases x)
    case (Inl e)
    with Cons.prems q have "run_cleanup_steps env steps (or_first fe e) w1 = (fe', w')" by simp
    from Cons.IH [OF known(2) this] w1 show ?thesis by auto
  next
    case (Inr out)
    show ?thesis
    proof (cases "cs_owned step out")
      case False
      with Cons.prems q Inr have rest: "run_cleanup_steps env steps fe w1 = (fe', w')" by simp
      have "?obj \<notin> objects w" using query_ip_absent [OF laws known(1)] q Inr False by blast
      with Cons.IH [OF known(2) rest] w1 show ?thesis by auto
    next
      case True
      obtain y w2 where d: "mutate_ip env (cs_delete step) True ''route_del_failed'' w1 = (y, w2)" by fastforce
      note del = mutate_ip_del [OF laws d conjunct2 [OF known_step_arguments [OF known(1)]]]
      show ?thesis
      proof (cases y)
        case y: (Inl e)
        with Cons.prems q Inr True d have "run_cleanup_steps env steps (or_first fe e) w2 = (fe', w')" by simp
        from Cons.IH [OF known(2) this] w1 del show ?thesis by auto
      next
        case y: (Inr u)
        with Cons.prems q Inr True d have "run_cleanup_steps env steps fe w2 = (fe', w')" by simp
        from Cons.IH [OF known(2) this] w1 del y show ?thesis by auto
      qed
    qed
  qed
qed

text \<open>Every object that \<^verbatim>\<open>apply_state\<close> adds is one that \<^verbatim>\<open>cleanup\<close> of the same state deletes.\<close>

lemma apply_commands_objects:
  assumes "(args, code) \<in> set (apply_commands s)"
  shows "args ! 2 = ''add'' \<and> object_of args \<in> objects_in s \<or> args ! 2 \<noteq> ''add'' \<and> args ! 2 \<noteq> ''del''"
proof -
  have obj: "object_of (route_arguments ''add'' i r) = object_of (route_arguments ''del'' i r)"
    "object_of (default_arguments ''add'' i f) = object_of (default_arguments ''del'' i f)"
    "object_of (userspace_rule_arguments f ''add'' p) = object_of (userspace_rule_arguments f ''del'' p)"
    for i r f p
    by (simp_all add: object_of_def route_arguments_def default_arguments_def userspace_rule_arguments_def)
  have act: "route_arguments a i r ! 2 = a" "default_arguments a i f ! 2 = a"
    "userspace_rule_arguments f a p ! 2 = a" for a i r f p
    by (simp_all add: route_arguments_def default_arguments_def userspace_rule_arguments_def)
  from assms consider "args = [''link'', ''set'', ''dev'', us_interface_name s, ''up'']"
    | r where "r \<in> set (us_routes s)" "args = route_arguments ''add'' (us_interface_name s) r"
    | f where "f \<in> set (us_default_families s)"
        "args = default_arguments ''add'' (us_interface_name s) f
         \<or> args = userspace_rule_arguments f ''add'' AWG_MAIN_RULE_PRIORITY
         \<or> args = userspace_rule_arguments f ''add'' AWG_TUNNEL_RULE_PRIORITY"
    by (auto simp: apply_commands_def)
  then show ?thesis
  proof cases
    case 1
    then show ?thesis by simp
  next
    case 2
    then have "route_step_of (us_interface_name s) r \<in> set (cleanup_steps s)"
      by (simp add: cleanup_steps_def)
    then have "object_of (route_arguments ''del'' (us_interface_name s) r) \<in> objects_in s"
      unfolding objects_in_def by (force simp: route_step_of_def)
    with 2 obj act show ?thesis by simp
  next
    case 3
    then have "{rule_step_of f AWG_TUNNEL_RULE_PRIORITY, rule_step_of f AWG_MAIN_RULE_PRIORITY,
        default_step_of (us_interface_name s) f} \<subseteq> set (cleanup_steps s)"
      by (auto simp: cleanup_steps_def)
    then have "{object_of (userspace_rule_arguments f ''del'' AWG_TUNNEL_RULE_PRIORITY),
        object_of (userspace_rule_arguments f ''del'' AWG_MAIN_RULE_PRIORITY),
        object_of (default_arguments ''del'' (us_interface_name s) f)} \<subseteq> objects_in s"
      unfolding objects_in_def by (force simp: rule_step_of_def default_step_of_def)
    with 3 obj act show ?thesis by auto
  qed
qed

lemma run_commands_effect:
  assumes laws: "ip_laws env objects"
    and "\<forall>(args, code) \<in> set cmds. args ! 2 = ''add'' \<and> object_of args \<in> S \<or> args ! 2 \<noteq> ''add'' \<and> args ! 2 \<noteq> ''del''"
    and "run_commands env cmds w = (r, w')"
  shows "objects w \<subseteq> objects w' \<and> objects w' \<subseteq> objects w \<union> S"
  using assms(2,3)
proof (induction cmds arbitrary: w)
  case Nil
  then show ?case by simp
next
  case (Cons cmd cmds)
  obtain args code where c: "cmd = (args, code)" by fastforce
  obtain x w1 where m: "mutate_ip env args False code w = (x, w1)" by fastforce
  have one: "objects w \<subseteq> objects w1 \<and> objects w1 \<subseteq> objects w \<union> S"
    using Cons.prems(1) c mutate_ip_add [OF laws m] mutate_ip_other [OF laws m] by auto
  show ?case
  proof (cases x)
    case (Inl e)
    with Cons.prems c m one show ?thesis by auto
  next
    case (Inr u)
    with Cons.prems c m have "run_commands env cmds w1 = (r, w')" by simp
    with Cons.IH Cons.prems(1) one show ?thesis by fastforce
  qed
qed


lemma ensure_all_empty_effect:
  assumes laws: "ip_laws env objects" and "list_all known_step steps"
    and "ensure_all_empty env (map cs_query steps) w = (r, w')"
  shows "objects w' = objects w
    \<and> (is_ok r \<longrightarrow> objects w \<inter> (\<lambda>step. object_of (cs_delete step)) ` set steps = {})"
  using assms(2,3)
proof (induction steps arbitrary: w)
  case Nil
  then show ?case by simp
next
  case (Cons step steps)
  have known: "known_step step" "list_all known_step steps" using Cons.prems(1) by simp_all
  obtain x w1 where q: "query_ip env (cs_query step) w = (x, w1)" by fastforce
  have w1: "objects w1 = objects w"
    using query_ip_objects [OF laws q] known_step_arguments [OF known(1)] by simp
  show ?case
  proof (cases "\<exists>out. x = Ok out \<and> trim out = []")
    case True
    then obtain out where out: "x = Ok out" "trim out = []" by blast
    then have rest: "ensure_all_empty env (map cs_query steps) w1 = (r, w')"
      using Cons.prems(2) q by (simp add: ensure_ip_query_empty_def)
    have "object_of (cs_delete step) \<notin> objects w" using query_ip_absent [OF laws known(1)] q out by blast
    with Cons.IH [OF known(2) rest] w1 show ?thesis by auto
  next
    case False
    then have "w' = w1" "\<not> is_ok r"
      using Cons.prems(2) q by (cases x; auto simp: ensure_ip_query_empty_def)+
    with w1 show ?thesis by simp
  qed
qed

definition family_steps :: "string \<Rightarrow> route_family \<Rightarrow> cleanup_step list" where
  "family_steps interface f =
     [rule_step_of f AWG_MAIN_RULE_PRIORITY, rule_step_of f AWG_TUNNEL_RULE_PRIORITY, default_step_of interface f]"

lemma family_steps_known: "list_all known_step (family_steps interface f)"
  by (auto simp: family_steps_def known_step_def)

lemma ensure_families_available_effect:
  assumes laws: "ip_laws env objects" and "ensure_families_available env interface fs w = (r, w')"
  shows "objects w' = objects w
    \<and> (is_ok r \<longrightarrow> objects w \<inter> (\<Union>f \<in> set fs. (\<lambda>step. object_of (cs_delete step)) ` set (family_steps interface f)) = {})"
  using assms(2)
proof (induction fs arbitrary: w)
  case Nil
  then show ?case by simp
next
  case (Cons f fs)
  obtain x w1 where q: "query_ip env [ip_argument f, ''rule'', ''show''] w = (x, w1)" by fastforce
  have w1: "objects w1 = objects w" using query_ip_objects [OF laws q] by simp
  obtain y w2 where e: "ensure_all_empty env (map cs_query (family_steps interface f)) w1 = (y, w2)" by fastforce
  note eff = ensure_all_empty_effect [OF laws family_steps_known e]
  show ?case
  proof (cases "(\<exists>out. x = Ok out \<and> \<not> mentions_table out) \<and> is_ok y")
    case True
    then have rest: "ensure_families_available env interface fs w2 = (r, w')"
      using Cons.prems q e by (auto simp: family_steps_def is_ok_iff)
    from Cons.IH [OF this] eff w1 True show ?thesis by (simp add: Int_Un_distrib)
  next
    case False
    then have "(w' = w1 \<or> w' = w2) \<and> \<not> is_ok r"
      using Cons.prems q e by (cases x; cases y) (auto simp: family_steps_def split: if_splits)
    with eff w1 show ?thesis by auto
  qed
qed

lemma ensure_targets_available_effect:
  assumes laws: "ip_laws env objects" and "ensure_targets_available env s w = (r, w')"
  shows "objects w' = objects w \<and> (is_ok r \<longrightarrow> objects w \<inter> objects_in s = {})"
proof -
  let ?obj = "\<lambda>step. object_of (cs_delete step)"
  let ?routes = "map (route_step_of (us_interface_name s)) (us_routes s)"
  have split: "objects_in s = ?obj ` set ?routes
      \<union> (\<Union>f \<in> set (us_default_families s). ?obj ` set (family_steps (us_interface_name s) f))"
    by (auto simp: objects_in_def cleanup_steps_def family_steps_def)
  have known: "list_all known_step ?routes" by (auto simp: list_all_iff known_step_def)
  obtain x w1 where f: "ensure_families_available env (us_interface_name s) (us_default_families s) w = (x, w1)"
    by fastforce
  note feff = ensure_families_available_effect [OF laws f]
  show ?thesis
  proof (cases x)
    case (Inl e)
    with assms(2) f feff show ?thesis by (auto simp: ensure_targets_available_def)
  next
    case (Inr u)
    then have "ensure_all_empty env (map cs_query ?routes) w1 = (r, w')"
      using assms(2) f by (simp add: ensure_targets_available_def comp_def)
    from ensure_all_empty_effect [OF laws known this] feff Inr show ?thesis
      unfolding split by (simp add: Int_Un_distrib)
  qed
qed

section \<open>The invariant of the userspace manager\<close>

definition userspace_reads_back :: "userspace_json \<Rightarrow> bool" where
  "userspace_reads_back js \<longleftrightarrow> (\<forall>s bs. us_to_vec js s = Some bs \<longrightarrow> us_from_slice js bs = Some s)"

definition recorded_objects :: "userspace_route_state option \<Rightarrow> string list set" where
  "recorded_objects st = (case st of None \<Rightarrow> {} | Some s \<Rightarrow> objects_in s)"

text \<open>The state that the state file holds.\<close>

definition userspace_recorded :: "userspace_json \<Rightarrow> path \<Rightarrow> fs \<Rightarrow> userspace_route_state option" where
  "userspace_recorded js p w =
     (case nodes w p of
        Some n \<Rightarrow> (case nd_kind n of RegularFile bs \<Rightarrow> us_from_slice js bs | _ \<Rightarrow> None)
      | None \<Rightarrow> None)"

definition userspace_file_ok :: "userspace_json \<Rightarrow> path \<Rightarrow> userspace_route_state option \<Rightarrow> fs \<Rightarrow> bool" where
  "userspace_file_ok js p st w =
     (case st of
        None \<Rightarrow> nodes w p = None
      | Some s \<Rightarrow> \<exists>bs. us_to_vec js s = Some bs \<and> length bs \<le> AWG_ROUTE_STATE_MAX_SIZE
                    \<and> nodes w p = Some (state_node w bs))"

definition userspace_inv ::
  "userspace_json \<Rightarrow> ('w \<Rightarrow> string list set) \<Rightarrow> string list set \<Rightarrow> 'w userspace_manager \<Rightarrow> bool" where
  "userspace_inv js objects F m \<longleftrightarrow>
     (\<exists>dir. um_state_path m = dir @ [AWG_ROUTE_STATE_FILE])
     \<and> userspace_file_ok js (um_state_path m) (um_state m) (um_fs m)
     \<and> F \<subseteq> objects (um_net m) \<and> objects (um_net m) \<subseteq> F \<union> recorded_objects (um_state m)
     \<and> F \<inter> recorded_objects (um_state m) = {}"

lemma userspace_file_recorded:
  "userspace_reads_back js \<Longrightarrow> userspace_file_ok js p st w \<Longrightarrow> userspace_recorded js p w = st"
  by (auto simp: userspace_file_ok_def userspace_recorded_def userspace_reads_back_def state_node_def
      split: option.splits)

lemma same_at_userspace_file:
  "same_at p w w' \<Longrightarrow> userspace_file_ok js p st w \<Longrightarrow> userspace_file_ok js p st w'"
  by (auto simp: same_at_def userspace_file_ok_def state_node_def split: option.splits)

lemma remove_userspace_route_state_effect:
  "remove_userspace_route_state q w = (r, w') \<Longrightarrow>
   (if is_ok r then nodes w' q = None \<and> euid w' = euid w else same_at q w w')
   \<and> (q \<noteq> p \<longrightarrow> same_at p w w')"
  by (auto simp: remove_userspace_route_state_def remove_file_def same_at_def dest!: next_fault_frame
      split: prod.splits option.splits sum.splits io_error.splits if_splits)

lemma userspace_temporary:
  "with_extension ''json.new'' (dir @ [AWG_ROUTE_STATE_FILE]) \<noteq> dir @ [AWG_ROUTE_STATE_FILE]"
proof -
  have "rsplit_once (CHR ''.'') AWG_ROUTE_STATE_FILE = Some (butlast (butlast (butlast (butlast (butlast AWG_ROUTE_STATE_FILE)))), ''json'')"
    by (simp add: rsplit_once_def AWG_ROUTE_STATE_FILE_def)
  then show ?thesis by (simp add: with_extension_def Let_def AWG_ROUTE_STATE_FILE_def)
qed

lemma persist_userspace_effect:
  assumes "persist_userspace_route_state js p s w = (r, w')" and p: "p = dir @ [AWG_ROUTE_STATE_FILE]"
  shows "if is_ok r then userspace_file_ok js p (Some s) w' else same_at p w w'"
proof (cases "\<exists>bs. us_to_vec js s = Some bs \<and> length bs \<le> AWG_ROUTE_STATE_MAX_SIZE")
  case False
  then have "w' = w \<and> \<not> is_ok r"
    using assms(1) by (auto simp: persist_userspace_route_state_def split: option.splits if_splits)
  then show ?thesis by (simp add: same_at_def)
next
  case True
  then obtain bs where bs: "us_to_vec js s = Some bs" "length bs \<le> AWG_ROUTE_STATE_MAX_SIZE" by blast
  let ?q = "with_extension ''json.new'' p"
  have q: "?q \<noteq> p" using userspace_temporary p by simp
  obtain x w1 where rm: "remove_userspace_route_state ?q w = (x, w1)" by fastforce
  have same: "same_at p w w1" using remove_userspace_route_state_effect [OF rm] q by blast
  show ?thesis
  proof (cases x)
    case (Inl e)
    with assms(1) bs rm same show ?thesis by (auto simp: persist_userspace_route_state_def)
  next
    case (Inr u)
    then have "write_private_file bs ?q p w1 = (r, w')"
      using assms(1) bs rm by (simp add: persist_userspace_route_state_def)
    from write_private_file_effect [OF q this] same bs show ?thesis
      by (auto simp: userspace_file_ok_def state_node_def intro: same_at_trans split: if_splits)
  qed
qed

lemma userspace_cleanup_inv:
  assumes laws: "ip_laws env objects" and inv: "userspace_inv js objects F m"
    and c: "userspace_cleanup env m = (r, m')"
  shows "userspace_inv js objects F m'
    \<and> (is_ok r \<longrightarrow> um_state m' = None \<and> objects (um_net m') = F)"
proof (cases "um_state m")
  case None
  with c inv show ?thesis by (auto simp: userspace_cleanup_def userspace_inv_def recorded_objects_def)
next
  case (Some s)
  obtain fe net where run: "run_cleanup_steps env (cleanup_steps s) None (um_net m) = (fe, net)" by fastforce
  have known: "list_all known_step (cleanup_steps s)" by (simp add: list_all_iff cleanup_steps_known)
  note eff = run_cleanup_steps_effect [OF laws known run, folded objects_in_def]
  have base: "F \<subseteq> objects net" "objects net \<subseteq> F \<union> objects_in s" "F \<inter> objects_in s = {}"
    using inv eff Some by (auto simp: userspace_inv_def recorded_objects_def)
  show ?thesis
  proof (cases fe)
    case fe: (Some e)
    with c run Some have "m' = m\<lparr>um_net := net\<rparr> \<and> \<not> is_ok r" by (auto simp: userspace_cleanup_def)
    with inv base Some show ?thesis by (simp add: userspace_inv_def recorded_objects_def)
  next
    case fe: None
    then have exact: "objects net = F" using eff base by blast
    obtain x w where rm: "remove_userspace_route_state (um_state_path m) (um_fs m) = (x, w)" by fastforce
    note saved = remove_userspace_route_state_effect [OF rm]
    show ?thesis
    proof (cases x)
      case (Inl e)
      with c run Some fe rm have m': "m' = m\<lparr>um_net := net, um_fs := w\<rparr>" "\<not> is_ok r"
        by (auto simp: userspace_cleanup_def)
      have "same_at (um_state_path m) (um_fs m) w" using saved Inl by simp
      with inv base Some m' show ?thesis
        by (auto simp: userspace_inv_def recorded_objects_def intro: same_at_userspace_file)
    next
      case (Inr u)
      with c run Some fe rm have m': "m' = m\<lparr>um_net := net, um_fs := w, um_state := None\<rparr>"
        by (auto simp: userspace_cleanup_def)
      have "nodes w (um_state_path m) = None" using saved Inr by simp
      with inv exact m' show ?thesis
        by (simp add: userspace_inv_def recorded_objects_def userspace_file_ok_def)
    qed
  qed
qed

lemma install_userspace_inv:
  assumes laws: "ip_laws env objects" and inv: "userspace_inv js objects F m" and s: "um_state m = Some s"
    and i: "install_userspace env s m = (r, m')"
  shows "userspace_inv js objects F m'"
proof -
  obtain x net where mk: "(if FamilyIpv4 \<in> set (us_default_families s)
      then write_src_valid_mark env (um_net m) else (Ok (), um_net m)) = (x, net)" by fastforce
  have net: "objects net = objects (um_net m)" using laws mk unfolding ip_laws_def by (metis prod.inject)
  then have inv1: "userspace_inv js objects F (m\<lparr>um_net := net\<rparr>)" using inv by (simp add: userspace_inv_def)
  obtain y net2 where ap: "apply_state env s net = (y, net2)" by fastforce
  have "\<forall>(args, code) \<in> set (apply_commands s). args ! 2 = ''add'' \<and> object_of args \<in> objects_in s
      \<or> args ! 2 \<noteq> ''add'' \<and> args ! 2 \<noteq> ''del''"
    using apply_commands_objects by blast
  from run_commands_effect [OF laws this ap [unfolded apply_state_def]]
  have inv2: "userspace_inv js objects F (m\<lparr>um_net := net2\<rparr>)"
    using inv1 s by (auto simp: userspace_inv_def recorded_objects_def)
  have "m' = snd (userspace_cleanup env (m\<lparr>um_net := net\<rparr>))
      \<or> m' = snd (userspace_cleanup env (m\<lparr>um_net := net2\<rparr>)) \<or> m' = m\<lparr>um_net := net2\<rparr>"
    using i mk ap by (cases x; cases y) (auto simp: install_userspace_def)
  then show ?thesis
    using inv2 userspace_cleanup_inv [OF laws inv1] userspace_cleanup_inv [OF laws inv2]
    by (metis prod.collapse)
qed

lemma userspace_apply_inv:
  assumes laws: "ip_laws env objects" and inv: "userspace_inv js objects F m"
    and a: "userspace_apply js env mask_text interface peers m = (r, m')"
  shows "userspace_inv js objects F m'"
proof -
  obtain x m1 where c: "userspace_cleanup env m = (x, m1)" by fastforce
  note clean = userspace_cleanup_inv [OF laws inv c]
  let ?s = "userspace_route_plan mask_text interface peers"
  obtain y net where t: "ensure_targets_available env ?s (um_net m1) = (y, net)" by fastforce
  note teff = ensure_targets_available_effect [OF laws t]
  obtain z w where p: "persist_userspace_route_state js (um_state_path m1) ?s (um_fs m1) = (z, w)" by fastforce
  have inv1: "userspace_inv js objects F (m1\<lparr>um_net := net\<rparr>)" using clean teff by (simp add: userspace_inv_def)
  obtain dir where dir: "um_state_path m1 = dir @ [AWG_ROUTE_STATE_FILE]"
    using clean by (auto simp: userspace_inv_def)
  note saved = persist_userspace_effect [OF p dir]
  let ?m2 = "m1\<lparr>um_net := net, um_fs := w, um_state := Some ?s\<rparr>"
  consider "m' = m1" | "m' = m1\<lparr>um_net := net\<rparr>" | "\<not> is_ok z" "m' = m1\<lparr>um_net := net, um_fs := w\<rparr>"
    | "is_ok x" "is_ok y" "is_ok z" "install_userspace env ?s ?m2 = (r, m')"
    using a c t p by (cases x; cases y; cases z) (auto simp: userspace_apply_def Let_def split: if_splits)
  then show ?thesis
  proof cases
    case 3
    then have "same_at (um_state_path m1) (um_fs m1) w" using saved by simp
    with inv1 3 show ?thesis by (auto simp: userspace_inv_def intro: same_at_userspace_file)
  next
    case 4
    then have "userspace_inv js objects F ?m2"
      using clean teff saved dir by (auto simp: userspace_inv_def recorded_objects_def)
    from install_userspace_inv [OF laws this _ 4(4)] show ?thesis by simp
  qed (use clean inv1 in simp_all)
qed


text \<open>Each operation runs under its own schedule of faults, as for the route manager; a restart loads
  the state file under its schedule too and looks for \<^verbatim>\<open>ip\<close>, and one that fails starts no manager.\<close>

datatype userspace_op =
  UsApply string "(ip_addr \<times> nat) list list" "nat option list"
| UsCleanup "nat option list"
| UsRestart "string \<Rightarrow> bool" "nat option list"

definition us_with_faults :: "nat option list \<Rightarrow> 'w userspace_manager \<Rightarrow> 'w userspace_manager" where
  "us_with_faults fs m = m\<lparr>um_fs := (um_fs m)\<lparr>faults := fs\<rparr>\<rparr>"

fun userspace_step ::
  "('m, 'y) any_net_api_scheme \<Rightarrow> userspace_json \<Rightarrow> ('w, 'z) ip_env_scheme \<Rightarrow>
   (ip_addr \<Rightarrow> nat \<Rightarrow> string) \<Rightarrow> 'w userspace_manager \<Rightarrow> userspace_op \<Rightarrow> 'w userspace_manager" where
  "userspace_step api js env mask_text m (UsApply interface peers fs) =
     snd (userspace_apply js env mask_text interface peers (us_with_faults fs m))"
| "userspace_step api js env mask_text m (UsCleanup fs) = snd (userspace_cleanup env (us_with_faults fs m))"
| "userspace_step api js env mask_text m (UsRestart exists_file fs) =
     (case new_userspace_manager api js exists_file (butlast (um_state_path m)) (um_fs (us_with_faults fs m)) (um_net m) of
        (Ok m', w) \<Rightarrow> m'
      | (Err _, w) \<Rightarrow> m\<lparr>um_fs := w\<rparr>)"

definition fresh_userspace :: "path \<Rightarrow> u32 \<Rightarrow> 'w \<Rightarrow> 'w userspace_manager" where
  "fresh_userspace dir uid net =
     \<lparr>um_state_path = dir @ [AWG_ROUTE_STATE_FILE], um_state = None,
      um_fs = \<lparr>nodes = (\<lambda>_. None), euid = uid, faults = []\<rparr>, um_net = net\<rparr>"

lemma us_with_faults_inv: "userspace_inv js objects F m \<Longrightarrow> userspace_inv js objects F (us_with_faults fs m)"
  by (simp add: userspace_inv_def us_with_faults_def userspace_file_ok_def state_node_def split: option.splits)

lemma load_userspace_effect:
  assumes "userspace_reads_back js" and "userspace_file_ok js p st w"
    and "load_userspace_route_state api js p w = (r, w')"
  shows "same_at p w w' \<and> (\<forall>x. r = Ok x \<longrightarrow> x = st)"
proof (cases st)
  case None
  with assms show ?thesis
    by (auto simp: load_userspace_route_state_def userspace_file_ok_def symlink_metadata_def same_at_def
        dest!: next_fault_frame split: prod.splits option.splits io_error.splits if_splits)
next
  case (Some s)
  then obtain bs where bs: "us_to_vec js s = Some bs" "nodes w p = Some (state_node w bs)"
    using assms(2) by (auto simp: userspace_file_ok_def)
  then have s: "us_from_slice js bs = Some s" using assms(1) by (simp add: userspace_reads_back_def)
  obtain x v where meta: "symlink_metadata p w = (x, v)" by fastforce
  have v: "same_at p w v" using fs_calls_same_at(1) [of p w p] meta by simp
  obtain y u where rd: "fs_read p v = (y, u)" by fastforce
  have u: "same_at p v u" using fs_calls_same_at(7) [of p v p] rd by simp
  have y: "y = Ok bs" if "is_ok y"
    using rd that v bs by (auto simp: fs_read_def same_at_def state_node_def dest!: next_fault_frame
        split: prod.splits option.splits)
  have x: "x \<noteq> Err NotFound"
    using meta bs by (auto simp: symlink_metadata_def dest!: next_fault_frame split: prod.splits option.splits)
  have "(w' = v \<or> w' = u) \<and> (\<forall>z. r = Ok z \<longrightarrow> z = Some s)"
    using assms(3) meta rd x y s
    by (cases x; cases y)
      (auto simp: load_userspace_route_state_def and_then_def split: io_error.splits if_splits sum.splits)
  with v u Some show ?thesis by (auto intro: same_at_trans)
qed

lemma userspace_restart_inv:
  assumes rb: "userspace_reads_back js" and inv: "userspace_inv js objects F m"
  shows "userspace_inv js objects F (userspace_step api js env mask_text m (UsRestart exists_file fs))"
proof -
  let ?m = "us_with_faults fs m"
  have inv': "userspace_inv js objects F ?m" using inv by (rule us_with_faults_inv)
  obtain x w where ld: "load_userspace_route_state api js (um_state_path m) (um_fs ?m) = (x, w)" by fastforce
  have path: "butlast (um_state_path m) @ [AWG_ROUTE_STATE_FILE] = um_state_path m"
    using inv by (auto simp: userspace_inv_def)
  have fields: "um_state_path ?m = um_state_path m" "um_net ?m = um_net m" "um_state ?m = um_state m"
    by (simp_all add: us_with_faults_def)
  have ok: "userspace_file_ok js (um_state_path m) (um_state m) (um_fs ?m)"
    using inv' fields by (simp add: userspace_inv_def)
  note eff = load_userspace_effect [OF rb ok ld]
  have "userspace_inv js objects F (m\<lparr>um_fs := w\<rparr>)"
    using inv same_at_userspace_file [OF conjunct1 [OF eff] ok] by (simp add: userspace_inv_def)
  moreover have "userspace_step api js env mask_text m (UsRestart exists_file fs) = m\<lparr>um_fs := w\<rparr>"
    using ld eff path by (cases x; cases "ip_command exists_file") (auto simp: new_userspace_manager_def Let_def)
  ultimately show ?thesis by simp
qed

lemma userspace_step_inv:
  assumes "ip_laws env objects" "userspace_reads_back js" "userspace_inv js objects F m"
  shows "userspace_inv js objects F (userspace_step api js env mask_text m x)"
proof (cases x)
  case (UsApply interface peers fs)
  then show ?thesis
    using userspace_apply_inv [OF assms(1) us_with_faults_inv [OF assms(3)]]
    by (metis userspace_step.simps(1) surjective_pairing)
next
  case (UsCleanup fs)
  then show ?thesis
    using userspace_cleanup_inv [OF assms(1) us_with_faults_inv [OF assms(3)]]
    by (metis userspace_step.simps(2) surjective_pairing)
next
  case (UsRestart exists_file fs)
  then show ?thesis using userspace_restart_inv [OF assms(2,3)] by simp
qed

lemma userspace_run_inv:
  "ip_laws env objects \<Longrightarrow> userspace_reads_back js \<Longrightarrow> userspace_inv js objects F m \<Longrightarrow>
   userspace_inv js objects F (run (userspace_step api js env mask_text) m xs)"
  by (induction xs arbitrary: m) (simp_all add: userspace_step_inv)

lemma fresh_userspace_inv: "userspace_inv js objects (objects net) (fresh_userspace dir uid net)"
  by (simp add: userspace_inv_def fresh_userspace_def userspace_file_ok_def recorded_objects_def)

section \<open>Reading a whole listing\<close>

text \<open>The line \<open>l\<close> shows the route \<open>r\<close>, whose addresses and names are single words.\<close>

definition line_shows :: "('n, 'z) linux_net_api_scheme \<Rightarrow> string \<Rightarrow> owned_route \<Rightarrow> bool" where
  "line_shows api l r \<longleftrightarrow>
     validate_owned_route api r = Ok ()
     \<and> plain_word (rt_interface_identifier r) \<and> rt_interface_identifier r \<notin> route_keywords
     \<and> (\<forall>g. rt_gateway r = Some g \<longrightarrow> plain_word g)
     \<and> (\<exists>d. l = ip_route_line d r \<and> plain_word d \<and> d \<notin> route_keywords
          \<and> destination_token api d = net_parse api (rt_destination r))"

definition other_line :: "string \<Rightarrow> bool" where
  "other_line l \<longleftrightarrow> value_after (split_whitespace l) ''proto'' \<noteq> Some ''static''"

lemma line_shows_matches:
  assumes "line_shows api l r'" and "validate_owned_route api r = Ok ()"
  shows "route_matches_tokens api (split_whitespace l) r \<longleftrightarrow> r = r'"
  using assms printed_route_matches_iff by (fastforce simp: line_shows_def)

lemma other_line_matches: "other_line l \<Longrightarrow> \<not> route_matches_tokens api (split_whitespace l) r"
  by (auto simp: other_line_def route_matches_tokens_def split: option.splits)

lemma str_lines_listing:
  "list_all (\<lambda>l. newline_char \<notin> set l \<and> cr_char \<notin> set l) ls \<Longrightarrow>
   str_lines (concat (map (\<lambda>l. l @ [newline_char]) ls)) = ls"
proof (induction ls)
  case Nil
  then show ?case by (simp add: str_lines_def)
qed (simp add: str_lines_Cons_line)

lemma collect_results_Ok_map: "list_all (\<lambda>x. f x = Ok (g x)) xs \<Longrightarrow> collect_results f xs = Ok (map g xs)"
  by (induction xs) simp_all

lemma linux_route_presence_listing:
  assumes run: "run_ip env [''-4'', ''route'', ''show'', ''table'', ''main''] w = (Some out, w')"
    and ok: "command_success out"
    and listing: "co_stdout out = concat (map (\<lambda>l. l @ [newline_char]) ls)"
    and lines: "list_all (\<lambda>l. newline_char \<notin> set l \<and> cr_char \<notin> set l) ls"
    and shown: "list_all (\<lambda>l. other_line l \<or> (\<exists>r. line_shows api l r)) ls"
    and valid: "list_all (\<lambda>r. validate_owned_route api r = Ok ()) rs"
  shows "linux_route_presence api env rs w =
    (Ok (map (\<lambda>r. if \<exists>l \<in> set ls. line_shows api l r then Some Unscoped else None) rs), w')"
proof -
  have one: "list_ex (\<lambda>ts. route_matches_tokens api ts r) (map split_whitespace ls)
      \<longleftrightarrow> (\<exists>l \<in> set ls. line_shows api l r)" if v: "validate_owned_route api r = Ok ()" for r
  proof -
    have "route_matches_tokens api (split_whitespace l) r \<longleftrightarrow> line_shows api l r" if "l \<in> set ls" for l
    proof -
      from shown that consider "other_line l" | r' where "line_shows api l r'" by (auto simp: list_all_iff)
      then show ?thesis
      proof cases
        case 1
        have "line_shows api l r \<Longrightarrow> route_matches_tokens api (split_whitespace l) r"
          using line_shows_matches v by blast
        with other_line_matches [OF 1] show ?thesis by blast
      next
        case 2
        have "line_shows api l r \<Longrightarrow> route_matches_tokens api (split_whitespace l) r"
          using line_shows_matches v by blast
        with line_shows_matches [OF 2 v] 2 show ?thesis by blast
      qed
    qed
    then show ?thesis by (auto simp: list_ex_iff)
  qed
  have "list_all (\<lambda>r. and_then (validate_owned_route api r) (\<lambda>_.
          Ok (if list_ex (\<lambda>ts. route_matches_tokens api ts r) (map split_whitespace ls) then Some Unscoped else None))
      = Ok (if \<exists>l \<in> set ls. line_shows api l r then Some Unscoped else None)) rs"
    using valid one by (simp add: list_all_iff)
  from collect_results_Ok_map [OF this] show ?thesis
    using run ok by (simp add: linux_route_presence_def ip_run_def listing str_lines_listing [OF lines])
qed

section \<open>Properties\<close>

text \<open>For the witnesses: networks that are their text, and a main table with one route of another
  program and one host route of the helper, which \<^verbatim>\<open>ip\<close> prints without its prefix length.\<close>

definition sample_net_api :: "string linux_net_api" where
  "sample_net_api =
     \<lparr>net_parse = (\<lambda>s. if s = ''192.0.2.7/32'' \<or> s = ''10.0.0.0/8'' then Some s else None),
      net_addr = (\<lambda>_. Ipv4Addr 0 0 0 0), net_network = (\<lambda>_. Ipv4Addr 0 0 0 0), net_to_string = (\<lambda>s. s),
      net_aggregate = (\<lambda>ns. ns),
      net_new = (\<lambda>a p. if a = Ipv4Addr 192 0 2 7 \<and> p = 32 then Some ''192.0.2.7/32'' else None),
      net_prefix_len = (\<lambda>_. 32)\<rparr>"

definition host_route :: owned_route where
  "host_route = \<lparr>rt_destination = ''192.0.2.7/32'', rt_interface_identifier = ''eth0'',
     rt_gateway = Some ''192.0.2.1'', rt_metric = Some 7\<rparr>"

definition absent_route :: owned_route where
  "absent_route = host_route\<lparr>rt_destination := ''10.0.0.0/8''\<rparr>"

definition host_listing :: "string list" where
  "host_listing = [''default via 192.0.2.1 dev eth0 proto dhcp metric 100'',
     ''192.0.2.7 via 192.0.2.1 dev eth0 proto static metric 7'']"

definition listing_env :: "unit ip_env" where
  "listing_env =
     \<lparr>run_ip = (\<lambda>args w. (Some \<lparr>co_code = Some 0,
        co_stdout = concat (map (\<lambda>l. l @ [newline_char]) host_listing), co_stderr = []\<rparr>, w)),
      write_src_valid_mark = (\<lambda>w. (Ok (), w))\<rparr>"


lemma host_routes_valid:
  "validate_owned_route sample_net_api host_route = Ok ()" "validate_owned_route sample_net_api absent_route = Ok ()"
  by (code_simp, code_simp)

lemma host_listing_lines:
  "other_line (host_listing ! 0)" "line_shows sample_net_api (host_listing ! 1) host_route"
proof -
  show "other_line (host_listing ! 0)" by code_simp
  have "plain_word ''eth0''" "plain_word ''192.0.2.1''" "plain_word ''192.0.2.7''"
    by (simp_all add: plain_word_def ws1_def)
  moreover have "ip_route_line ''192.0.2.7'' host_route = host_listing ! 1" by code_simp
  moreover have "destination_token sample_net_api ''192.0.2.7''
      = net_parse sample_net_api (rt_destination host_route)" by code_simp
  ultimately show "line_shows sample_net_api (host_listing ! 1) host_route"
    using host_routes_valid(1)
    by (auto simp: line_shows_def host_route_def route_keywords_def intro!: exI [of _ "''192.0.2.7''"])
qed



text \<open>For the witness: a kernel that knows one route of the tunnel.\<close>

definition tunnel_route :: userspace_route where
  "tunnel_route = \<lparr>ur_family = FamilyIpv4, ur_destination = ''10.0.0.0/8''\<rparr>"

definition tunnel_env :: "bool ip_env" where
  "tunnel_env =
     \<lparr>run_ip = (\<lambda>args w.
        let reply = \<lambda>out. Some \<lparr>co_code = Some 0, co_stdout = out, co_stderr = []\<rparr> in
        if args = route_arguments ''add'' ''awg0'' tunnel_route then (reply [], True)
        else if args = route_arguments ''del'' ''awg0'' tunnel_route then (reply [], False)
        else if args = cs_query (route_step_of ''awg0'' tunnel_route)
        then (reply (if w then ''10.0.0.0/8 dev awg0 proto static'' else []), w)
        else if args = [''link'', ''set'', ''dev'', ''awg0'', ''up''] then (reply [], w)
        else (None, w)),
      write_src_valid_mark = (\<lambda>w. (Ok (), w))\<rparr>"

definition tunnel_objects :: "bool \<Rightarrow> string list set" where
  "tunnel_objects w = (if w then {object_of (route_arguments ''del'' ''awg0'' tunnel_route)} else {})"

definition tunnel_plan :: userspace_route_state where
  "tunnel_plan = (empty_userspace_state ''awg0'')\<lparr>us_routes := [tunnel_route]\<rparr>"

definition tunnel_json :: userspace_json where
  "tunnel_json =
     \<lparr>us_to_vec = (\<lambda>s. if s = tunnel_plan then Some ''plan'' else None),
      us_from_slice = (\<lambda>bs. if bs = ''plan'' then Some tunnel_plan else None)\<rparr>"

definition tunnel_peers :: "(ip_addr \<times> nat) list list" where
  "tunnel_peers = [[(V4 (Ipv4Addr 10 0 0 0), 8)]]"

lemma tunnel_json_reads_back: "userspace_reads_back tunnel_json"
  by (auto simp: userspace_reads_back_def tunnel_json_def split: if_splits)

lemma tunnel_owned: "cs_owned (route_step_of ''awg0'' tunnel_route) ''10.0.0.0/8 dev awg0 proto static''"
  by code_simp

lemma object_of_tunnel:
  "object_of (cs_delete (route_step_of i r)) = object_of (route_arguments ''del'' ''awg0'' tunnel_route) \<Longrightarrow>
   i = ''awg0'' \<and> r = tunnel_route"
  by (cases "ur_family r") (auto simp: object_of_def route_step_of_def route_arguments_def tunnel_route_def)

lemma object_of_other_steps:
  "object_of (cs_delete (rule_step_of f p)) \<noteq> object_of (route_arguments ''del'' ''awg0'' tunnel_route)"
  "object_of (cs_delete (default_step_of i f)) \<noteq> object_of (route_arguments ''del'' ''awg0'' tunnel_route)"
  by (auto simp: object_of_def rule_step_of_def default_step_of_def userspace_rule_arguments_def
      default_arguments_def route_arguments_def tunnel_route_def)

lemma tunnel_step:
  assumes "known_step step" and "object_of (cs_delete step) \<in> tunnel_objects w"
  shows "w \<and> step = route_step_of ''awg0'' tunnel_route"
  using assms object_of_tunnel object_of_other_steps
  by (auto simp: known_step_def tunnel_objects_def split: if_splits)

lemma tunnel_run:
  assumes "run_ip tunnel_env args w = (out, w')"
  shows "if args ! 2 = ''add'' then tunnel_objects w \<subseteq> tunnel_objects w'
      \<and> tunnel_objects w' \<subseteq> insert (object_of args) (tunnel_objects w)
    else if args ! 2 = ''del''
    then tunnel_objects w' \<subseteq> tunnel_objects w \<and> tunnel_objects w - {object_of args} \<subseteq> tunnel_objects w'
      \<and> (deleted_reply out \<longrightarrow> object_of args \<notin> tunnel_objects w')
    else tunnel_objects w' = tunnel_objects w"
  using assms
  by (auto simp: tunnel_env_def Let_def tunnel_objects_def route_arguments_def route_step_of_def
      object_of_def deleted_reply_def command_success_def split: if_splits)

lemma tunnel_laws: "ip_laws tunnel_env tunnel_objects"
proof -
  have "object_of (cs_delete step) \<notin> tunnel_objects w"
    if "known_step step" "query_ip tunnel_env (cs_query step) w = (Ok out, w')"
      "\<not> cs_owned step out \<or> trim out = []" for step w out w'
  proof
    assume "object_of (cs_delete step) \<in> tunnel_objects w"
    from tunnel_step [OF that(1) this] have w: "w" "step = route_step_of ''awg0'' tunnel_route" by auto
    then have "out = ''10.0.0.0/8 dev awg0 proto static''"
      using that(2) by (auto simp: query_ip_def tunnel_env_def Let_def route_step_of_def route_arguments_def
          command_success_def)
    moreover have "trim ''10.0.0.0/8 dev awg0 proto static'' \<noteq> []" by code_simp
    ultimately show False using that(3) w tunnel_owned by auto
  qed
  moreover have "write_src_valid_mark tunnel_env w = (r, w') \<Longrightarrow> tunnel_objects w' = tunnel_objects w" for w r w'
    by (simp add: tunnel_env_def)
  ultimately show ?thesis unfolding ip_laws_def using tunnel_run by blast
qed


definition tunnel_any_api :: "string any_net_api" where
  "tunnel_any_api = \<lparr>any_parse = Some, any_to_string = (\<lambda>s. s), any_is_ipv4 = (\<lambda>_. True)\<rparr>"


end
