(* ===== verification/Rust_Fs.thy ===== *)
theory Rust_Fs
  imports Rust_Io "HOL-Library.Sublist"
begin

text \<open>
  Directories, permissions, links and locks over the file system of \<open>Rust_Io\<close>, as
  \<^verbatim>\<open>std::fs\<close> and \<^verbatim>\<open>fs2\<close> offer them on Unix.  A path of the model is physical: its inner components are
  directories, and only its last one may be a link.  Every call takes the next fault of the
  schedule, and a fault makes it fail.
\<close>

section \<open>Calls\<close>

definition guarded ::
  "io_error \<Rightarrow> (fs \<Rightarrow> (io_error, 'a) result \<times> fs) \<Rightarrow> fs \<Rightarrow> (io_error, 'a) result \<times> fs" where
  "guarded e f w = (case next_fault w of (Some _, w') \<Rightarrow> (Err e, w') | (None, w') \<Rightarrow> f w')"

text \<open>What the process finds around it: the modes of new directories and files under its umask,
  where links lead, which locks other processes hold, and the order of a directory listing.\<close>

record os_env =
  new_dir_mode :: u32
  new_file_mode :: u32
  link_target :: "path \<Rightarrow> path option"
  lock_held :: "path \<Rightarrow> bool"
  dir_entries :: "path \<Rightarrow> fs \<Rightarrow> string list"

text \<open>Opening for reading with \<^verbatim>\<open>O_NOFOLLOW\<close>; a directory can be opened.\<close>

definition open_nofollow :: "path \<Rightarrow> fs \<Rightarrow> (io_error, node) result \<times> fs" where
  "open_nofollow p =
     guarded PermissionDenied (\<lambda>w.
       (case nodes w p of
          None \<Rightarrow> Err NotFound
        | Some n \<Rightarrow>
            (case nd_kind n of
               SymlinkNode _ \<Rightarrow> Err (IoOther ''too many levels of symbolic links'')
             | SocketNode \<Rightarrow> Err (IoOther ''no such device or address'')
             | _ \<Rightarrow> Ok n), w))"

text \<open>\<^verbatim>\<open>read(true).write(true).create(true).mode(m)\<close> with \<^verbatim>\<open>O_NOFOLLOW\<close>.\<close>

definition open_or_create :: "u32 \<Rightarrow> path \<Rightarrow> fs \<Rightarrow> (io_error, node) result \<times> fs" where
  "open_or_create mode p =
     guarded PermissionDenied (\<lambda>w.
       case nodes w p of
         None \<Rightarrow>
           (let n = \<lparr>nd_kind = RegularFile [], nd_uid = euid w, nd_mode = mode\<rparr>
            in (Ok n, w\<lparr>nodes := (nodes w)(p := Some n)\<rparr>))
       | Some n \<Rightarrow>
           (case nd_kind n of
              RegularFile _ \<Rightarrow> (Ok n, w)
            | DirectoryNode \<Rightarrow> (Err (IoOther ''is a directory''), w)
            | SymlinkNode _ \<Rightarrow> (Err (IoOther ''too many levels of symbolic links''), w)
            | SocketNode \<Rightarrow> (Err (IoOther ''no such device or address''), w)))"

text \<open>\<^verbatim>\<open>fs::set_permissions\<close> on what is not a link.\<close>

definition set_permissions :: "u32 \<Rightarrow> path \<Rightarrow> fs \<Rightarrow> (io_error, unit) result \<times> fs" where
  "set_permissions mode p =
     guarded PermissionDenied (\<lambda>w.
       case nodes w p of
         None \<Rightarrow> (Err NotFound, w)
       | Some n \<Rightarrow> (Ok (), w\<lparr>nodes := (nodes w)(p := Some (n\<lparr>nd_mode := mode\<rparr>))\<rparr>))"

definition directory_at :: "fs \<Rightarrow> path \<Rightarrow> bool" where
  "directory_at w p \<longleftrightarrow> (case nodes w p of None \<Rightarrow> False | Some n \<Rightarrow> is_dir (nd_kind n))"

definition create_dir :: "os_env \<Rightarrow> path \<Rightarrow> fs \<Rightarrow> (io_error, unit) result \<times> fs" where
  "create_dir env p =
     guarded PermissionDenied (\<lambda>w.
       if nodes w p \<noteq> None then (Err AlreadyExists, w)
       else if p = [] \<or> \<not> directory_at w (butlast p) then (Err NotFound, w)
       else (Ok (), w\<lparr>nodes := (nodes w)
              (p := Some \<lparr>nd_kind = DirectoryNode, nd_uid = euid w, nd_mode = new_dir_mode env\<rparr>)\<rparr>))"

text \<open>\<^verbatim>\<open>fs::create_dir_all\<close> creates the missing ones of the directories on the way.\<close>

fun create_dirs :: "os_env \<Rightarrow> path \<Rightarrow> string list \<Rightarrow> fs \<Rightarrow> (io_error, unit) result \<times> fs" where
  "create_dirs env at [] w = (Ok (), w)"
| "create_dirs env at (c # cs) w =
     (if directory_at w (at @ [c]) then create_dirs env (at @ [c]) cs w
      else bind_io (create_dir env (at @ [c]) w) (\<lambda>_ w. create_dirs env (at @ [c]) cs w))"

definition create_dir_all :: "os_env \<Rightarrow> path \<Rightarrow> fs \<Rightarrow> (io_error, unit) result \<times> fs" where
  "create_dir_all env p w = create_dirs env [] p w"

text \<open>\<^verbatim>\<open>fs::rename\<close> of a directory moves everything under it.  The sources rename to a name that is not
  there; an existing one makes the call fail.\<close>

definition move_tree :: "path \<Rightarrow> path \<Rightarrow> (path \<Rightarrow> node option) \<Rightarrow> path \<Rightarrow> node option" where
  "move_tree p q f x =
     (if prefix q x then f (p @ drop (length q) x) else if prefix p x then None else f x)"

definition rename_dir :: "path \<Rightarrow> path \<Rightarrow> fs \<Rightarrow> (io_error, unit) result \<times> fs" where
  "rename_dir p q =
     guarded PermissionDenied (\<lambda>w.
       if nodes w p = None then (Err NotFound, w)
       else if nodes w q \<noteq> None then (Err AlreadyExists, w)
       else if prefix p q then (Err InvalidInput, w)
       else (Ok (), w\<lparr>nodes := move_tree p q (nodes w)\<rparr>))"

text \<open>\<^verbatim>\<open>fs::remove_dir_all\<close>; one that fails may have removed the deeper part of the tree.\<close>

definition drop_tree :: "nat \<Rightarrow> path \<Rightarrow> (path \<Rightarrow> node option) \<Rightarrow> path \<Rightarrow> node option" where
  "drop_tree depth p f x = (if prefix p x \<and> length x \<ge> length p + depth then None else f x)"

definition remove_dir_all :: "path \<Rightarrow> fs \<Rightarrow> (io_error, unit) result \<times> fs" where
  "remove_dir_all p w =
     (case next_fault w of
        (Some k, w') \<Rightarrow> (Err PermissionDenied, w'\<lparr>nodes := drop_tree (Suc k) p (nodes w')\<rparr>)
      | (None, w') \<Rightarrow>
          if nodes w' p = None then (Err NotFound, w')
          else (Ok (), w'\<lparr>nodes := drop_tree 0 p (nodes w')\<rparr>))"

definition canonicalize :: "os_env \<Rightarrow> path \<Rightarrow> fs \<Rightarrow> (io_error, path) result \<times> fs" where
  "canonicalize env p =
     guarded PermissionDenied (\<lambda>w.
       (case nodes w p of
          None \<Rightarrow> Err NotFound
        | Some n \<Rightarrow> if is_symlink (nd_kind n) then ok_or NotFound (link_target env p) else Ok p, w))"

text \<open>\<^verbatim>\<open>FileExt::try_lock_exclusive\<close> on the file opened at \<open>p\<close>.\<close>

definition try_lock_exclusive :: "os_env \<Rightarrow> path \<Rightarrow> fs \<Rightarrow> (io_error, unit) result \<times> fs" where
  "try_lock_exclusive env p =
     guarded PermissionDenied (\<lambda>w. (if lock_held env p then Err (IoOther ''would block'') else Ok (), w))"

section \<open>What a call leaves alone\<close>

definition only_at :: "path set \<Rightarrow> fs \<Rightarrow> fs \<Rightarrow> bool" where
  "only_at T w w' \<longleftrightarrow>
     (\<forall>p. p \<notin> T \<longrightarrow> nodes w' p = nodes w p) \<and> euid w' = euid w \<and> (faults w = [] \<longrightarrow> faults w' = [])"

definition tree :: "path \<Rightarrow> path set" where
  "tree p = {q. prefix p q}"

named_theorems only_at_rules

lemma only_at_refl [only_at_rules]: "only_at T w w"
  by (simp add: only_at_def)

lemma only_at_trans: "only_at T u v \<Longrightarrow> only_at T v w \<Longrightarrow> only_at T u w"
  by (simp add: only_at_def)

lemma only_at_mono: "only_at S u v \<Longrightarrow> S \<subseteq> T \<Longrightarrow> only_at T u v"
  by (auto simp: only_at_def)

lemma only_at_nodes: "only_at T u v \<Longrightarrow> p \<notin> T \<Longrightarrow> nodes v p = nodes u p"
  by (simp add: only_at_def)

lemma only_at_bind [only_at_rules]:
  "only_at T w (snd m) \<Longrightarrow> (\<And>x v. only_at T v (snd (f x v))) \<Longrightarrow> only_at T w (snd (bind_io m f))"
  by (cases m; cases "fst m") (auto intro: only_at_trans)

lemma only_at_guarded [only_at_rules]:
  "(\<And>v. only_at T v (snd (f v))) \<Longrightarrow> only_at T w (snd (guarded e f w))"
  by (auto simp: guarded_def only_at_def dest!: next_fault_frame split: prod.splits option.splits)

lemma guarded_Ok: "guarded e f w = (Ok x, w') \<Longrightarrow> \<exists>v. nodes v = nodes w \<and> euid v = euid w \<and> f v = (Ok x, w')"
  by (auto simp: guarded_def dest!: next_fault_frame split: prod.splits option.splits)

lemma only_at_calls [only_at_rules]:
  "only_at T w (snd (symlink_metadata q w))"
  "only_at T w (snd (path_exists q w))"
  "only_at T w (snd (sync_all w))"
  "only_at T w (snd (open_nofollow q w))"
  "only_at T w (snd (canonicalize env q w))"
  "only_at T w (snd (try_lock_exclusive env q w))"
  "q \<in> T \<Longrightarrow> only_at T w (snd (remove_file q w))"
  "q \<in> T \<Longrightarrow> only_at T w (snd (create_new m q w))"
  "q \<in> T \<Longrightarrow> only_at T w (snd (file_write_all bs q w))"
  "q \<in> T \<Longrightarrow> only_at T w (snd (open_or_create m q w))"
  "q \<in> T \<Longrightarrow> only_at T w (snd (set_permissions m q w))"
  "q \<in> T \<Longrightarrow> only_at T w (snd (create_dir env q w))"
  "q \<in> T \<Longrightarrow> r \<in> T \<Longrightarrow> only_at T w (snd (fs_rename q r w))"
  "tree q \<subseteq> T \<Longrightarrow> only_at T w (snd (remove_dir_all q w))"
  "tree q \<subseteq> T \<Longrightarrow> tree r \<subseteq> T \<Longrightarrow> only_at T w (snd (rename_dir q r w))"
  by (auto simp: only_at_def symlink_metadata_def path_exists_def sync_all_def open_nofollow_def
      canonicalize_def try_lock_exclusive_def remove_file_def create_new_def file_write_all_def
      append_file_def open_or_create_def set_permissions_def create_dir_def fs_rename_def
      remove_dir_all_def rename_dir_def drop_tree_def move_tree_def tree_def guarded_def Let_def
      dest!: next_fault_frame split: prod.splits option.splits node_kind.splits if_splits)

lemma create_dirs_only_at:
  "(\<And>n. n \<le> length cs \<Longrightarrow> at @ take n cs \<in> T) \<Longrightarrow> only_at T w (snd (create_dirs env at cs w))"
proof (induction cs arbitrary: at w)
  case Nil
  then show ?case by (simp add: only_at_refl)
next
  case (Cons c cs)
  have at: "(at @ [c]) @ take n cs \<in> T" if "n \<le> length cs" for n
    using Cons.prems [of "Suc n"] that by simp
  then have "at @ [c] \<in> T" using at [of 0] by simp
  with Cons.IH [OF at] show ?case by (auto intro!: only_at_rules)
qed

lemma create_dir_all_only_at:
  "(\<And>q. prefix q p \<Longrightarrow> q \<in> T) \<Longrightarrow> only_at T w (snd (create_dir_all env p w))"
  unfolding create_dir_all_def by (rule create_dirs_only_at) (simp add: take_is_prefix)

end
