(* ===== verification/Installation.thy ===== *)
theory Installation
  imports Frames Ip_Addr Rust_Fs
begin

unbundle bit_operations_syntax

text \<open>
  The verified installation of \<^verbatim>\<open>crates/contracts/src/dispatcher.rs\<close> on Unix: the broker policy, the
  mutation lock, and \<^verbatim>\<open>Installation\<close> with its release directories and the pointer that names the
  current one.  The world is the file system of \<open>Rust_Fs\<close>; serde and the cryptography of the
  manifests are parameters.
\<close>

section \<open>Data\<close>

definition MANIFEST_NAME :: string where "MANIFEST_NAME = ''container-manifest-v1.json''"
definition SIGNATURE_NAME :: string where "SIGNATURE_NAME = ''container-manifest-v1.sig''"
definition POINTER_NAME :: string where "POINTER_NAME = ''container-manifest.json''"
definition ACTIVE_ENGINE_NAME :: string where "ACTIVE_ENGINE_NAME = ''engine-active''"
definition POLICY_NAME :: string where "POLICY_NAME = ''installation-policy.json''"

text \<open>A path that a policy or the kernel names, with whether it is absolute.\<close>

type_synonym any_path = "bool \<times> path"

record broker_policy =
  bp_owner :: string
  bp_executable :: any_path
  bp_sha256 :: string
  bp_manifest_sha256 :: string

record install_api =
  ia_manifest :: manifest_api
  container_from_slice :: "bytes \<Rightarrow> container_manifest_v1 option"
  container_to_value :: "container_manifest_v1 \<Rightarrow> json option"
  policy_to_vec :: "broker_policy \<Rightarrow> bytes option"
  policy_from_slice :: "bytes \<Rightarrow> broker_policy option"

record installation =
  in_root :: path
  in_key :: bytes
  in_platform :: string
  in_architecture :: string
  in_owner :: u32
  in_strict_ancestors :: bool

record verified_layout =
  vl_directory :: path
  vl_identity :: engine_identity
  vl_broker :: broker_policy
  vl_engine :: path

definition digest :: "install_api \<Rightarrow> bytes \<Rightarrow> string" where
  "digest api bs = sha256_hex (ia_manifest api) bs"

text \<open>The key that \<^verbatim>\<open>option_env!\<close> compiled in, with the base64 decoder as a parameter.\<close>

definition pinned_key :: "(string \<Rightarrow> bytes option) \<Rightarrow> string option \<Rightarrow> (io_error, bytes) result" where
  "pinned_key decode compiled =
     and_then (ok_or blocked compiled) (\<lambda>text64.
     and_then (ok_or blocked (decode text64)) (\<lambda>key.
       if length key = 32 then Ok key else Err blocked))"

fun slot_name :: "runtime_slot \<Rightarrow> string" where
  "slot_name Latest = ''latest''"
| "slot_name Stable = ''stable''"

definition for_owner :: "path \<Rightarrow> bytes \<Rightarrow> string \<Rightarrow> string \<Rightarrow> u32 \<Rightarrow> installation" where
  "for_owner root key platform architecture owner =
     \<lparr>in_root = root, in_key = key, in_platform = platform, in_architecture = architecture,
      in_owner = owner, in_strict_ancestors = False\<rparr>"

definition production ::
  "(string \<Rightarrow> bytes option) \<Rightarrow> string option \<Rightarrow> string \<Rightarrow> string \<Rightarrow> path \<Rightarrow> (io_error, installation) result" where
  "production decode compiled os arch root =
     and_then (pinned_key decode compiled) (\<lambda>key.
       Ok ((for_owner root key os arch 0)\<lparr>in_strict_ancestors := True\<rparr>))"

definition engine_name :: "installation \<Rightarrow> string" where
  "engine_name inst =
     (if in_platform inst = ''windows'' then ''nelomai-windows-service.exe'' else ''nelomai-unix-service'')"

definition dispatcher_path :: "verified_layout \<Rightarrow> path" where
  "dispatcher_path l = vl_directory l @ [''dispatcher'', ''1'', last (vl_engine l)]"

definition layout_authorize :: "verified_layout \<Rightarrow> engine_identity \<Rightarrow> (io_error, unit) result" where
  "layout_authorize l identity = (if identity \<noteq> vl_identity l then Err blocked else Ok ())"

section \<open>Reading files\<close>

definition open_regular :: "path \<Rightarrow> fs \<Rightarrow> (io_error, bytes) result \<times> fs" where
  "open_regular p w =
     bind_io (open_nofollow p w) (\<lambda>n w.
       (case nd_kind n of RegularFile bs \<Rightarrow> Ok bs | _ \<Rightarrow> Err blocked, w))"

text \<open>Reading the opened file to its end, which may fail on the way.\<close>

definition read_to_end :: "bytes \<Rightarrow> fs \<Rightarrow> (io_error, bytes) result \<times> fs" where
  "read_to_end bs = guarded (IoOther ''read'') (\<lambda>w. (Ok bs, w))"

definition read_bounded :: "path \<Rightarrow> nat \<Rightarrow> fs \<Rightarrow> (io_error, bytes) result \<times> fs" where
  "read_bounded p limit w =
     bind_io (open_regular p w) (\<lambda>bs w.
     bind_io (read_to_end (take (limit + 1) bs) w) (\<lambda>data w.
       (if length data > limit then Err blocked else Ok data, w)))"

definition file_digest :: "install_api \<Rightarrow> path \<Rightarrow> fs \<Rightarrow> (io_error, string) result \<times> fs" where
  "file_digest api p w =
     bind_io (open_regular p w) (\<lambda>bs w.
     bind_io (read_to_end bs w) (\<lambda>data w. (Ok (digest api data), w)))"

definition reject_link :: "path \<Rightarrow> fs \<Rightarrow> (io_error, node) result \<times> fs" where
  "reject_link p w =
     bind_io (symlink_metadata p w) (\<lambda>n w.
       (if is_symlink (nd_kind n) then Err blocked else Ok n, w))"

definition writable_by_others :: "u32 \<Rightarrow> bool" where
  "writable_by_others mode \<longleftrightarrow> mode AND 0x12 \<noteq> 0"

definition trusted :: "path \<Rightarrow> u32 \<Rightarrow> fs \<Rightarrow> (io_error, unit) result \<times> fs" where
  "trusted p owner w =
     bind_io (reject_link p w) (\<lambda>n w.
       (if nd_uid n \<noteq> owner \<or> writable_by_others (nd_mode n) then Err blocked else Ok (), w))"

definition protect :: "path \<Rightarrow> bool \<Rightarrow> fs \<Rightarrow> (io_error, unit) result \<times> fs" where
  "protect p executable w = set_permissions (if executable then 0x1ED else 0x180) p w"

definition sync_directory :: "path \<Rightarrow> fs \<Rightarrow> (io_error, unit) result \<times> fs" where
  "sync_directory p w = bind_io (open_nofollow p w) (\<lambda>_ w. sync_all w)"

text \<open>No path of the kernel has more than \<^verbatim>\<open>PATH_MAX\<close> bytes, so no directory lies deeper.\<close>

definition PATH_MAX :: nat where "PATH_MAX = 4096"

function sync_directories :: "os_env \<Rightarrow> path \<Rightarrow> fs \<Rightarrow> (io_error, unit) result \<times> fs"
  and sync_entries :: "os_env \<Rightarrow> path \<Rightarrow> string list \<Rightarrow> fs \<Rightarrow> (io_error, unit) result \<times> fs" where
  "sync_directories env p w =
     (if length p \<ge> PATH_MAX then (Err InvalidInput, w)
      else
        bind_io (open_nofollow p w) (\<lambda>_ w.
        bind_io (sync_entries env p (dir_entries env p w) w) (\<lambda>_ w.
          sync_directory p w)))"
| "sync_entries env p [] w = (Ok (), w)"
| "sync_entries env p (name # names) w =
     (if length p \<ge> PATH_MAX then (Err InvalidInput, w)
      else
        bind_io (symlink_metadata (p @ [name]) w) (\<lambda>n w.
        bind_io (if is_dir (nd_kind n) then sync_directories env (p @ [name]) w else (Ok (), w)) (\<lambda>_ w.
          sync_entries env p names w)))"
  by pat_completeness auto
termination
  by (relation "measures [\<lambda>x. case x of Inl (env, p, w) \<Rightarrow> Suc (2 * (PATH_MAX - length p))
                                | Inr (env, p, names, w) \<Rightarrow> 2 * (PATH_MAX - length p),
                         \<lambda>x. case x of Inl _ \<Rightarrow> 0 | Inr (env, p, names, w) \<Rightarrow> length names]")
     auto

text \<open>\<^verbatim>\<open>write_new\<close> and \<^verbatim>\<open>atomic_replace\<close>.\<close>

definition write_new :: "os_env \<Rightarrow> path \<Rightarrow> bytes \<Rightarrow> fs \<Rightarrow> (io_error, unit) result \<times> fs" where
  "write_new env p bs w =
     bind_io (create_new (new_file_mode env) p w) (\<lambda>_ w.
     bind_io (protect p False w) (\<lambda>_ w.
     bind_io (file_write_all bs p w) (\<lambda>_ w. sync_all w)))"

definition atomic_replace :: "path \<Rightarrow> path \<Rightarrow> fs \<Rightarrow> (io_error, unit) result \<times> fs" where
  "atomic_replace source destination w =
     bind_io (fs_rename source destination w) (\<lambda>_ w.
       if destination = [] then (Err blocked, w) else sync_directory (butlast destination) w)"

record install_io =
  io_copy :: "path \<Rightarrow> path \<Rightarrow> fs \<Rightarrow> (io_error, unit) result \<times> fs"
  io_publish :: "path \<Rightarrow> path \<Rightarrow> fs \<Rightarrow> (io_error, unit) result \<times> fs"

definition real_copy :: "os_env \<Rightarrow> path \<Rightarrow> path \<Rightarrow> fs \<Rightarrow> (io_error, unit) result \<times> fs" where
  "real_copy env source destination w =
     bind_io (open_regular source w) (\<lambda>bs w.
     bind_io (create_new (new_file_mode env) destination w) (\<lambda>_ w.
     bind_io (file_write_all bs destination w) (\<lambda>_ w. sync_all w)))"

definition real_install_io :: "os_env \<Rightarrow> install_io" where
  "real_install_io env = \<lparr>io_copy = real_copy env, io_publish = atomic_replace\<rparr>"

section \<open>The mutation lock and the broker\<close>

text \<open>\<^verbatim>\<open>MutationGuard::at\<close>.  The guard is dropped when its holder returns, so taking it is an effect on the
  lock file and an early return.\<close>

definition guard_at :: "os_env \<Rightarrow> path \<Rightarrow> fs \<Rightarrow> (io_error, unit) result \<times> fs" where
  "guard_at env p w =
     (let (there, w) = path_exists p w in
      bind_io (if there then bind_io (reject_link p w) (\<lambda>_ w. (Ok (), w)) else (Ok (), w)) (\<lambda>_ w.
      bind_io (open_or_create 0x180 p w) (\<lambda>n w.
        if \<not> is_file (nd_kind n) then (Err blocked, w)
        else
          bind_io (set_permissions 0x180 p w) (\<lambda>_ w. try_lock_exclusive env p w))))"

definition guard_acquire :: "os_env \<Rightarrow> path \<Rightarrow> fs \<Rightarrow> (io_error, unit) result \<times> fs" where
  "guard_acquire env root w = guard_at env (root @ [''mutation.lock'']) w"

definition policy_authorize ::
  "install_api \<Rightarrow> broker_policy \<Rightarrow> string \<Rightarrow> any_path \<Rightarrow> fs \<Rightarrow> (io_error, unit) result \<times> fs" where
  "policy_authorize api policy owner kernel_executable w =
     (if owner \<noteq> bp_owner policy \<or> kernel_executable \<noteq> bp_executable policy then (Err blocked, w)
      else
        bind_io (file_digest api (snd kernel_executable) w) (\<lambda>d w.
          (if d \<noteq> bp_sha256 policy then Err blocked else Ok (), w)))"

section \<open>Verification\<close>

definition verified_manifest ::
  "install_api \<Rightarrow> installation \<Rightarrow> path \<Rightarrow> fs \<Rightarrow>
   (io_error, verified_container_manifest \<times> string) result \<times> fs" where
  "verified_manifest api inst directory w =
     bind_io (read_bounded (directory @ [MANIFEST_NAME]) (1024 * 1024) w) (\<lambda>bs w.
     bind_io (read_bounded (directory @ [SIGNATURE_NAME]) 64 w) (\<lambda>sig w.
       (map_err (\<lambda>_. blocked)
          (and_then (verify_container_manifest (ia_manifest api) (container_from_slice api)
             (container_to_value api) bs sig (in_key inst) (in_platform inst) (in_architecture inst))
             (\<lambda>v. Ok (v, digest api bs))), w)))"

definition identity_for ::
  "verified_container_manifest \<Rightarrow> string \<Rightarrow> runtime_slot \<Rightarrow> runtime_artifact_manifest_v1 \<Rightarrow> engine_identity" where
  "identity_for v hash slot selected =
     \<lparr>ei_slot = slot, ei_runtime_version = ra_runtime_version selected,
      ei_runtime_contract_version = ra_contract_version selected,
      ei_container_version = cm_container_version (vc_manifest v), ei_manifest_sha256 = hash\<rparr>"

definition manifest_identity_for ::
  "install_api \<Rightarrow> installation \<Rightarrow> path \<Rightarrow> runtime_slot \<Rightarrow> fs \<Rightarrow> (io_error, engine_identity) result \<times> fs" where
  "manifest_identity_for api inst directory slot w =
     bind_io (verified_manifest api inst directory w) (\<lambda>(v, hash) w.
       (and_then (ok_or blocked (vc_selected v slot)) (\<lambda>selected.
          Ok (identity_for v hash slot selected)), w))"

definition manifest_identity ::
  "install_api \<Rightarrow> installation \<Rightarrow> path \<Rightarrow> fs \<Rightarrow> (io_error, engine_identity) result \<times> fs" where
  "manifest_identity api inst directory w = manifest_identity_for api inst directory Latest w"

text \<open>The files of a release, in the order of its slots.\<close>

definition release_entries :: "container_manifest_v1 \<Rightarrow> (runtime_slot_manifest_v1 \<times> runtime_file_v1) list" where
  "release_entries m = concat (map (\<lambda>s. map (\<lambda>f. (s, f)) (ra_files (rs_manifest s))) (cm_slots m))"

definition entry_path :: "runtime_slot_manifest_v1 \<Rightarrow> runtime_file_v1 \<Rightarrow> path" where
  "entry_path s f =
     [''engines'', slot_name (rs_slot s), ra_runtime_version (rs_manifest s)] @ split_on (CHR ''/'') (rf_path f)"

fun trusted_components :: "u32 \<Rightarrow> path \<Rightarrow> string list \<Rightarrow> fs \<Rightarrow> (io_error, unit) result \<times> fs" where
  "trusted_components owner cursor [] w = (Ok (), w)"
| "trusted_components owner cursor (c # cs) w =
     bind_io (trusted (cursor @ [c]) owner w) (\<lambda>_ w. trusted_components owner (cursor @ [c]) cs w)"

definition verify_entry ::
  "install_api \<Rightarrow> installation \<Rightarrow> path \<Rightarrow> runtime_slot_manifest_v1 \<Rightarrow> runtime_file_v1 \<Rightarrow> fs \<Rightarrow>
   (io_error, unit) result \<times> fs" where
  "verify_entry api inst directory s f w =
     (let cursor = directory @ entry_path s f in
      bind_io (trusted_components (in_owner inst) directory (entry_path s f) w) (\<lambda>_ w.
      bind_io (reject_link cursor w) (\<lambda>n w.
        if \<not> is_file (nd_kind n) \<or> file_len (nd_kind n) \<noteq> unat (rf_size_bytes f) then (Err blocked, w)
        else
          bind_io (file_digest api cursor w) (\<lambda>d w.
            (if d \<noteq> rf_sha256 f then Err blocked else Ok (), w)))))"

fun verify_entries ::
  "install_api \<Rightarrow> installation \<Rightarrow> path \<Rightarrow> runtime_slot \<Rightarrow> path option \<Rightarrow>
   (runtime_slot_manifest_v1 \<times> runtime_file_v1) list \<Rightarrow> fs \<Rightarrow> (io_error, path option) result \<times> fs" where
  "verify_entries api inst directory selected engine [] w = (Ok engine, w)"
| "verify_entries api inst directory selected engine ((s, f) # es) w =
     bind_io (verify_entry api inst directory s f w) (\<lambda>_ w.
       verify_entries api inst directory selected
         (if rs_slot s = selected \<and> rf_path f = engine_name inst \<and> rf_role f = Executable
          then Some (directory @ entry_path s f) else engine) es w)"

definition verify_slot_files ::
  "install_api \<Rightarrow> installation \<Rightarrow> path \<Rightarrow> verified_container_manifest \<Rightarrow> runtime_slot \<Rightarrow> fs \<Rightarrow>
   (io_error, path) result \<times> fs" where
  "verify_slot_files api inst directory v selected w =
     (if vc_selected v selected = None then (Err blocked, w)
      else
        bind_io (verify_entries api inst directory selected None (release_entries (vc_manifest v)) w)
          (\<lambda>engine w. (ok_or blocked engine, w)))"

definition verify_files ::
  "install_api \<Rightarrow> installation \<Rightarrow> path \<Rightarrow> verified_container_manifest \<Rightarrow> fs \<Rightarrow>
   (io_error, path) result \<times> fs" where
  "verify_files api inst directory v w = verify_slot_files api inst directory v Latest w"

section \<open>Loading\<close>

fun trusted_all :: "u32 \<Rightarrow> path list \<Rightarrow> fs \<Rightarrow> (io_error, unit) result \<times> fs" where
  "trusted_all owner [] w = (Ok (), w)"
| "trusted_all owner (p # ps) w = bind_io (trusted p owner w) (\<lambda>_ w. trusted_all owner ps w)"

text \<open>\<^verbatim>\<open>Path::ancestors\<close>: the path itself, then its parents up to the root.\<close>

definition ancestors :: "path \<Rightarrow> path list" where
  "ancestors p = rev (prefixes p)"

definition trusted_ancestors :: "installation \<Rightarrow> path \<Rightarrow> fs \<Rightarrow> (io_error, unit) result \<times> fs" where
  "trusted_ancestors inst p w =
     (if in_strict_ancestors inst then trusted_all 0 (ancestors p) w else (Ok (), w))"

definition releases_dir :: "installation \<Rightarrow> path" where
  "releases_dir inst = in_root inst @ [''releases'']"

definition pointer_path :: "installation \<Rightarrow> path" where
  "pointer_path inst = in_root inst @ [POINTER_NAME]"

definition marker_path :: "installation \<Rightarrow> path" where
  "marker_path inst = in_root inst @ [ACTIVE_ENGINE_NAME]"

text \<open>The pointer is read as UTF-8; a generation name is ASCII, so other bytes are refused in either
  test.\<close>

definition read_pointer :: "installation \<Rightarrow> fs \<Rightarrow> (io_error, string) result \<times> fs" where
  "read_pointer inst w =
     bind_io (read_bounded (pointer_path inst) 96 w) (\<lambda>pointer w.
       (if valid_generation pointer then Ok pointer else Err blocked, w))"

definition check_broker ::
  "install_api \<Rightarrow> installation \<Rightarrow> string \<Rightarrow> broker_policy \<Rightarrow> fs \<Rightarrow> (io_error, unit) result \<times> fs" where
  "check_broker api inst hash broker w =
     (if bp_manifest_sha256 broker \<noteq> hash \<or> \<not> fst (bp_executable broker) then (Err blocked, w)
      else
        bind_io (trusted (snd (bp_executable broker)) (in_owner inst) w) (\<lambda>_ w.
        bind_io (trusted_ancestors inst (snd (bp_executable broker)) w) (\<lambda>_ w.
        bind_io (file_digest api (snd (bp_executable broker)) w) (\<lambda>d w.
          (if d \<noteq> bp_sha256 broker then Err blocked else Ok (), w)))))"

definition load_slot ::
  "install_api \<Rightarrow> installation \<Rightarrow> runtime_slot \<Rightarrow> fs \<Rightarrow> (io_error, verified_layout) result \<times> fs" where
  "load_slot api inst slot w =
     bind_io (trusted_ancestors inst (in_root inst) w) (\<lambda>_ w.
     bind_io (trusted (in_root inst) (in_owner inst) w) (\<lambda>_ w.
     bind_io (trusted (pointer_path inst) (in_owner inst) w) (\<lambda>_ w.
     bind_io (read_pointer inst w) (\<lambda>pointer w.
     let directory = releases_dir inst @ [pointer] in
     bind_io (trusted (releases_dir inst) (in_owner inst) w) (\<lambda>_ w.
     bind_io (trusted directory (in_owner inst) w) (\<lambda>_ w.
     bind_io (trusted_all (in_owner inst)
        (map (\<lambda>name. directory @ [name]) [MANIFEST_NAME, SIGNATURE_NAME, POLICY_NAME]) w) (\<lambda>_ w.
     bind_io (verified_manifest api inst directory w) (\<lambda>(v, hash) w.
     bind_io (verify_slot_files api inst directory v slot w) (\<lambda>engine w.
     bind_io (read_bounded (directory @ [POLICY_NAME]) 8192 w) (\<lambda>bs w.
     case policy_from_slice api bs of
       None \<Rightarrow> (Err blocked, w)
     | Some broker \<Rightarrow>
         bind_io (check_broker api inst hash broker w) (\<lambda>_ w.
           (and_then (ok_or blocked (vc_selected v slot)) (\<lambda>selected.
              Ok \<lparr>vl_directory = directory, vl_identity = identity_for v hash slot selected,
                  vl_broker = broker, vl_engine = engine\<rparr>), w))))))))))))"

definition load :: "install_api \<Rightarrow> installation \<Rightarrow> fs \<Rightarrow> (io_error, verified_layout) result \<times> fs" where
  "load api inst w = load_slot api inst Latest w"

definition load_engine ::
  "install_api \<Rightarrow> os_env \<Rightarrow> installation \<Rightarrow> path \<Rightarrow> fs \<Rightarrow> (io_error, verified_layout) result \<times> fs" where
  "load_engine api env inst kernel_executable w =
     bind_io (load api inst w) (\<lambda>latest w.
     bind_io (canonicalize env (vl_engine latest) w) (\<lambda>p w.
       if kernel_executable = p then (Ok latest, w)
       else
         bind_io (load_slot api inst Stable w) (\<lambda>stable_layout w.
         bind_io (canonicalize env (vl_engine stable_layout) w) (\<lambda>p w.
           (if kernel_executable \<noteq> p then Err blocked else Ok stable_layout, w)))))"

section \<open>Installing\<close>

definition copy_named :: "install_io \<Rightarrow> path \<Rightarrow> path \<Rightarrow> string \<Rightarrow> fs \<Rightarrow> (io_error, unit) result \<times> fs" where
  "copy_named ops source stage name w =
     bind_io (io_copy ops (source @ [name]) (stage @ [name]) w) (\<lambda>_ w. protect (stage @ [name]) False w)"

fun copy_entries ::
  "os_env \<Rightarrow> install_io \<Rightarrow> path \<Rightarrow> path \<Rightarrow> (runtime_slot_manifest_v1 \<times> runtime_file_v1) list \<Rightarrow> fs \<Rightarrow>
   (io_error, unit) result \<times> fs" where
  "copy_entries env ops source stage [] w = (Ok (), w)"
| "copy_entries env ops source stage ((s, f) # es) w =
     (let destination = stage @ entry_path s f in
      bind_io (create_dir_all env (butlast destination) w) (\<lambda>_ w.
      bind_io (io_copy ops (source @ entry_path s f) destination w) (\<lambda>_ w.
      bind_io (protect destination (rf_role f = Executable) w) (\<lambda>_ w.
        copy_entries env ops source stage es w))))"

text \<open>Up to the policy file: what is done inside the staging directory.\<close>

definition copy_dispatcher ::
  "install_api \<Rightarrow> os_env \<Rightarrow> installation \<Rightarrow> install_io \<Rightarrow> path \<Rightarrow> path \<Rightarrow> fs \<Rightarrow> (io_error, unit) result \<times> fs" where
  "copy_dispatcher api env inst ops stage engine w =
     (let dispatcher_dir = stage @ [''dispatcher'', ''1''];
          target = dispatcher_dir @ [engine_name inst] in
      bind_io (create_dir_all env dispatcher_dir w) (\<lambda>_ w.
      bind_io (io_copy ops engine target w) (\<lambda>_ w.
      bind_io (protect target True w) (\<lambda>_ w.
      bind_io (file_digest api target w) (\<lambda>d w.
      bind_io (file_digest api engine w) (\<lambda>d' w.
        (if d \<noteq> d' then Err blocked else Ok (), w)))))))"

definition build_stage ::
  "install_api \<Rightarrow> os_env \<Rightarrow> installation \<Rightarrow> install_io \<Rightarrow> path \<Rightarrow> path \<Rightarrow> string \<Rightarrow>
   container_manifest_v1 \<Rightarrow> string \<Rightarrow> path \<Rightarrow> fs \<Rightarrow> (io_error, unit) result \<times> fs" where
  "build_stage api env inst ops source broker owner m hash stage w =
     bind_io (copy_named ops source stage MANIFEST_NAME w) (\<lambda>_ w.
     bind_io (copy_named ops source stage SIGNATURE_NAME w) (\<lambda>_ w.
     bind_io (copy_entries env ops source stage (release_entries m) w) (\<lambda>_ w.
     bind_io (verified_manifest api inst stage w) (\<lambda>(copied, copied_hash) w.
     if copied_hash \<noteq> hash then (Err blocked, w)
     else
       bind_io (verify_files api inst stage copied w) (\<lambda>engine w.
       bind_io (copy_dispatcher api env inst ops stage engine w) (\<lambda>_ w.
       bind_io (file_digest api broker w) (\<lambda>broker_digest w.
       case policy_to_vec api \<lparr>bp_owner = owner, bp_executable = (True, broker),
              bp_sha256 = broker_digest, bp_manifest_sha256 = hash\<rparr> of
         None \<Rightarrow> (Err blocked, w)
       | Some bs \<Rightarrow> write_new env (stage @ [POLICY_NAME]) bs w)))))))"

text \<open>When publishing or the load after it fails, the previous pointer is put back; an error of
  that is the result.\<close>

definition restore_pointer ::
  "os_env \<Rightarrow> installation \<Rightarrow> string \<Rightarrow> bytes option \<Rightarrow> fs \<Rightarrow> (io_error, unit) result \<times> fs" where
  "restore_pointer env inst generation previous w =
     (case previous of
        Some bs \<Rightarrow>
          (let rollback = in_root inst @ [''.rollback-'' @ generation] in
           bind_io (write_new env rollback bs w) (\<lambda>_ w. atomic_replace rollback (pointer_path inst) w))
      | None \<Rightarrow>
          (let (there, w) = path_exists (pointer_path inst) w in
           if there
           then bind_io (remove_file (pointer_path inst) w) (\<lambda>_ w. sync_directory (in_root inst) w)
           else (Ok (), w)))"

definition publish_release ::
  "install_api \<Rightarrow> os_env \<Rightarrow> installation \<Rightarrow> install_io \<Rightarrow> string \<Rightarrow> path \<Rightarrow> path \<Rightarrow> bytes option \<Rightarrow> fs \<Rightarrow>
   (io_error, verified_layout) result \<times> fs" where
  "publish_release api env inst ops generation stage pointer_temp previous w =
     bind_io (sync_directories env stage w) (\<lambda>_ w.
     bind_io (rename_dir stage (releases_dir inst @ [generation]) w) (\<lambda>_ w.
     bind_io (sync_directory (releases_dir inst) w) (\<lambda>_ w.
     bind_io (write_new env pointer_temp generation w) (\<lambda>_ w.
       case bind_io (io_publish ops pointer_temp (pointer_path inst) w) (\<lambda>_ w. load api inst w) of
         (Ok layout, w) \<Rightarrow> (Ok layout, w)
       | (Err e, w) \<Rightarrow> bind_io (restore_pointer env inst generation previous w) (\<lambda>_ w. (Err e, w))))))"

definition read_previous :: "installation \<Rightarrow> fs \<Rightarrow> (io_error, bytes option) result \<times> fs" where
  "read_previous inst w =
     (case read_bounded (pointer_path inst) 96 w of
        (Ok bs, w) \<Rightarrow> (Ok (Some bs), w)
      | (Err NotFound, w) \<Rightarrow> (Ok None, w)
      | (Err e, w) \<Rightarrow> (Err e, w))"

text \<open>The leftovers of a failed attempt; errors are ignored.\<close>

definition discard_stage :: "path \<Rightarrow> path \<Rightarrow> fs \<Rightarrow> fs" where
  "discard_stage stage pointer_temp w =
     (let (there, w) = path_exists stage w;
          w = (if there then snd (remove_dir_all stage w) else w);
          (there, w) = path_exists pointer_temp w
      in if there then snd (remove_file pointer_temp w) else w)"

text \<open>The checks before anything is read from the source; they give the canonical broker.\<close>

definition preflight ::
  "os_env \<Rightarrow> installation \<Rightarrow> path \<Rightarrow> string \<Rightarrow> fs \<Rightarrow> (io_error, path) result \<times> fs" where
  "preflight env inst broker owner w =
     (let (there, w) = path_exists (in_root inst) w in
      bind_io (if there then trusted (in_root inst) (in_owner inst) w else (Ok (), w)) (\<lambda>_ w.
      bind_io (if in_root inst = [] then (Ok (), w) else trusted_ancestors inst (butlast (in_root inst)) w) (\<lambda>_ w.
      bind_io (create_dir_all env (in_root inst) w) (\<lambda>_ w.
      bind_io (protect (in_root inst) True w) (\<lambda>_ w.
      bind_io (trusted (in_root inst) (in_owner inst) w) (\<lambda>_ w.
      bind_io (guard_acquire env (in_root inst) w) (\<lambda>_ w.
      let (active, w) = path_exists (marker_path inst) w in
      if active then (Err blocked, w)
      else
        bind_io (canonicalize env broker w) (\<lambda>broker w.
        bind_io (trusted broker (in_owner inst) w) (\<lambda>_ w.
        bind_io (trusted_ancestors inst (in_root inst) w) (\<lambda>_ w.
        bind_io (trusted_ancestors inst broker w) (\<lambda>_ w.
          (if owner = [] \<or> length owner > 256 then Err blocked else Ok broker, w))))))))))))"

text \<open>And the source: nothing is copied from one whose files do not match its signed manifest.\<close>

definition install_checks ::
  "install_api \<Rightarrow> os_env \<Rightarrow> installation \<Rightarrow> path \<Rightarrow> path \<Rightarrow> string \<Rightarrow> fs \<Rightarrow>
   (io_error, path \<times> container_manifest_v1 \<times> string) result \<times> fs" where
  "install_checks api env inst source broker owner w =
     bind_io (preflight env inst broker owner w) (\<lambda>broker w.
     bind_io (verified_manifest api inst source w) (\<lambda>(v, hash) w.
     bind_io (verify_files api inst source v w) (\<lambda>_ w.
       (Ok (broker, vc_manifest v, hash), w))))"

text \<open>The staging directory is private until the release is complete.\<close>

definition prepare_stage :: "os_env \<Rightarrow> installation \<Rightarrow> path \<Rightarrow> fs \<Rightarrow> (io_error, unit) result \<times> fs" where
  "prepare_stage env inst stage w =
     bind_io (create_dir_all env (releases_dir inst) w) (\<lambda>_ w.
     bind_io (protect (releases_dir inst) True w) (\<lambda>_ w.
     bind_io (create_dir env stage w) (\<lambda>_ w.
     bind_io (protect stage False w) (\<lambda>_ w. set_permissions 0x1C0 stage w))))"

definition stage_path :: "installation \<Rightarrow> string \<Rightarrow> path" where
  "stage_path inst generation = releases_dir inst @ [''.stage-'' @ generation]"

definition stage_and_publish ::
  "install_api \<Rightarrow> os_env \<Rightarrow> installation \<Rightarrow> install_io \<Rightarrow> path \<Rightarrow> path \<Rightarrow> string \<Rightarrow>
   container_manifest_v1 \<Rightarrow> string \<Rightarrow> string \<Rightarrow> bytes option \<Rightarrow> fs \<Rightarrow> (io_error, verified_layout) result \<times> fs" where
  "stage_and_publish api env inst ops source broker owner m hash generation previous w =
     (let stage = stage_path inst generation;
          pointer_temp = in_root inst @ [''.pointer-'' @ generation];
          (result, w) =
            bind_io (build_stage api env inst ops source broker owner m hash stage w) (\<lambda>_ w.
              publish_release api env inst ops generation stage pointer_temp previous w)
      in (result, discard_stage stage pointer_temp w))"

text \<open>\<open>now\<close> is the time since the epoch in nanoseconds, if the clock is past it.\<close>

definition install ::
  "install_api \<Rightarrow> os_env \<Rightarrow> installation \<Rightarrow> install_io \<Rightarrow> nat option \<Rightarrow> path \<Rightarrow> path \<Rightarrow> string \<Rightarrow> fs \<Rightarrow>
   (io_error, verified_layout) result \<times> fs" where
  "install api env inst ops now source broker owner w =
     bind_io (install_checks api env inst source broker owner w) (\<lambda>(broker, m, hash) w.
     bind_io (ok_or blocked now, w) (\<lambda>nanos w.
     let generation = hash @ ''-'' @ show_hex nanos in
     bind_io (prepare_stage env inst (stage_path inst generation) w) (\<lambda>_ w.
     bind_io (read_previous inst w) (\<lambda>previous w.
       stage_and_publish api env inst ops source broker owner m hash generation previous w))))"

section \<open>Collecting and rolling back\<close>

definition collectable ::
  "install_api \<Rightarrow> os_env \<Rightarrow> installation \<Rightarrow> path \<Rightarrow> string \<Rightarrow> string \<Rightarrow> fs \<Rightarrow> (io_error, bool) result \<times> fs" where
  "collectable api env inst dispatcher current name w =
     (let p = releases_dir inst @ [name] in
      if \<not> valid_generation name \<or> name = current then (Ok False, w)
      else
        (case trusted p (in_owner inst) w of
           (Err _, w) \<Rightarrow> (Ok False, w)
         | (Ok _, w) \<Rightarrow>
             bind_io (symlink_metadata p w) (\<lambda>n w.
             if \<not> is_dir (nd_kind n) then (Ok False, w)
             else
               bind_io (canonicalize env p w) (\<lambda>canonical w.
               if prefix canonical dispatcher then (Ok False, w)
               else
                 (case verified_manifest api inst p w of
                    (Err _, w) \<Rightarrow> (Ok False, w)
                  | (Ok (v, _), w) \<Rightarrow>
                      (case verify_files api inst p v w of
                         (Err _, w) \<Rightarrow> (Ok False, w)
                       | (Ok _, w) \<Rightarrow> (Ok True, w)))))))"

fun collect_releases ::
  "install_api \<Rightarrow> os_env \<Rightarrow> installation \<Rightarrow> path \<Rightarrow> string \<Rightarrow> string list \<Rightarrow> fs \<Rightarrow> (io_error, unit) result \<times> fs" where
  "collect_releases api env inst dispatcher current [] w = (Ok (), w)"
| "collect_releases api env inst dispatcher current (name # names) w =
     bind_io (guarded PermissionDenied (\<lambda>w. (Ok (), w)) w) (\<lambda>_ w.
     bind_io (collectable api env inst dispatcher current name w) (\<lambda>remove w.
     bind_io (if remove then remove_dir_all (releases_dir inst @ [name]) w else (Ok (), w)) (\<lambda>_ w.
       collect_releases api env inst dispatcher current names w)))"

text \<open>\<open>own\<close> is the path of the running executable.\<close>

definition cleanup_previous ::
  "install_api \<Rightarrow> os_env \<Rightarrow> installation \<Rightarrow> path \<Rightarrow> fs \<Rightarrow> (io_error, unit) result \<times> fs" where
  "cleanup_previous api env inst own w =
     (let (active, w) = path_exists (marker_path inst) w in
      if active then (Err blocked, w)
      else
        bind_io (guard_at env (in_root inst @ [''engine-owner.lock'']) w) (\<lambda>_ w.
        bind_io (read_pointer inst w) (\<lambda>current w.
        bind_io (canonicalize env own w) (\<lambda>dispatcher w.
        bind_io (trusted (releases_dir inst) (in_owner inst) w) (\<lambda>_ w.
        bind_io (open_nofollow (releases_dir inst) w) (\<lambda>_ w.
        bind_io (collect_releases api env inst dispatcher current
                   (take 64 (dir_entries env (releases_dir inst) w)) w) (\<lambda>_ w.
          sync_directory (releases_dir inst) w)))))))"

definition rollback_to ::
  "install_api \<Rightarrow> os_env \<Rightarrow> installation \<Rightarrow> string \<Rightarrow> string \<Rightarrow> fs \<Rightarrow> (io_error, unit) result \<times> fs" where
  "rollback_to api env inst published g w =
     (if \<not> valid_generation g then (Err blocked, w)
      else
        (let directory = releases_dir inst @ [g];
             temporary = in_root inst @ [''.activation-rollback-'' @ published] in
         bind_io (trusted directory (in_owner inst) w) (\<lambda>_ w.
         bind_io (verified_manifest api inst directory w) (\<lambda>(v, _) w.
         bind_io (verify_files api inst directory v w) (\<lambda>_ w.
         bind_io (write_new env temporary g w) (\<lambda>_ w.
           atomic_replace temporary (pointer_path inst) w))))))"

definition rollback_activation ::
  "install_api \<Rightarrow> os_env \<Rightarrow> installation \<Rightarrow> string \<Rightarrow> string option \<Rightarrow> fs \<Rightarrow> (io_error, unit) result \<times> fs" where
  "rollback_activation api env inst published previous w =
     bind_io (guard_acquire env (in_root inst) w) (\<lambda>_ w.
     let (active, w) = path_exists (marker_path inst) w in
     if active \<or> \<not> valid_generation published then (Err blocked, w)
     else
       bind_io (read_bounded (pointer_path inst) 96 w) (\<lambda>pointer w.
       if pointer \<noteq> published then (Err blocked, w)
       else
         (case previous of
            Some g \<Rightarrow> rollback_to api env inst published g w
          | None \<Rightarrow> bind_io (remove_file (pointer_path inst) w) (\<lambda>_ w. sync_directory (in_root inst) w))))"

section \<open>What the readers leave alone and find\<close>

lemma only_at_empty: "only_at {} w w' \<Longrightarrow> nodes w' = nodes w \<and> euid w' = euid w"
  by (auto simp: only_at_def)

lemma readers_only_at [only_at_rules]:
  "only_at T w (snd (open_regular p w))"
  "only_at T w (snd (read_to_end bs w))"
  "only_at T w (snd (read_bounded p limit w))"
  "only_at T w (snd (file_digest api p w))"
  "only_at T w (snd (reject_link p w))"
  "only_at T w (snd (trusted p owner w))"
  "only_at T w (snd (sync_directory p w))"
  by (auto simp: open_regular_def read_to_end_def read_bounded_def file_digest_def reject_link_def
      trusted_def sync_directory_def intro!: only_at_rules)

lemma sync_directories_only_at [only_at_rules]:
  "only_at T w (snd (sync_directories env p w))"
  "only_at T w (snd (sync_entries env p names w))"
proof (induction env p w and env p names w rule: sync_directories_sync_entries.induct)
  case (1 env p w)
  then show ?case by (subst sync_directories.simps) (auto intro!: only_at_rules)
next
  case (2 env p w)
  then show ?case by (simp add: only_at_refl)
next
  case (3 env p name names w)
  then show ?case by (subst sync_entries.simps) (auto intro!: only_at_rules)
qed

lemma trusted_all_only_at [only_at_rules]: "only_at T w (snd (trusted_all owner ps w))"
  by (induction ps arbitrary: w) (auto intro!: only_at_rules)

lemma trusted_components_only_at [only_at_rules]:
  "only_at T w (snd (trusted_components owner cursor cs w))"
  by (induction cs arbitrary: cursor w) (auto intro!: only_at_rules)

lemma verify_entry_only_at [only_at_rules]: "only_at T w (snd (verify_entry api inst directory s f w))"
  by (auto simp: verify_entry_def Let_def intro!: only_at_rules)

lemma verify_entries_only_at [only_at_rules]:
  "only_at T w (snd (verify_entries api inst directory selected engine es w))"
proof (induction es arbitrary: engine w)
  case (Cons e es)
  then show ?case by (cases e) (auto intro!: only_at_rules)
qed (simp add: only_at_refl)

lemma verifiers_only_at [only_at_rules]:
  "only_at T w (snd (verified_manifest api inst directory w))"
  "only_at T w (snd (verify_slot_files api inst directory v selected w))"
  "only_at T w (snd (verify_files api inst directory v w))"
  "only_at T w (snd (trusted_ancestors inst p w))"
  "only_at T w (snd (read_pointer inst w))"
  "only_at T w (snd (check_broker api inst hash broker w))"
  by (auto simp: verified_manifest_def verify_slot_files_def verify_files_def trusted_ancestors_def
      read_pointer_def check_broker_def intro!: only_at_rules)

lemma load_slot_only_at [only_at_rules]: "only_at T w (snd (load_slot api inst slot w))"
  by (auto simp: load_slot_def Let_def intro!: only_at_rules split: prod.splits option.splits)

lemma read_previous_only_at [only_at_rules]: "only_at T w (snd (read_previous inst w))"
  using readers_only_at(3) [of T w "pointer_path inst" 96]
  by (auto simp: read_previous_def split: prod.splits sum.splits io_error.splits)

definition regular :: "(path \<Rightarrow> node option) \<Rightarrow> path \<Rightarrow> bytes \<Rightarrow> bool" where
  "regular f p bs \<longleftrightarrow> (\<exists>n. f p = Some n \<and> nd_kind n = RegularFile bs)"

definition trusted_node :: "u32 \<Rightarrow> (path \<Rightarrow> node option) \<Rightarrow> path \<Rightarrow> bool" where
  "trusted_node owner f p \<longleftrightarrow>
     (\<exists>n. f p = Some n \<and> \<not> is_symlink (nd_kind n) \<and> nd_uid n = owner \<and> \<not> writable_by_others (nd_mode n))"

lemma regular_unique: "regular f p bs \<Longrightarrow> regular f p bs' \<Longrightarrow> bs = bs'"
  by (auto simp: regular_def)

lemma only_at_Ok: "m w = (r, w') \<Longrightarrow> only_at {} w (snd (m w)) \<Longrightarrow> nodes w' = nodes w"
  using only_at_empty by fastforce

lemma open_nofollow_Ok: "open_nofollow p w = (Ok n, w') \<Longrightarrow> nodes w p = Some n \<and> nodes w' = nodes w"
  by (auto simp: open_nofollow_def dest!: guarded_Ok split: option.splits node_kind.splits)

lemma open_regular_Ok:
  assumes "open_regular p w = (Ok bs, w')"
  shows "regular (nodes w) p bs \<and> nodes w' = nodes w"
proof -
  from assms obtain n where n: "open_nofollow p w = (Ok n, w')" "nd_kind n = RegularFile bs"
    by (cases "nd_kind (projr (fst (open_nofollow p w)))") (auto simp: open_regular_def bind_io_eq_Ok_iff)
  with open_nofollow_Ok show ?thesis by (fastforce simp: regular_def)
qed

lemma read_to_end_Ok: "read_to_end bs w = (Ok data, w') \<Longrightarrow> data = bs \<and> nodes w' = nodes w"
  by (auto simp: read_to_end_def dest!: guarded_Ok)

lemma read_bounded_Ok:
  assumes "read_bounded p limit w = (Ok bs, w')"
  shows "regular (nodes w) p bs \<and> length bs \<le> limit \<and> nodes w' = nodes w"
proof -
  from assms obtain all v where "open_regular p w = (Ok all, v)"
    and "read_to_end (take (limit + 1) all) v = (Ok bs, w')" and "length bs \<le> limit"
    by (auto simp: read_bounded_def bind_io_eq_Ok_iff split: if_splits)
  then show ?thesis using open_regular_Ok read_to_end_Ok by fastforce
qed

lemma file_digest_Ok:
  assumes "file_digest api p w = (Ok d, w')"
  shows "(\<exists>bs. regular (nodes w) p bs \<and> d = digest api bs) \<and> nodes w' = nodes w"
proof -
  from assms obtain bs v where "open_regular p w = (Ok bs, v)" and "\<exists>x. read_to_end bs v = (Ok x, w') \<and> d = digest api x"
    by (auto simp: file_digest_def bind_io_eq_Ok_iff)
  then show ?thesis using open_regular_Ok read_to_end_Ok by fastforce
qed

lemma reject_link_Ok:
  "reject_link p w = (Ok n, w') \<Longrightarrow> nodes w p = Some n \<and> \<not> is_symlink (nd_kind n) \<and> nodes w' = nodes w"
  by (auto simp: reject_link_def symlink_metadata_def bind_io_eq_Ok_iff dest!: next_fault_frame
      split: prod.splits option.splits if_splits)

lemma trusted_Ok: "trusted p owner w = (Ok u, w') \<Longrightarrow> trusted_node owner (nodes w) p \<and> nodes w' = nodes w"
  by (auto simp: trusted_def trusted_node_def bind_io_eq_Ok_iff dest!: reject_link_Ok split: if_splits)

lemma trusted_components_Ok:
  "trusted_components owner cursor cs w = (Ok u, w') \<Longrightarrow>
   (\<forall>n < length cs. trusted_node owner (nodes w) (cursor @ take (Suc n) cs)) \<and> nodes w' = nodes w"
proof (induction cs arbitrary: cursor w)
  case Nil
  then show ?case by simp
next
  case (Cons c cs)
  then obtain x v where t: "trusted (cursor @ [c]) owner w = (Ok x, v)"
    and rest: "trusted_components owner (cursor @ [c]) cs v = (Ok u, w')"
    by (auto simp: bind_io_eq_Ok_iff)
  note here = trusted_Ok [OF t] and there = Cons.IH [OF rest]
  have "trusted_node owner (nodes w) (cursor @ take (Suc n) (c # cs))" if "n < length (c # cs)" for n
    using that here there by (cases n) auto
  with here there show ?case by auto
qed

section \<open>Complete releases\<close>

definition entry_ok ::
  "install_api \<Rightarrow> installation \<Rightarrow> (path \<Rightarrow> node option) \<Rightarrow> path \<Rightarrow> runtime_slot_manifest_v1 \<Rightarrow> runtime_file_v1 \<Rightarrow> bool" where
  "entry_ok api inst f directory s e \<longleftrightarrow>
     (\<forall>n < length (entry_path s e). trusted_node (in_owner inst) f (directory @ take (Suc n) (entry_path s e)))
     \<and> (\<exists>bs. regular f (directory @ entry_path s e) bs \<and> length bs = unat (rf_size_bytes e)
           \<and> digest api bs = rf_sha256 e)"

text \<open>A release is complete: its manifest is signed, and every file it lists is there with its size
  and digest, behind directories that only the owner can change.\<close>

definition release_ok :: "install_api \<Rightarrow> installation \<Rightarrow> (path \<Rightarrow> node option) \<Rightarrow> path \<Rightarrow> bool" where
  "release_ok api inst f directory \<longleftrightarrow>
     (\<exists>n. f directory = Some n)
     \<and> (\<exists>bs sig v. regular f (directory @ [MANIFEST_NAME]) bs \<and> regular f (directory @ [SIGNATURE_NAME]) sig
          \<and> verify_container_manifest (ia_manifest api) (container_from_slice api) (container_to_value api)
              bs sig (in_key inst) (in_platform inst) (in_architecture inst) = Ok v
          \<and> list_all (\<lambda>(s, e). entry_ok api inst f directory s e) (release_entries (vc_manifest v)))"

lemma verify_entry_Ok:
  assumes "verify_entry api inst directory s e w = (Ok u, w')"
  shows "entry_ok api inst (nodes w) directory s e \<and> nodes w' = nodes w"
proof -
  let ?c = "directory @ entry_path s e"
  from assms obtain x v n v2 d where
    t: "trusted_components (in_owner inst) directory (entry_path s e) w = (Ok x, v)"
    and r: "reject_link ?c v = (Ok n, v2)"
    and n: "is_file (nd_kind n)" "file_len (nd_kind n) = unat (rf_size_bytes e)"
    and d: "file_digest api ?c v2 = (Ok d, w')" "d = rf_sha256 e"
    by (auto simp: verify_entry_def Let_def bind_io_eq_Ok_iff split: if_splits)
  note t = trusted_components_Ok [OF t] and r = reject_link_Ok [OF r] and d = file_digest_Ok [OF d(1)] d(2)
  from d r obtain bs where "regular (nodes w) ?c bs" "digest api bs = rf_sha256 e" using t by auto
  moreover have "length bs = unat (rf_size_bytes e)"
    using calculation(1) n r t by (auto simp: regular_def)
  ultimately show ?thesis using t r d by (auto simp: entry_ok_def)
qed

lemma verify_entries_Ok:
  "verify_entries api inst directory selected engine es w = (Ok found, w') \<Longrightarrow>
   list_all (\<lambda>(s, e). entry_ok api inst (nodes w) directory s e) es \<and> nodes w' = nodes w
   \<and> (\<forall>p. found = Some p \<longrightarrow> engine = Some p
        \<or> (\<exists>(s, e) \<in> set es. p = directory @ entry_path s e \<and> rs_slot s = selected
             \<and> rf_path e = engine_name inst \<and> rf_role e = Executable))"
proof (induction es arbitrary: engine w)
  case Nil
  then show ?case by simp
next
  case (Cons se es)
  obtain s e where se: "se = (s, e)" by fastforce
  let ?engine = "if rs_slot s = selected \<and> rf_path e = engine_name inst \<and> rf_role e = Executable
    then Some (directory @ entry_path s e) else engine"
  from Cons.prems se obtain x v where one: "verify_entry api inst directory s e w = (Ok x, v)"
    and rest: "verify_entries api inst directory selected ?engine es v = (Ok found, w')"
    by (auto simp: bind_io_eq_Ok_iff)
  from verify_entry_Ok [OF one] Cons.IH [OF rest] se show ?case by (auto split: if_splits)
qed

lemma verified_manifest_Ok:
  assumes "verified_manifest api inst directory w = (Ok (v, hash), w')"
  shows "nodes w' = nodes w \<and> (\<exists>bs sig. regular (nodes w) (directory @ [MANIFEST_NAME]) bs
     \<and> length bs \<le> 1024 * 1024 \<and> regular (nodes w) (directory @ [SIGNATURE_NAME]) sig \<and> length sig \<le> 64
     \<and> hash = digest api bs
     \<and> verify_container_manifest (ia_manifest api) (container_from_slice api) (container_to_value api)
         bs sig (in_key inst) (in_platform inst) (in_architecture inst) = Ok v)"
proof -
  from assms obtain bs w1 sig w2 where
    b: "read_bounded (directory @ [MANIFEST_NAME]) (1024 * 1024) w = (Ok bs, w1)"
    and s: "read_bounded (directory @ [SIGNATURE_NAME]) 64 w1 = (Ok sig, w2)"
    and v: "verify_container_manifest (ia_manifest api) (container_from_slice api) (container_to_value api)
         bs sig (in_key inst) (in_platform inst) (in_architecture inst) = Ok v" "hash = digest api bs" "w' = w2"
    by (auto simp: verified_manifest_def bind_io_eq_Ok_iff map_err_eq_Inr_iff and_then_eq_Inr_iff)
  with read_bounded_Ok [OF b] read_bounded_Ok [OF s] show ?thesis by auto
qed

lemma verify_slot_files_Ok:
  assumes "verify_slot_files api inst directory v selected w = (Ok engine, w')"
  shows "list_all (\<lambda>(s, e). entry_ok api inst (nodes w) directory s e) (release_entries (vc_manifest v))
    \<and> nodes w' = nodes w \<and> vc_selected v selected \<noteq> None
    \<and> (\<exists>(s, e) \<in> set (release_entries (vc_manifest v)). engine = directory @ entry_path s e
         \<and> rs_slot s = selected \<and> rf_path e = engine_name inst \<and> rf_role e = Executable)"
proof -
  from assms obtain found where
    "verify_entries api inst directory selected None (release_entries (vc_manifest v)) w = (Ok found, w')"
    and "found = Some engine" "vc_selected v selected \<noteq> None"
    by (auto simp: verify_slot_files_def bind_io_eq_Ok_iff ok_or_eq_Inr_iff split: if_splits)
  from verify_entries_Ok [OF this(1)] this(2,3) show ?thesis by auto
qed

lemma release_okI:
  assumes "verified_manifest api inst directory w = (Ok (v, hash), w1)"
    and "verify_slot_files api inst directory v selected w1 = (Ok engine, w2)"
    and "nodes w directory \<noteq> None"
  shows "release_ok api inst (nodes w) directory \<and> nodes w2 = nodes w"
  using verified_manifest_Ok [OF assms(1)] verify_slot_files_Ok [OF assms(2)] assms(3)
  unfolding release_ok_def by auto

section \<open>Releases that stay complete\<close>

text \<open>What exists outside \<open>T\<close> stays as it is; something may be created.\<close>

definition kept :: "path set \<Rightarrow> fs \<Rightarrow> fs \<Rightarrow> bool" where
  "kept T w w' \<longleftrightarrow> (\<forall>q n. q \<notin> T \<longrightarrow> nodes w q = Some n \<longrightarrow> nodes w' q = Some n)"

named_theorems kept_rules

lemma kept_only_at [kept_rules]: "only_at T w w' \<Longrightarrow> kept T w w'"
  by (simp add: kept_def only_at_def)

lemma kept_trans: "kept T u v \<Longrightarrow> kept T v w \<Longrightarrow> kept T u w"
  by (simp add: kept_def)

lemma kept_bind [kept_rules]:
  "kept T w (snd m) \<Longrightarrow> (\<And>x v. kept T v (snd (f x v))) \<Longrightarrow> kept T w (snd (bind_io m f))"
  by (cases m; cases "fst m") (auto intro: kept_trans)

lemma create_dir_kept: "kept T w (snd (create_dir env p w))"
  by (auto simp: kept_def create_dir_def guarded_def dest!: next_fault_frame
      split: prod.splits option.splits if_splits)

lemma create_dir_all_kept: "kept T w (snd (create_dir_all env p w))"
proof -
  have "kept T w (snd (create_dirs env at cs w))" for at cs
  proof (induction cs arbitrary: at w)
    case Nil
    then show ?case by (simp add: kept_def)
  next
    case (Cons c cs)
    then show ?case by (auto intro!: kept_bind create_dir_kept)
  qed
  then show ?thesis by (simp add: create_dir_all_def)
qed

lemma release_ok_kept:
  assumes "release_ok api inst f d"
    and same: "\<And>rel n. rel = [] \<or> hd rel \<in> {MANIFEST_NAME, SIGNATURE_NAME, ''engines''} \<Longrightarrow>
      f (d @ rel) = Some n \<Longrightarrow> g (d' @ rel) = Some n"
  shows "release_ok api inst g d'"
proof -
  have reg: "regular g (d' @ rel) bs" if "regular f (d @ rel) bs"
      "hd rel \<in> {MANIFEST_NAME, SIGNATURE_NAME, ''engines''}" for rel bs
    using that same [of rel] by (auto simp: regular_def)
  have tr: "trusted_node owner g (d' @ rel)" if "trusted_node owner f (d @ rel)"
      "hd rel \<in> {MANIFEST_NAME, SIGNATURE_NAME, ''engines''}" for rel owner
    using that same [of rel] by (auto simp: trusted_node_def)
  have hd: "hd (entry_path s e) = ''engines''" "hd (take (Suc n) (entry_path s e)) = ''engines''" for s e n
    by (simp_all add: entry_path_def)
  have entry: "entry_ok api inst g d' s e" if ok: "entry_ok api inst f d s e" for s e
    unfolding entry_ok_def
  proof (intro conjI allI impI)
    fix n assume "n < length (entry_path s e)"
    with ok show "trusted_node (in_owner inst) g (d' @ take (Suc n) (entry_path s e))"
      using tr hd(2) by (simp add: entry_ok_def)
  next
    from ok obtain bs where "regular f (d @ entry_path s e) bs" "length bs = unat (rf_size_bytes e)"
      "digest api bs = rf_sha256 e" by (auto simp: entry_ok_def)
    with reg [of "entry_path s e" bs] hd(1) [of s e]
    show "\<exists>bs. regular g (d' @ entry_path s e) bs \<and> length bs = unat (rf_size_bytes e) \<and> digest api bs = rf_sha256 e"
      by auto
  qed
  from assms(1) obtain n bs sig v where f: "f d = Some n"
    "regular f (d @ [MANIFEST_NAME]) bs" "regular f (d @ [SIGNATURE_NAME]) sig"
    "verify_container_manifest (ia_manifest api) (container_from_slice api) (container_to_value api)
       bs sig (in_key inst) (in_platform inst) (in_architecture inst) = Ok v"
    "list_all (\<lambda>(s, e). entry_ok api inst f d s e) (release_entries (vc_manifest v))"
    by (auto simp: release_ok_def)
  have "g d' = Some n" using same [of "[]" n] f(1) by simp
  moreover have "list_all (\<lambda>(s, e). entry_ok api inst g d' s e) (release_entries (vc_manifest v))"
    using f(5) entry by (auto simp: list_all_iff)
  moreover have "regular g (d' @ [MANIFEST_NAME]) bs" "regular g (d' @ [SIGNATURE_NAME]) sig"
    using f(2,3) reg by simp_all
  ultimately show ?thesis unfolding release_ok_def using f(4) by blast
qed

section \<open>Where an installation may write\<close>

definition plain_generation :: "string \<Rightarrow> bool" where
  "plain_generation g \<longleftrightarrow> g \<noteq> [] \<and> hd g \<noteq> CHR ''.''"

definition away :: "installation \<Rightarrow> path set \<Rightarrow> bool" where
  "away inst T \<longleftrightarrow> (\<forall>g rel. plain_generation g \<longrightarrow> releases_dir inst @ g # rel \<notin> T)"

text \<open>Every generation of \<open>G\<close> is a complete release, and the pointer names one of them or nothing.\<close>

definition releases_good :: "install_api \<Rightarrow> installation \<Rightarrow> string set \<Rightarrow> fs \<Rightarrow> bool" where
  "releases_good api inst G w \<longleftrightarrow>
     (\<forall>g \<in> G. plain_generation g \<and> release_ok api inst (nodes w) (releases_dir inst @ [g]))"

definition pointer_in :: "installation \<Rightarrow> string set \<Rightarrow> fs \<Rightarrow> bool" where
  "pointer_in inst G w \<longleftrightarrow>
     nodes w (pointer_path inst) = None \<or> (\<exists>g \<in> G. regular (nodes w) (pointer_path inst) g)"

definition pointer_inv :: "install_api \<Rightarrow> installation \<Rightarrow> fs \<Rightarrow> bool" where
  "pointer_inv api inst w \<longleftrightarrow> (\<exists>G. releases_good api inst G w \<and> pointer_in inst G w)"

lemma releases_good_only_at:
  "releases_good api inst G w \<Longrightarrow> only_at T w w' \<Longrightarrow> away inst T \<Longrightarrow> releases_good api inst G w'"
  unfolding releases_good_def
  by (auto intro: release_ok_kept simp: away_def only_at_def)

lemma pointer_in_only_at:
  "pointer_in inst G w \<Longrightarrow> only_at T w w' \<Longrightarrow> pointer_path inst \<notin> T \<Longrightarrow> pointer_in inst G w'"
  by (auto simp: pointer_in_def regular_def only_at_def)

lemma pointer_inv_only_at:
  "pointer_inv api inst w \<Longrightarrow> only_at T w w' \<Longrightarrow> away inst T \<Longrightarrow> pointer_path inst \<notin> T \<Longrightarrow>
   pointer_inv api inst w'"
  unfolding pointer_inv_def using releases_good_only_at pointer_in_only_at by blast

definition stage_region :: "installation \<Rightarrow> path \<Rightarrow> path set" where
  "stage_region inst stage = tree stage \<union> {q. prefix q stage} \<union> {in_root inst @ [''mutation.lock'']}"

lemma prefix_root: "prefix (r @ x) (r @ y) = prefix x y"
  by simp

lemma away_root_file: "name \<noteq> ''releases'' \<Longrightarrow> away inst {in_root inst @ [name]}"
  by (auto simp: away_def releases_dir_def)

lemma away_Un: "away inst S \<Longrightarrow> away inst T \<Longrightarrow> away inst (S \<union> T)"
  by (auto simp: away_def)

lemma away_stage: "away inst (tree (stage_path inst g))" "away inst {q. prefix q (stage_path inst g)}"
  by (auto simp: away_def tree_def stage_path_def releases_dir_def plain_generation_def)

lemma pointer_not_stage: "pointer_path inst \<notin> stage_region inst (stage_path inst g)"
  by (auto simp: pointer_path_def stage_region_def tree_def stage_path_def releases_dir_def POINTER_NAME_def)

lemma away_stage_region: "away inst (stage_region inst (stage_path inst g))"
  unfolding stage_region_def by (intro away_Un away_stage away_root_file) simp

section \<open>Writing\<close>

lemma only_at_exists [only_at_rules]:
  assumes "\<And>b v. only_at T v (snd (f b v))"
  shows "only_at T w (snd (case path_exists p w of (b, v) \<Rightarrow> f b v))"
proof -
  obtain b v where v: "path_exists p w = (b, v)" by fastforce
  have "only_at T w v" using only_at_calls(2) [of T w p] v by simp
  with assms [of v b] v show ?thesis by (auto intro: only_at_trans)
qed

lemma only_at_pair [only_at_rules]:
  "(\<And>a b. only_at T w (snd (f a b v))) \<Longrightarrow> only_at T w (snd ((case x of (a, b) \<Rightarrow> f a b) v))"
  by (simp add: case_prod_beta)

lemma writers_only_at [only_at_rules]:
  "p \<in> T \<Longrightarrow> only_at T w (snd (protect p x w))"
  "p \<in> T \<Longrightarrow> only_at T w (snd (write_new env p bs w))"
  "p \<in> T \<Longrightarrow> q \<in> T \<Longrightarrow> only_at T w (snd (atomic_replace p q w))"
  "p \<in> T \<Longrightarrow> only_at T w (snd (guard_at env p w))"
  by (auto simp: protect_def write_new_def atomic_replace_def guard_at_def Let_def intro!: only_at_rules)

lemma create_new_Ok: "create_new m p w = (Ok u, w') \<Longrightarrow> regular (nodes w') p []"
  by (auto simp: create_new_def regular_def split: prod.splits option.splits)

lemma set_permissions_Ok:
  "set_permissions m p w = (Ok u, w') \<Longrightarrow> regular (nodes w) p bs \<Longrightarrow> regular (nodes w') p bs"
  by (auto simp: set_permissions_def regular_def dest!: guarded_Ok split: option.splits)

lemma file_write_all_Ok:
  "file_write_all bs p w = (Ok u, w') \<Longrightarrow> regular (nodes w) p old \<Longrightarrow> regular (nodes w') p (old @ bs)"
  by (auto simp: file_write_all_def append_file_def regular_def dest!: next_fault_frame
      split: prod.splits option.splits)

lemma sync_all_nodes: "sync_all w = (r, w') \<Longrightarrow> nodes w' = nodes w"
  using only_at_empty [OF only_at_calls(3) [of "{}" w]] by simp

lemma write_new_Ok:
  assumes "write_new env p bs w = (Ok u, w')"
  shows "regular (nodes w') p bs"
proof -
  from assms obtain a w1 b w2 c w3 where "create_new (new_file_mode env) p w = (Ok a, w1)"
    "set_permissions 0x180 p w1 = (Ok b, w2)" "file_write_all bs p w2 = (Ok c, w3)" "sync_all w3 = (Ok u, w')"
    by (auto simp: write_new_def protect_def bind_io_eq_Ok_iff)
  then have "regular (nodes w3) p ([] @ bs)"
    using file_write_all_Ok [OF _ set_permissions_Ok [OF _ create_new_Ok]] by blast
  with sync_all_nodes [OF \<open>sync_all w3 = (Ok u, w')\<close>] show ?thesis by simp
qed

lemma fs_rename_nodes:
  "fs_rename p q w = (r, w') \<Longrightarrow> nodes w' q = nodes w q \<or> nodes w' q = nodes w p"
  by (auto simp: fs_rename_def dest!: next_fault_frame split: prod.splits option.splits if_splits)

lemma atomic_replace_nodes:
  assumes "atomic_replace p q w = (r, w')"
  shows "nodes w' q = nodes w q \<or> nodes w' q = nodes w p"
proof -
  obtain x v where v: "fs_rename p q w = (x, v)" by fastforce
  have "nodes (snd (sync_directory (butlast q) v)) = nodes v"
    using only_at_empty [OF readers_only_at(7)] by blast
  then have "nodes w' = nodes v"
    using assms v by (cases x) (auto simp: atomic_replace_def split: if_splits)
  with fs_rename_nodes [OF v] show ?thesis by simp
qed

text \<open>What the installation relies on from the operations it is given: copying touches the
  destination only, and publishing replaces the destination by the source or leaves it.\<close>

locale install_operations =
  fixes copy publish :: "path \<Rightarrow> path \<Rightarrow> fs \<Rightarrow> (io_error, unit) result \<times> fs"
  assumes copy_only_at: "q \<in> T \<Longrightarrow> only_at T w (snd (copy p q w))"
    and publish_only_at: "p \<in> T \<Longrightarrow> q \<in> T \<Longrightarrow> only_at T w (snd (publish p q w))"
    and publish_nodes: "publish p q w = (r, w') \<Longrightarrow> nodes w' q = nodes w q \<or> nodes w' q = nodes w p"
begin

lemma copy_entries_only_at:
  assumes "\<And>q. prefix q stage \<Longrightarrow> q \<in> T" and "tree stage \<subseteq> T"
  shows "only_at T w (snd (copy_entries env \<lparr>io_copy = copy, io_publish = publish\<rparr> source stage es w))"
proof (induction es arbitrary: w)
  case Nil
  then show ?case by (simp add: only_at_refl)
next
  case (Cons se es)
  obtain s e where se: "se = (s, e)" by fastforce
  have T: "q \<in> T" if "prefix q (stage @ x)" for q x
    using that assms by (auto simp: prefix_append tree_def)
  have "prefix (butlast (stage @ x)) (stage @ x)" for x by (rule prefixeq_butlast)
  then have "prefix q (butlast (stage @ x)) \<Longrightarrow> q \<in> T" for q x
    using T prefix_order.trans by blast
  with T Cons show ?case
    unfolding se by (auto simp: Let_def intro!: only_at_rules create_dir_all_only_at copy_only_at)
qed

lemma copy_named_only_at:
  "stage @ [name] \<in> T \<Longrightarrow>
   only_at T w (snd (copy_named \<lparr>io_copy = copy, io_publish = publish\<rparr> source stage name w))"
  by (auto simp: copy_named_def intro!: only_at_rules copy_only_at)

lemma copy_dispatcher_only_at:
  assumes "\<And>q. prefix q stage \<Longrightarrow> q \<in> T" and "tree stage \<subseteq> T"
  shows "only_at T w (snd (copy_dispatcher api env inst \<lparr>io_copy = copy, io_publish = publish\<rparr> stage engine w))"
proof -
  have T: "q \<in> T" if "prefix q (stage @ x)" for q x
    using that assms by (auto simp: prefix_append tree_def)
  then show ?thesis
    by (auto simp: copy_dispatcher_def Let_def intro!: only_at_rules create_dir_all_only_at copy_only_at)
qed

lemma copy_dispatcher_kept:
  "kept (tree (stage @ [''dispatcher''])) w
     (snd (copy_dispatcher api env inst \<lparr>io_copy = copy, io_publish = publish\<rparr> stage engine w))"
  unfolding copy_dispatcher_def Let_def
  by (intro kept_bind create_dir_all_kept)
    (auto intro!: kept_only_at only_at_rules copy_only_at simp: tree_def)

lemma build_stage_only_at:
  assumes "\<And>q. prefix q stage \<Longrightarrow> q \<in> T" and "tree stage \<subseteq> T"
  shows "only_at T w (snd (build_stage api env inst \<lparr>io_copy = copy, io_publish = publish\<rparr>
    source broker owner m hash stage w))"
proof -
  have T: "stage @ [name] \<in> T" for name using assms(2) by (auto simp: tree_def)
  then show ?thesis
    by (auto simp: build_stage_def split: prod.splits option.splits
        intro!: only_at_rules copy_named_only_at copy_entries_only_at [OF assms]
        copy_dispatcher_only_at [OF assms])
qed

lemma copy_entries_kept:
  "kept {q. strict_prefix stage q} w
     (snd (copy_entries env \<lparr>io_copy = copy, io_publish = publish\<rparr> source stage es w))"
proof (induction es arbitrary: w)
  case Nil
  then show ?case by (simp add: kept_def)
next
  case (Cons se es)
  obtain s e where se: "se = (s, e)" by fastforce
  have below: "strict_prefix stage (stage @ entry_path s e)"
    by (simp add: entry_path_def strict_prefix_def)
  have one: "kept {q. strict_prefix stage q} w (snd (copy p (stage @ entry_path s e) w))"
    "kept {q. strict_prefix stage q} w (snd (protect (stage @ entry_path s e) b w))" for p b w
    using below by (auto intro!: kept_only_at only_at_rules copy_only_at)
  show ?case
    unfolding se by (auto simp: Let_def intro!: kept_bind create_dir_all_kept one Cons.IH)
qed

lemma stage_stays:
  assumes "copy_named \<lparr>io_copy = copy, io_publish = publish\<rparr> source stage MANIFEST_NAME w = (Ok a, w1)"
    and "copy_named \<lparr>io_copy = copy, io_publish = publish\<rparr> source stage SIGNATURE_NAME w1 = (Ok b, w2)"
    and "copy_entries env \<lparr>io_copy = copy, io_publish = publish\<rparr> source stage es w2 = (Ok c, w3)"
    and "nodes w stage \<noteq> None"
  shows "nodes w3 stage \<noteq> None"
proof -
  have "only_at {stage @ [name]} v (snd (copy_named \<lparr>io_copy = copy, io_publish = publish\<rparr> source stage name v))" for name v
    by (rule copy_named_only_at) simp
  then have "nodes w1 stage = nodes w stage" "nodes w2 stage = nodes w1 stage"
    using assms(1,2) only_at_nodes by (metis append_self_conv not_Cons_self2 singletonD snd_conv)+
  moreover have "kept {q. strict_prefix stage q} w2 w3"
    using copy_entries_kept [of stage w2 env source es] assms(3) by simp
  ultimately show ?thesis using assms(4) by (auto simp: kept_def)
qed

lemma build_stage_Ok:
  assumes b: "build_stage api env inst \<lparr>io_copy = copy, io_publish = publish\<rparr>
      source broker owner m hash stage w = (Ok u, w')"
    and d: "nodes w stage \<noteq> None"
  shows "release_ok api inst (nodes w') stage"
proof -
  let ?ops = "\<lparr>io_copy = copy, io_publish = publish\<rparr>"
  let ?T = "tree (stage @ [''dispatcher'']) \<union> {stage @ [POLICY_NAME]}"
  from b obtain a wa b wb c w1 v h w2 engine w3 x w4 y w5 bs where
    cp: "copy_named ?ops source stage MANIFEST_NAME w = (Ok a, wa)"
      "copy_named ?ops source stage SIGNATURE_NAME wa = (Ok b, wb)"
      "copy_entries env ?ops source stage (release_entries m) wb = (Ok c, w1)"
    and v: "verified_manifest api inst stage w1 = (Ok (v, h), w2)"
    and f: "verify_slot_files api inst stage v Latest w2 = (Ok engine, w3)"
    and c: "copy_dispatcher api env inst ?ops stage engine w3 = (Ok x, w4)"
    and g: "file_digest api broker w4 = (Ok y, w5)"
    and p: "write_new env (stage @ [POLICY_NAME]) bs w5 = (Ok u, w')"
    by (auto simp: build_stage_def verify_files_def bind_io_eq_Ok_iff split: prod.splits option.splits if_splits)
  have ok: "release_ok api inst (nodes w3) stage"
    using release_okI [OF v f stage_stays [OF cp d]] by simp
  have "kept ?T w3 w4" using copy_dispatcher_kept [of stage w3 api env inst engine] c by (simp add: kept_def)
  moreover have "kept ?T w4 w5" using file_digest_Ok [OF g] by (simp add: kept_def)
  moreover have "kept ?T w5 w'"
    using writers_only_at(2) [of "stage @ [POLICY_NAME]" ?T w5 env bs] p by (auto intro: kept_only_at)
  ultimately have kept: "kept ?T w3 w'" by (blast intro: kept_trans)
  show ?thesis
  proof (rule release_ok_kept [OF ok])
    fix rel n assume "rel = [] \<or> hd rel \<in> {MANIFEST_NAME, SIGNATURE_NAME, ''engines''}"
      and n: "nodes w3 (stage @ rel) = Some n"
    then have "stage @ rel \<notin> ?T"
      by (cases rel) (auto simp: tree_def MANIFEST_NAME_def SIGNATURE_NAME_def POLICY_NAME_def)
    with kept n show "nodes w' (stage @ rel) = Some n" unfolding kept_def by blast
  qed
qed

end

section \<open>Switching the pointer\<close>

definition pointing :: "install_api \<Rightarrow> installation \<Rightarrow> string set \<Rightarrow> fs \<Rightarrow> bool" where
  "pointing api inst G w \<longleftrightarrow> releases_good api inst G w \<and> pointer_in inst G w"

lemma pointing_only_at:
  "pointing api inst G w \<Longrightarrow> only_at T w w' \<Longrightarrow> away inst T \<Longrightarrow> pointer_path inst \<notin> T \<Longrightarrow> pointing api inst G w'"
  unfolding pointing_def using releases_good_only_at pointer_in_only_at by blast

lemma pointing_nodes: "pointing api inst G w \<Longrightarrow> nodes w' = nodes w \<Longrightarrow> pointing api inst G w'"
  by (simp add: pointing_def releases_good_def pointer_in_def)

text \<open>The pointer may become what another file of the root holds, when that names a complete release.\<close>

lemma pointing_replace:
  assumes "pointing api inst G w" and "only_at {in_root inst @ [name], pointer_path inst} w w'"
    and "name \<noteq> ''releases''" "regular (nodes w) (in_root inst @ [name]) g" "g \<in> G"
    and "nodes w' (pointer_path inst) = nodes w (pointer_path inst)
       \<or> nodes w' (pointer_path inst) = nodes w (in_root inst @ [name])"
  shows "pointing api inst G w'"
proof -
  have "away inst {in_root inst @ [name], pointer_path inst}"
    using assms(3) by (auto simp: away_def releases_dir_def pointer_path_def POINTER_NAME_def)
  then have "releases_good api inst G w'"
    using assms(1,2) releases_good_only_at by (auto simp: pointing_def)
  moreover have "pointer_in inst G w'"
    using assms(1,4,5,6) by (auto simp: pointing_def pointer_in_def regular_def)
  ultimately show ?thesis by (simp add: pointing_def)
qed

lemma away_pointer: "away inst {pointer_path inst}"
  by (auto simp: away_def releases_dir_def pointer_path_def POINTER_NAME_def)

lemma pointing_remove:
  assumes "pointing api inst G w" and "remove_file (pointer_path inst) w = (r, w')"
  shows "pointing api inst G w'"
proof -
  have "only_at {pointer_path inst} w w'"
    using only_at_calls(7) [of "pointer_path inst" "{pointer_path inst}" w] assms(2) by simp
  then have "releases_good api inst G w'"
    using assms(1) releases_good_only_at away_pointer by (auto simp: pointing_def)
  moreover have "nodes w' (pointer_path inst) = nodes w (pointer_path inst) \<or> nodes w' (pointer_path inst) = None"
    using assms(2) by (auto simp: remove_file_def dest!: next_fault_frame split: prod.splits option.splits if_splits)
  then have "pointer_in inst G w'" using assms(1) by (auto simp: pointing_def pointer_in_def regular_def)
  ultimately show ?thesis by (simp add: pointing_def)
qed

lemma sync_directory_nodes: "sync_directory p w = (r, w') \<Longrightarrow> nodes w' = nodes w"
  using only_at_empty [OF readers_only_at(7) [of "{}" w p]] by simp

lemma path_exists_nodes: "path_exists p w = (b, w') \<Longrightarrow> nodes w' = nodes w"
  using only_at_empty [OF only_at_calls(2) [of "{}" w p]] by simp

text \<open>Writing a generation name to a hidden file of the root and renaming it over the pointer.\<close>

lemma replace_pointer_pointing:
  assumes inv: "pointing api inst G w" and g: "g \<in> G" and name: "hd name = CHR ''.''"
    and r: "bind_io (write_new env (in_root inst @ [name]) g w)
      (\<lambda>_ w. atomic_replace (in_root inst @ [name]) (pointer_path inst) w) = (r, w')"
  shows "pointing api inst G w'"
proof -
  let ?t = "in_root inst @ [name]"
  have ne: "name \<noteq> ''releases''" "name \<noteq> POINTER_NAME" using name by (auto simp: POINTER_NAME_def)
  obtain x v where wr: "write_new env ?t g w = (x, v)" by fastforce
  have "only_at {?t} w v" using writers_only_at(2) [of ?t "{?t}" w env g] wr by simp
  then have v: "pointing api inst G v"
    using inv pointing_only_at away_root_file [OF ne(1)] ne(2) by (auto simp: pointer_path_def)
  show ?thesis
  proof (cases x)
    case (Inl e)
    with r wr v show ?thesis by simp
  next
    case (Inr u)
    with r wr have rep: "atomic_replace ?t (pointer_path inst) v = (r, w')" by simp
    have "only_at {?t, pointer_path inst} v w'"
      using writers_only_at(3) [of ?t "{?t, pointer_path inst}" "pointer_path inst" v] rep by simp
    from pointing_replace [OF v this ne(1) _ g atomic_replace_nodes [OF rep]]
    show ?thesis using write_new_Ok wr Inr by blast
  qed
qed

lemma remove_pointer_pointing:
  assumes "pointing api inst G w"
    and "bind_io (remove_file (pointer_path inst) w) (\<lambda>_ w. sync_directory (in_root inst) w) = (r, w')"
  shows "pointing api inst G w'"
proof -
  obtain x v where rm: "remove_file (pointer_path inst) w = (x, v)" by fastforce
  have v: "pointing api inst G v" using pointing_remove [OF assms(1) rm] .
  have "nodes w' = nodes v" using assms(2) rm sync_directory_nodes by (cases x) auto
  with v show ?thesis by (rule pointing_nodes)
qed

lemma restore_pointer_pointing:
  assumes inv: "pointing api inst G w" and prev: "\<And>bs. previous = Some bs \<Longrightarrow> bs \<in> G"
    and r: "restore_pointer env inst generation previous w = (r, w')"
  shows "pointing api inst G w'"
proof (cases previous)
  case (Some bs)
  with r show ?thesis
    using replace_pointer_pointing [OF inv prev [OF Some], of "''.rollback-'' @ generation"]
    by (simp add: restore_pointer_def Let_def)
next
  case None
  obtain b v where v: "path_exists (pointer_path inst) w = (b, v)" by fastforce
  have inv': "pointing api inst G v" using pointing_nodes [OF inv path_exists_nodes [OF v]] .
  show ?thesis
    using r None v inv' remove_pointer_pointing [OF inv'] by (auto simp: restore_pointer_def split: if_splits)
qed

lemma rename_dir_Ok:
  "rename_dir p q w = (Ok u, w') \<Longrightarrow>
   nodes w' = move_tree p q (nodes w) \<and> nodes w q = None \<and> nodes w p \<noteq> None \<and> \<not> prefix p q"
  by (auto simp: rename_dir_def dest!: guarded_Ok split: if_splits)

lemma rename_dir_Err: "rename_dir p q w = (Err e, w') \<Longrightarrow> nodes w' = nodes w"
  by (auto simp: rename_dir_def guarded_def dest!: next_fault_frame split: prod.splits option.splits if_splits)

lemma commit_pointing:
  assumes inv: "pointing api inst G w" and ok: "release_ok api inst (nodes w) (stage_path inst generation)"
    and plain: "plain_generation generation"
    and mv: "rename_dir (stage_path inst generation) (releases_dir inst @ [generation]) w = (Ok u, w')"
  shows "pointing api inst (insert generation G) w'"
proof -
  let ?s = "stage_path inst generation" and ?d = "releases_dir inst @ [generation]"
  note n = rename_dir_Ok [OF mv]
  have fresh: "generation \<notin> G" using inv n by (auto simp: pointing_def releases_good_def release_ok_def)
  have "release_ok api inst (nodes w') ?d"
    by (rule release_ok_kept [OF ok]) (use n in \<open>simp add: move_tree_def\<close>)
  moreover have "release_ok api inst (nodes w') (releases_dir inst @ [g])" if g: "g \<in> G" for g
  proof (rule release_ok_kept)
    show "release_ok api inst (nodes w) (releases_dir inst @ [g])"
      using inv g by (simp add: pointing_def releases_good_def)
    have "plain_generation g" using inv g by (simp add: pointing_def releases_good_def)
    then show "nodes w' ((releases_dir inst @ [g]) @ rel) = Some n"
      if "nodes w ((releases_dir inst @ [g]) @ rel) = Some n" for rel n
      using that n fresh g by (auto simp: move_tree_def stage_path_def plain_generation_def)
  qed
  moreover have "nodes w' (pointer_path inst) = nodes w (pointer_path inst)"
    using n by (auto simp: move_tree_def stage_path_def pointer_path_def releases_dir_def POINTER_NAME_def)
  ultimately show ?thesis
    using inv plain by (auto simp: pointing_def releases_good_def pointer_in_def regular_def)
qed

context install_operations
begin

lemma publish_pointing:
  assumes inv: "pointing api inst G w" and g: "g \<in> G"
    and temp: "regular (nodes w) (in_root inst @ [name]) g" "name \<noteq> ''releases''"
    and p: "publish (in_root inst @ [name]) (pointer_path inst) w = (r, w')"
  shows "pointing api inst G w'"
proof -
  let ?T = "{in_root inst @ [name], pointer_path inst}"
  have "only_at ?T w w'" using publish_only_at [of _ ?T "pointer_path inst" w] p by (metis insertI1 insert_commute snd_conv)
  from pointing_replace [OF inv this temp(2,1) g publish_nodes [OF p]] show ?thesis .
qed

lemma publish_release_pointing:
  assumes inv: "pointing api inst G w" and ok: "release_ok api inst (nodes w) (stage_path inst generation)"
    and plain: "plain_generation generation" and prev: "\<And>bs. previous = Some bs \<Longrightarrow> bs \<in> G"
    and p: "publish_release api env inst \<lparr>io_copy = copy, io_publish = publish\<rparr> generation
      (stage_path inst generation) (in_root inst @ [''.pointer-'' @ generation]) previous w = (r, w')"
  shows "\<exists>G. pointing api inst G w'"
proof -
  let ?t = "in_root inst @ [''.pointer-'' @ generation]" and ?G = "insert generation G"
  obtain a w1 where s1: "sync_directories env (stage_path inst generation) w = (a, w1)" by fastforce
  have n1: "nodes w1 = nodes w"
    using only_at_empty [OF sync_directories_only_at(1) [of "{}" w env "stage_path inst generation"]] s1 by simp
  obtain b w2 where s2: "rename_dir (stage_path inst generation) (releases_dir inst @ [generation]) w1 = (b, w2)" by fastforce
  obtain c w3 where s3: "sync_directory (releases_dir inst) w2 = (c, w3)" by fastforce
  obtain d w4 where s4: "write_new env ?t generation w3 = (d, w4)" by fastforce
  obtain e w5 where s5: "publish ?t (pointer_path inst) w4 = (e, w5)" by fastforce
  obtain f w6 where s6: "load api inst w5 = (f, w6)" by fastforce
  have i1: "pointing api inst G w1" using pointing_nodes [OF inv n1] .
  have i2: "pointing api inst ?G w2" if "is_ok b"
    using that commit_pointing [OF i1 _ plain] ok n1 s2 by (auto simp: is_ok_iff)
  have i2': "pointing api inst G w2" if "\<not> is_ok b"
    using that pointing_nodes [OF i1] rename_dir_Err s2 by (cases b) auto
  have i3: "pointing api inst ?G w3" if "is_ok b" using pointing_nodes [OF i2 [OF that] sync_directory_nodes [OF s3]] .
  have "only_at {?t} w3 w4" using writers_only_at(2) [of ?t "{?t}" w3 env generation] s4 by simp
  then have i4: "pointing api inst ?G w4" if "is_ok b"
    using pointing_only_at [OF i3 [OF that]] away_root_file [of "''.pointer-'' @ generation" inst]
    by (simp add: pointer_path_def POINTER_NAME_def)
  have reg: "regular (nodes w4) ?t generation" if "is_ok d"
    using write_new_Ok s4 that by (cases d) auto
  have i5: "pointing api inst ?G w5" if "is_ok b" "is_ok d"
    using publish_pointing [OF i4 [OF that(1)] _ reg [OF that(2)] _ s5] by simp
  have "nodes w6 = nodes w5" using only_at_empty [OF load_slot_only_at [of "{}" w5 api inst Latest]] s6 by (simp add: load_def)
  then have i6: "pointing api inst ?G w6" if "is_ok b" "is_ok d" using pointing_nodes [OF i5 [OF that]] by simp
  have i7: "pointing api inst ?G v" if "is_ok b" "is_ok d" "restore_pointer env inst generation previous u = (z, v)"
    "u = w5 \<or> u = w6" for u v z
    using restore_pointer_pointing [OF _ _ that(3)] i5 i6 that prev by blast
  consider "w' = w1" | "\<not> is_ok b" "w' = w2" | "is_ok b" "w' = w3" | "is_ok b" "w' = w4"
    | "is_ok b" "is_ok d" "w' = w6"
    | u z where "is_ok b" "is_ok d" "u = w5 \<or> u = w6" "restore_pointer env inst generation previous u = (z, w')"
    using p s1 s2 s3 s4 s5 s6
    by (cases a; cases b; cases c; cases d; cases e; cases f)
      (auto simp: publish_release_def bind_io_def split: prod.splits sum.splits)
  then show ?thesis
    using i1 i2' i3 i4 i6 i7 by cases blast+
qed

lemma install_checks_region:
  "only_at (stage_region inst (stage_path inst g)) w (snd (install_checks api env inst source broker owner w))"
proof -
  let ?T = "stage_region inst (stage_path inst g)"
  have "q \<in> ?T" if "prefix q (in_root inst)" for q
    using that by (auto simp: stage_region_def stage_path_def releases_dir_def prefix_append)
  moreover have "in_root inst @ [''mutation.lock''] \<in> ?T" by (simp add: stage_region_def)
  ultimately show ?thesis
    by (auto simp: install_checks_def preflight_def guard_acquire_def Let_def
        intro!: only_at_rules create_dir_all_only_at)
qed

lemma prepare_stage_region:
  "only_at (stage_region inst (stage_path inst g)) w (snd (prepare_stage env inst (stage_path inst g) w))"
  by (auto simp: prepare_stage_def stage_region_def stage_path_def prefix_append
      intro!: only_at_rules create_dir_all_only_at)

lemma prepare_stage_Ok: "prepare_stage env inst stage w = (Ok u, w') \<Longrightarrow> nodes w' stage \<noteq> None"
  by (auto simp: prepare_stage_def bind_io_eq_Ok_iff set_permissions_def dest!: guarded_Ok split: option.splits)

lemma read_previous_Ok:
  assumes "read_previous inst w = (Ok previous, w')" and "previous = Some bs"
  shows "regular (nodes w) (pointer_path inst) bs"
  using assms read_bounded_Ok [of "pointer_path inst" 96 w bs]
  by (auto simp: read_previous_def split: prod.splits sum.splits io_error.splits)

lemma discard_stage_only_at: "only_at (tree stage \<union> {temp}) w (discard_stage stage temp w)"
proof -
  obtain a w1 where e1: "path_exists stage w = (a, w1)" by fastforce
  define w2 where "w2 = (if a then snd (remove_dir_all stage w1) else w1)"
  obtain b w3 where e2: "path_exists temp w2 = (b, w3)" by fastforce
  let ?T = "tree stage \<union> {temp}"
  have "only_at ?T w w1" "only_at ?T w2 w3"
    using only_at_calls(2) [of ?T w stage] only_at_calls(2) [of ?T w2 temp] e1 e2 by simp_all
  moreover have "only_at ?T w1 w2"
    using only_at_calls(14) [of stage ?T w1] by (auto simp: w2_def only_at_refl)
  ultimately have w3: "only_at ?T w w3" using only_at_trans by blast
  have "only_at ?T w3 (if b then snd (remove_file temp w3) else w3)"
    using only_at_calls(7) [of temp ?T w3] by (auto simp: only_at_refl)
  from only_at_trans [OF w3 this] show ?thesis
    using e2 by (simp add: discard_stage_def e1 w2_def)
qed

lemma digest_plain: "plain_generation (digest api bs @ ''-'' @ s)"
proof -
  have "CHR ''.'' \<notin> set (digest api bs)"
    using hex_string_class [of "sha256_digest (ia_manifest api) bs"]
    by (auto simp: digest_def sha256_hex_def list_all_iff ascii_class_defs)
  then show ?thesis by (cases "digest api bs") (auto simp: plain_generation_def)
qed

lemma install_checks_hash:
  assumes "install_checks api env inst source broker owner w = (Ok (b, m, hash), w')"
  shows "\<exists>bs. hash = digest api bs"
proof -
  from assms obtain x w1 v w2 where "verified_manifest api inst source w1 = (Ok (v, hash), w2)"
    by (auto simp: install_checks_def bind_io_eq_Ok_iff)
  from verified_manifest_Ok [OF this] show ?thesis by blast
qed

lemma stage_and_publish_inv:
  assumes inv: "pointer_inv api inst w" and stage: "nodes w (stage_path inst gen) \<noteq> None"
    and plain: "plain_generation gen"
    and prev: "\<And>bs. previous = Some bs \<Longrightarrow> regular (nodes w) (pointer_path inst) bs"
    and i: "stage_and_publish api env inst \<lparr>io_copy = copy, io_publish = publish\<rparr> source broker owner m hash
      gen previous w = (r, w')"
  shows "pointer_inv api inst w'"
proof -
  let ?ops = "\<lparr>io_copy = copy, io_publish = publish\<rparr>"
  let ?stage = "stage_path inst gen" and ?temp = "in_root inst @ [''.pointer-'' @ gen]"
  from inv obtain G where G: "pointing api inst G w" by (auto simp: pointer_inv_def pointing_def)
  have prev': "bs \<in> G" if "previous = Some bs" for bs
    using prev [OF that] G regular_unique by (fastforce simp: pointing_def pointer_in_def regular_def)
  obtain x v where b: "build_stage api env inst ?ops source broker owner m hash ?stage w = (x, v)" by fastforce
  have "only_at (stage_region inst ?stage) w v"
    using build_stage_only_at [of ?stage "stage_region inst ?stage" w api env inst source broker owner m hash] b
    by (auto simp: stage_region_def)
  from pointing_only_at [OF G this away_stage_region pointer_not_stage] have v: "pointing api inst G v" .
  obtain u where u: "\<exists>G. pointing api inst G u" "w' = discard_stage ?stage ?temp u"
  proof (cases x)
    case (Inl e)
    with i b have "w' = discard_stage ?stage ?temp v" by (simp add: stage_and_publish_def Let_def)
    with v that show ?thesis by blast
  next
    case (Inr y)
    obtain z u where p: "publish_release api env inst ?ops gen ?stage ?temp previous v = (z, u)" by fastforce
    have "release_ok api inst (nodes v) ?stage" using build_stage_Ok [OF _ stage] b Inr by blast
    from publish_release_pointing [OF v this plain prev' p] have "\<exists>G. pointing api inst G u" .
    moreover have "w' = discard_stage ?stage ?temp u"
      using i b Inr p by (simp add: stage_and_publish_def Let_def)
    ultimately show ?thesis using that by blast
  qed
  then have "pointer_inv api inst u" by (auto simp: pointer_inv_def pointing_def)
  moreover have "away inst (tree ?stage \<union> {?temp})" by (intro away_Un away_stage away_root_file) simp
  moreover have "pointer_path inst \<notin> tree ?stage \<union> {?temp}"
    using pointer_not_stage [of inst gen] by (auto simp: stage_region_def pointer_path_def POINTER_NAME_def)
  ultimately show ?thesis using pointer_inv_only_at discard_stage_only_at u(2) by blast
qed

lemma install_pointer_inv:
  assumes inv: "pointer_inv api inst w"
    and i: "install api env inst \<lparr>io_copy = copy, io_publish = publish\<rparr> now source broker owner w = (r, w')"
  shows "pointer_inv api inst w'"
proof -
  obtain x w1 where c: "install_checks api env inst source broker owner w = (x, w1)" by fastforce
  have inv1: "pointer_inv api inst w1"
    using pointer_inv_only_at [OF inv _ away_stage_region pointer_not_stage]
      install_checks_region [of inst _ w api env source broker owner] c by (metis snd_conv)
  show ?thesis
  proof (cases "\<exists>b m hash nanos. x = Ok (b, m, hash) \<and> now = Some nanos")
    case False
    then have "w' = w1" using i c by (cases x; cases now) (auto simp: install_def)
    with inv1 show ?thesis by simp
  next
    case True
    then obtain b m hash nanos where x: "x = Ok (b, m, hash)" "now = Some nanos" by blast
    define gen where "gen = hash @ ''-'' @ show_hex nanos"
    have plain: "plain_generation gen" using install_checks_hash c x digest_plain by (metis gen_def)
    obtain y w2 where p: "prepare_stage env inst (stage_path inst gen) w1 = (y, w2)" by fastforce
    obtain z w3 where rp: "read_previous inst w2 = (z, w3)" by fastforce
    have "only_at (stage_region inst (stage_path inst gen)) w1 w2"
      using prepare_stage_region [of inst gen w1 env] p by simp
    from pointer_inv_only_at [OF inv1 this away_stage_region pointer_not_stage]
    have inv2: "pointer_inv api inst w2" .
    have n3: "nodes w3 = nodes w2" using only_at_empty [OF read_previous_only_at [of "{}" w2 inst]] rp by simp
    have inv3: "pointer_inv api inst w3"
      using inv2 n3 by (simp add: pointer_inv_def releases_good_def pointer_in_def)
    have "w' = w2 \<or> w' = w3 \<or> (\<exists>u previous. y = Ok u \<and> z = Ok previous \<and>
        stage_and_publish api env inst \<lparr>io_copy = copy, io_publish = publish\<rparr> source b owner m hash gen previous w3 = (r, w'))"
      using i c x p rp by (cases y; cases z) (simp_all add: install_def Let_def gen_def)
    then show ?thesis
      using inv2 inv3 stage_and_publish_inv [OF inv3 _ plain] prepare_stage_Ok p read_previous_Ok rp n3 by metis
  qed
qed

end

lemma real_copy_only_at: "q \<in> T \<Longrightarrow> only_at T w (snd (real_copy env p q w))"
  by (auto simp: real_copy_def intro!: only_at_rules)

interpretation real: install_operations "real_copy env" atomic_replace for env
  by unfold_locales (auto intro: real_copy_only_at writers_only_at(3) dest: atomic_replace_nodes)

section \<open>Rolling back and collecting\<close>

lemma guard_pointer_inv:
  assumes "pointer_inv api inst w" and "guard_at env (in_root inst @ [name]) w = (r, w')"
    and "name \<noteq> ''releases''" "name \<noteq> POINTER_NAME"
  shows "pointer_inv api inst w'"
proof -
  have "only_at {in_root inst @ [name]} w w'"
    using writers_only_at(4) [of "in_root inst @ [name]" "{in_root inst @ [name]}" w env] assms(2) by simp
  from pointer_inv_only_at [OF assms(1) this away_root_file [OF assms(3)]] assms(4)
  show ?thesis by (simp add: pointer_path_def)
qed

lemma pointer_inv_nodes: "pointer_inv api inst w \<Longrightarrow> nodes w' = nodes w \<Longrightarrow> pointer_inv api inst w'"
  by (simp add: pointer_inv_def releases_good_def pointer_in_def)

lemma valid_generation_plain: "valid_generation g \<Longrightarrow> plain_generation g"
proof -
  assume g: "valid_generation g"
  then have "0 < length g" by (auto simp: valid_generation_def)
  with g have "is_ascii_hexdigit (g ! 0)"
    by (auto simp: valid_generation_def list_all_length nth_enumerate_eq dest!: spec [of _ 0])
  with \<open>0 < length g\<close> show ?thesis by (cases g) (auto simp: plain_generation_def ascii_class_defs)
qed

lemma rollback_to_inv:
  assumes inv: "pointer_inv api inst w" and r: "rollback_to api env inst published g w = (r, w')"
  shows "pointer_inv api inst w'"
proof (cases "valid_generation g")
  case False
  with r inv show ?thesis by (simp add: rollback_to_def)
next
  case True
  let ?d = "releases_dir inst @ [g]" and ?n = "''.activation-rollback-'' @ published"
  obtain a w1 where t: "trusted ?d (in_owner inst) w = (a, w1)" by fastforce
  obtain b w2 where v: "verified_manifest api inst ?d w1 = (b, w2)" by fastforce
  have n: "nodes w1 = nodes w" "nodes w2 = nodes w"
    using only_at_empty [OF readers_only_at(6) [of "{}" w ?d "in_owner inst"]] t
      only_at_empty [OF verifiers_only_at(1) [of "{}" w1 api inst ?d]] v by simp_all
  show ?thesis
  proof (cases "\<exists>x y z. a = Ok x \<and> b = Ok (y, z)")
    case False
    then have "w' = w1 \<or> w' = w2"
      using r True t v by (cases a; cases b) (auto simp: rollback_to_def Let_def)
    with inv n show ?thesis using pointer_inv_nodes by blast
  next
    case ok: True
    then obtain x y z where ok: "a = Ok x" "b = Ok (y, z)" by blast
    obtain c w3 where f: "verify_slot_files api inst ?d y Latest w2 = (c, w3)" by fastforce
    have n3: "nodes w3 = nodes w"
      using only_at_empty [OF verifiers_only_at(2) [of "{}" w2 api inst ?d y Latest]] f n by simp
    have inv3: "pointer_inv api inst w3" using pointer_inv_nodes [OF inv n3] .
    show ?thesis
    proof (cases c)
      case (Inl e)
      then have "w' = w3" using r True t v ok f by (simp add: rollback_to_def verify_files_def Let_def)
      with inv3 show ?thesis by simp
    next
      case (Inr p)
      have "nodes w1 ?d \<noteq> None" using trusted_Ok [of ?d "in_owner inst" w x w1] t ok n by (auto simp: trusted_node_def)
      then have "release_ok api inst (nodes w3) ?d"
        using release_okI [OF v [unfolded ok] f [unfolded Inr]] by simp
      moreover from inv3 obtain G where "pointing api inst G w3" by (auto simp: pointer_inv_def pointing_def)
      ultimately have "pointing api inst (insert g G) w3"
        using valid_generation_plain [OF True] by (auto simp: pointing_def releases_good_def pointer_in_def)
      moreover have "bind_io (write_new env (in_root inst @ [?n]) g w3)
          (\<lambda>_ w. atomic_replace (in_root inst @ [?n]) (pointer_path inst) w) = (r, w')"
        using r True t v ok f Inr by (simp add: rollback_to_def verify_files_def Let_def)
      ultimately have "pointing api inst (insert g G) w'"
        using replace_pointer_pointing [of api inst "insert g G" w3 g ?n] by simp
      then show ?thesis by (auto simp: pointer_inv_def pointing_def)
    qed
  qed
qed

lemma rollback_activation_inv:
  assumes inv: "pointer_inv api inst w"
    and r: "rollback_activation api env inst published previous w = (r, w')"
  shows "pointer_inv api inst w'"
proof -
  obtain a w1 where g: "guard_at env (in_root inst @ [''mutation.lock'']) w = (a, w1)" by fastforce
  have inv1: "pointer_inv api inst w1" using guard_pointer_inv [OF inv g] by (simp add: POINTER_NAME_def)
  obtain b w2 where e: "path_exists (marker_path inst) w1 = (b, w2)" by fastforce
  have inv2: "pointer_inv api inst w2" using pointer_inv_nodes [OF inv1 path_exists_nodes [OF e]] .
  obtain c w3 where p: "read_bounded (pointer_path inst) 96 w2 = (c, w3)" by fastforce
  have "nodes w3 = nodes w2"
    using only_at_empty [OF readers_only_at(3) [of "{}" w2 "pointer_path inst" 96]] p by simp
  then have inv3: "pointer_inv api inst w3" using pointer_inv_nodes [OF inv2] by simp
  have "w' = w1 \<or> w' = w2 \<or> w' = w3
     \<or> (\<exists>g. rollback_to api env inst published g w3 = (r, w'))
     \<or> bind_io (remove_file (pointer_path inst) w3) (\<lambda>_ w. sync_directory (in_root inst) w) = (r, w')"
    using r g e p
    by (cases a; cases c; cases previous) (auto simp: rollback_activation_def guard_acquire_def split: if_splits)
  then show ?thesis
    using inv1 inv2 inv3 rollback_to_inv [OF inv3] remove_pointer_pointing
    by (metis pointer_inv_def pointing_def)
qed

lemma collectable_only_at [only_at_rules]:
  "only_at T w (snd (collectable api env inst dispatcher current name w))"
proof -
  have case_result: "only_at T w (snd (case m of (Err e, v) \<Rightarrow> (Ok False, v) | (Ok x, v) \<Rightarrow> f x v))"
    if "only_at T w (snd m)" "\<And>x v. only_at T v (snd (f x v))" for w m and f :: "'b \<Rightarrow> fs \<Rightarrow> (io_error, bool) result \<times> fs"
    using that by (cases m; cases "fst m") (auto intro: only_at_trans)
  show ?thesis
    unfolding collectable_def Let_def by (auto intro!: only_at_rules case_result)
qed

lemma collectable_True:
  "collectable api env inst dispatcher current name w = (Ok True, w') \<Longrightarrow> valid_generation name \<and> name \<noteq> current"
  by (auto simp: collectable_def Let_def split: if_splits)

lemma pointing_current:
  assumes "pointing api inst {current} w" and "only_at (tree (releases_dir inst @ [name])) w w'" and "name \<noteq> current"
  shows "pointing api inst {current} w'"
proof -
  have "pointer_path inst \<notin> tree (releases_dir inst @ [name])"
    by (auto simp: tree_def pointer_path_def releases_dir_def)
  then have "pointer_in inst {current} w'"
    using assms pointer_in_only_at by (auto simp: pointing_def)
  moreover have "release_ok api inst (nodes w') (releases_dir inst @ [current])"
  proof (rule release_ok_kept)
    show "release_ok api inst (nodes w) (releases_dir inst @ [current])"
      using assms(1) by (simp add: pointing_def releases_good_def)
    show "nodes w' ((releases_dir inst @ [current]) @ rel) = Some n"
      if "nodes w ((releases_dir inst @ [current]) @ rel) = Some n" for rel n
      using that assms(2,3) by (auto simp: only_at_def tree_def)
  qed
  ultimately show ?thesis using assms(1) by (simp add: pointing_def releases_good_def)
qed

lemma collect_releases_pointing:
  "pointing api inst {current} w \<Longrightarrow> collect_releases api env inst dispatcher current names w = (r, w') \<Longrightarrow>
   pointing api inst {current} w'"
proof (induction names arbitrary: w)
  case Nil
  then show ?case by simp
next
  case (Cons name names)
  obtain a w1 where g: "guarded PermissionDenied (\<lambda>w. (Ok (), w)) w = (a, w1)" by fastforce
  obtain b w2 where c: "collectable api env inst dispatcher current name w1 = (b, w2)" by fastforce
  have "only_at {} w (snd (guarded PermissionDenied (\<lambda>w. (Ok (), w)) w))" by (intro only_at_rules) (simp add: only_at_refl)
  then have n: "nodes w1 = nodes w" "nodes w2 = nodes w1"
    using only_at_empty [of w w1] g only_at_empty [OF collectable_only_at [of "{}" w1 api env inst dispatcher current name]] c
    by simp_all
  have i: "pointing api inst {current} w1" "pointing api inst {current} w2"
    using pointing_nodes [OF Cons.prems(1)] n by simp_all
  obtain d w3 where rm: "remove_dir_all (releases_dir inst @ [name]) w2 = (d, w3)" by fastforce
  have "only_at (tree (releases_dir inst @ [name])) w2 w3"
    using only_at_calls(14) [of "releases_dir inst @ [name]" "tree (releases_dir inst @ [name])" w2] rm by simp
  then have i3: "pointing api inst {current} w3" if "b = Ok True"
    using pointing_current [OF i(2)] collectable_True c that by blast
  show ?case
    using Cons.prems(2) g c rm i i3 Cons.IH
    by (cases a; cases b; cases d) (auto split: if_splits)
qed

lemma collect_and_sync_pointing:
  assumes "pointing api inst {current} w"
    and "bind_io (collect_releases api env inst disp current names w) (\<lambda>_ w. sync_directory p w) = (r, w')"
  shows "pointing api inst {current} w'"
proof -
  obtain z v where c: "collect_releases api env inst disp current names w = (z, v)" by fastforce
  have v: "pointing api inst {current} v" using collect_releases_pointing [OF assms(1) c] .
  have "nodes w' = nodes v" using assms(2) c sync_directory_nodes by (cases z) auto
  with v show ?thesis by (rule pointing_nodes)
qed

lemma cleanup_previous_inv:
  assumes inv: "pointer_inv api inst w" and r: "cleanup_previous api env inst own w = (r, w')"
  shows "pointer_inv api inst w'"
proof -
  obtain a w1 where e: "path_exists (marker_path inst) w = (a, w1)" by fastforce
  have inv1: "pointer_inv api inst w1" using pointer_inv_nodes [OF inv path_exists_nodes [OF e]] .
  obtain b w2 where g: "guard_at env (in_root inst @ [''engine-owner.lock'']) w1 = (b, w2)" by fastforce
  have inv2: "pointer_inv api inst w2" using guard_pointer_inv [OF inv1 g] by (simp add: POINTER_NAME_def)
  obtain c w3 where p: "read_pointer inst w2 = (c, w3)" by fastforce
  have n3: "nodes w3 = nodes w2" using only_at_empty [OF verifiers_only_at(5) [of "{}" w2 inst]] p by simp
  obtain d w4 where k: "canonicalize env own w3 = (d, w4)" by fastforce
  obtain f w5 where t: "trusted (releases_dir inst) (in_owner inst) w4 = (f, w5)" by fastforce
  obtain g' w6 where o': "open_nofollow (releases_dir inst) w5 = (g', w6)" by fastforce
  have n6: "nodes w4 = nodes w3" "nodes w5 = nodes w4" "nodes w6 = nodes w5"
    using only_at_empty [OF only_at_calls(5) [of "{}" w3 env own]] k
      only_at_empty [OF readers_only_at(6) [of "{}" w4 "releases_dir inst" "in_owner inst"]] t
      only_at_empty [OF only_at_calls(4) [of "{}" w5 "releases_dir inst"]] o' by simp_all
  have cur: "pointing api inst {current} w6" if cur: "c = Ok current" for current
  proof -
    obtain v where "read_bounded (pointer_path inst) 96 w2 = (Ok current, v)"
      using cur p by (auto simp: read_pointer_def bind_io_eq_Ok_iff split: if_splits)
    then have reg: "regular (nodes w2) (pointer_path inst) current" using read_bounded_Ok by blast
    from inv2 obtain G where G: "releases_good api inst G w2" "pointer_in inst G w2"
      by (auto simp: pointer_inv_def)
    with reg have "current \<in> G" by (auto simp: pointer_in_def regular_def)
    with G reg have "pointing api inst {current} w2"
      by (simp add: pointing_def releases_good_def pointer_in_def)
    then show ?thesis by (rule pointing_nodes) (simp add: n3 n6)
  qed
  have "w' \<in> {w1, w2, w3, w4, w5, w6}
     \<or> (\<exists>current disp. c = Ok current \<and> d = Ok disp \<and> bind_io (collect_releases api env inst disp current
          (take 64 (dir_entries env (releases_dir inst) w6)) w6) (\<lambda>_ w. sync_directory (releases_dir inst) w) = (r, w'))"
    using r e g p k t o'
    by (cases b; cases c; cases d; cases f; cases g') (simp_all add: cleanup_previous_def split: if_splits)
  then consider "w' \<in> {w1, w2, w3, w4, w5, w6}"
    | current disp where "c = Ok current" "bind_io (collect_releases api env inst disp current
          (take 64 (dir_entries env (releases_dir inst) w6)) w6) (\<lambda>_ w. sync_directory (releases_dir inst) w) = (r, w')"
    by metis
  then show ?thesis
  proof cases
    case 1
    have "pointer_inv api inst w3" "pointer_inv api inst w4" "pointer_inv api inst w5" "pointer_inv api inst w6"
      using n3 n6 by (auto intro: pointer_inv_nodes [OF inv2])
    with 1 inv1 inv2 show ?thesis by blast
  next
    case 2
    from collect_and_sync_pointing [OF cur [OF 2(1)] 2(2)] show ?thesis
      unfolding pointer_inv_def pointing_def by blast
  qed
qed

section \<open>Calls without faults\<close>

lemma no_faults:
  assumes "faults w = []"
  shows "next_fault w = (None, w)" "guarded e f w = f w"
    "symlink_metadata p w = (ok_or NotFound (nodes w p), w)"
  using assms by (simp_all add: next_fault_def guarded_def symlink_metadata_def)

lemma open_regular_complete: "faults w = [] \<Longrightarrow> regular (nodes w) p bs \<Longrightarrow> open_regular p w = (Ok bs, w)"
  by (auto simp: open_regular_def open_nofollow_def no_faults regular_def)

lemma read_bounded_complete:
  "faults w = [] \<Longrightarrow> regular (nodes w) p bs \<Longrightarrow> length bs \<le> limit \<Longrightarrow> read_bounded p limit w = (Ok bs, w)"
  by (simp add: read_bounded_def open_regular_complete read_to_end_def no_faults)

lemma file_digest_complete:
  "faults w = [] \<Longrightarrow> regular (nodes w) p bs \<Longrightarrow> file_digest api p w = (Ok (digest api bs), w)"
  by (simp add: file_digest_def open_regular_complete read_to_end_def no_faults)

lemma trusted_complete: "faults w = [] \<Longrightarrow> trusted_node owner (nodes w) p \<Longrightarrow> trusted p owner w = (Ok (), w)"
  by (auto simp: trusted_def reject_link_def no_faults trusted_node_def)

lemma trusted_all_complete:
  "faults w = [] \<Longrightarrow> list_all (trusted_node owner (nodes w)) ps \<Longrightarrow> trusted_all owner ps w = (Ok (), w)"
  by (induction ps) (simp_all add: trusted_complete)

lemma trusted_components_complete:
  "faults w = [] \<Longrightarrow> (\<And>n. n < length cs \<Longrightarrow> trusted_node owner (nodes w) (cursor @ take (Suc n) cs)) \<Longrightarrow>
   trusted_components owner cursor cs w = (Ok (), w)"
proof (induction cs arbitrary: cursor)
  case (Cons c cs)
  have "trusted_node owner (nodes w) ((cursor @ [c]) @ take (Suc n) cs)" if "n < length cs" for n
    using Cons.prems(2) [of "Suc n"] that by simp
  with Cons.IH [OF Cons.prems(1)] Cons.prems(2) [of 0] show ?case
    by (simp add: trusted_complete [OF Cons.prems(1)])
qed simp

lemma verify_entry_complete:
  assumes "faults w = []" and "entry_ok api inst (nodes w) directory s e"
  shows "verify_entry api inst directory s e w = (Ok (), w)"
proof -
  obtain bs where bs: "regular (nodes w) (directory @ entry_path s e) bs" "length bs = unat (rf_size_bytes e)"
    "digest api bs = rf_sha256 e" using assms(2) by (auto simp: entry_ok_def)
  then have "reject_link (directory @ entry_path s e) w = (Ok (the (nodes w (directory @ entry_path s e))), w)"
    "is_file (nd_kind (the (nodes w (directory @ entry_path s e))))"
    "file_len (nd_kind (the (nodes w (directory @ entry_path s e)))) = length bs"
    using assms(1) by (auto simp: reject_link_def no_faults regular_def)
  moreover have "trusted_components (in_owner inst) directory (entry_path s e) w = (Ok (), w)"
    using assms by (intro trusted_components_complete) (auto simp: entry_ok_def)
  ultimately show ?thesis
    using file_digest_complete [OF assms(1) bs(1)] bs by (simp add: verify_entry_def Let_def)
qed

lemma verify_entries_complete:
  assumes "faults w = []" and "list_all (\<lambda>(s, e). entry_ok api inst (nodes w) directory s e) es"
  shows "\<exists>found. verify_entries api inst directory selected engine es w = (Ok found, w)
    \<and> (engine \<noteq> None \<or> (\<exists>(s, e) \<in> set es. rs_slot s = selected \<and> rf_path e = engine_name inst \<and> rf_role e = Executable)
       \<longrightarrow> found \<noteq> None)"
  using assms(2)
proof (induction es arbitrary: engine)
  case (Cons se es)
  obtain s e where se: "se = (s, e)" by fastforce
  let ?engine = "if rs_slot s = selected \<and> rf_path e = engine_name inst \<and> rf_role e = Executable
    then Some (directory @ entry_path s e) else engine"
  from Cons.IH [of ?engine] Cons.prems se verify_entry_complete [OF assms(1)] show ?case
    by (auto split: if_splits)
qed simp

section \<open>What a loaded layout is\<close>

definition ancestors_ok :: "installation \<Rightarrow> (path \<Rightarrow> node option) \<Rightarrow> path \<Rightarrow> bool" where
  "ancestors_ok inst f p \<longleftrightarrow> (in_strict_ancestors inst \<longrightarrow> list_all (trusted_node 0 f) (ancestors p))"

definition broker_ok :: "install_api \<Rightarrow> installation \<Rightarrow> string \<Rightarrow> (path \<Rightarrow> node option) \<Rightarrow> broker_policy \<Rightarrow> bool" where
  "broker_ok api inst hash f broker \<longleftrightarrow>
     bp_manifest_sha256 broker = hash \<and> fst (bp_executable broker)
     \<and> trusted_node (in_owner inst) f (snd (bp_executable broker)) \<and> ancestors_ok inst f (snd (bp_executable broker))
     \<and> (\<exists>bs. regular f (snd (bp_executable broker)) bs \<and> digest api bs = bp_sha256 broker)"

definition layout_of ::
  "install_api \<Rightarrow> installation \<Rightarrow> runtime_slot \<Rightarrow> (path \<Rightarrow> node option) \<Rightarrow> verified_layout \<Rightarrow> bool" where
  "layout_of api inst slot f l \<longleftrightarrow>
     (\<exists>g bs sig v selected policy s e.
        regular f (pointer_path inst) g \<and> valid_generation g \<and> vl_directory l = releases_dir inst @ [g]
        \<and> ancestors_ok inst f (in_root inst)
        \<and> list_all (trusted_node (in_owner inst) f)
            ([in_root inst, pointer_path inst, releases_dir inst, vl_directory l]
             @ map (\<lambda>name. vl_directory l @ [name]) [MANIFEST_NAME, SIGNATURE_NAME, POLICY_NAME])
        \<and> regular f (vl_directory l @ [MANIFEST_NAME]) bs \<and> length bs \<le> 1024 * 1024
        \<and> regular f (vl_directory l @ [SIGNATURE_NAME]) sig \<and> length sig \<le> 64
        \<and> verify_container_manifest (ia_manifest api) (container_from_slice api) (container_to_value api)
            bs sig (in_key inst) (in_platform inst) (in_architecture inst) = Ok v
        \<and> list_all (\<lambda>(s, e). entry_ok api inst f (vl_directory l) s e) (release_entries (vc_manifest v))
        \<and> vc_selected v slot = Some selected
        \<and> (s, e) \<in> set (release_entries (vc_manifest v)) \<and> rs_slot s = slot
        \<and> rf_path e = engine_name inst \<and> rf_role e = Executable \<and> vl_engine l = vl_directory l @ entry_path s e
        \<and> regular f (vl_directory l @ [POLICY_NAME]) policy \<and> length policy \<le> 8192
        \<and> policy_from_slice api policy = Some (vl_broker l) \<and> broker_ok api inst (digest api bs) f (vl_broker l)
        \<and> vl_identity l = identity_for v (digest api bs) slot selected)"

lemma trusted_all_Ok:
  "trusted_all owner ps w = (Ok u, w') \<Longrightarrow> list_all (trusted_node owner (nodes w)) ps \<and> nodes w' = nodes w"
proof (induction ps arbitrary: w)
  case (Cons p ps)
  then obtain x v where "trusted p owner w = (Ok x, v)" "trusted_all owner ps v = (Ok u, w')"
    by (auto simp: bind_io_eq_Ok_iff)
  with trusted_Ok [of p owner w x v] Cons.IH [of v] show ?case by auto
qed simp

lemma trusted_ancestors_Ok:
  "trusted_ancestors inst p w = (Ok u, w') \<Longrightarrow> ancestors_ok inst (nodes w) p \<and> nodes w' = nodes w"
  using trusted_all_Ok by (auto simp: trusted_ancestors_def ancestors_ok_def split: if_splits)

lemma check_broker_Ok:
  assumes "check_broker api inst hash broker w = (Ok u, w')"
  shows "broker_ok api inst hash (nodes w) broker \<and> nodes w' = nodes w"
proof -
  from assms obtain a w1 b w2 d where c: "bp_manifest_sha256 broker = hash" "fst (bp_executable broker)"
    and t: "trusted (snd (bp_executable broker)) (in_owner inst) w = (Ok a, w1)"
    and an: "trusted_ancestors inst (snd (bp_executable broker)) w1 = (Ok b, w2)"
    and d: "file_digest api (snd (bp_executable broker)) w2 = (Ok d, w')" "d = bp_sha256 broker"
    by (auto simp: check_broker_def bind_io_eq_Ok_iff split: if_splits)
  from trusted_Ok [OF t] trusted_ancestors_Ok [OF an] file_digest_Ok [OF d(1)] c d(2)
  show ?thesis by (auto simp: broker_ok_def)
qed

lemma read_pointer_Ok:
  "read_pointer inst w = (Ok g, w') \<Longrightarrow> regular (nodes w) (pointer_path inst) g \<and> valid_generation g \<and> nodes w' = nodes w"
  using read_bounded_Ok by (fastforce simp: read_pointer_def bind_io_eq_Ok_iff split: if_splits)

text \<open>The calls of a \<^verbatim>\<open>load_slot\<close> that succeeds, none of which changes a node.\<close>

lemma load_slot_start:
  assumes "load_slot api inst slot w = (Ok l, w')"
  obtains g w4 where "regular (nodes w) (pointer_path inst) g" "valid_generation g" "nodes w4 = nodes w"
    "ancestors_ok inst (nodes w) (in_root inst)"
    "trusted_node (in_owner inst) (nodes w) (in_root inst)" "trusted_node (in_owner inst) (nodes w) (pointer_path inst)"
    "vl_directory l = releases_dir inst @ [g]"
    "\<exists>d w5 e w6 f w7 v hash w8 w9 bs w10 h selected.
      trusted (releases_dir inst) (in_owner inst) w4 = (Ok d, w5)
      \<and> trusted (vl_directory l) (in_owner inst) w5 = (Ok e, w6)
      \<and> trusted_all (in_owner inst) (map (\<lambda>name. vl_directory l @ [name])
          [MANIFEST_NAME, SIGNATURE_NAME, POLICY_NAME]) w6 = (Ok f, w7)
      \<and> verified_manifest api inst (vl_directory l) w7 = (Ok (v, hash), w8)
      \<and> verify_slot_files api inst (vl_directory l) v slot w8 = (Ok (vl_engine l), w9)
      \<and> read_bounded (vl_directory l @ [POLICY_NAME]) 8192 w9 = (Ok bs, w10)
      \<and> policy_from_slice api bs = Some (vl_broker l)
      \<and> check_broker api inst hash (vl_broker l) w10 = (Ok h, w')
      \<and> vc_selected v slot = Some selected \<and> vl_identity l = identity_for v hash slot selected"
proof -
  from assms obtain a w1 b w2 c w3 g w4 where
    1: "trusted_ancestors inst (in_root inst) w = (Ok a, w1)"
      "trusted (in_root inst) (in_owner inst) w1 = (Ok b, w2)"
      "trusted (pointer_path inst) (in_owner inst) w2 = (Ok c, w3)" "read_pointer inst w3 = (Ok g, w4)"
    and 2: "vl_directory l = releases_dir inst @ [g]"
    "\<exists>d w5 e w6 f w7 v hash w8 w9 bs w10 h selected.
      trusted (releases_dir inst) (in_owner inst) w4 = (Ok d, w5)
      \<and> trusted (vl_directory l) (in_owner inst) w5 = (Ok e, w6)
      \<and> trusted_all (in_owner inst) (map (\<lambda>name. vl_directory l @ [name])
          [MANIFEST_NAME, SIGNATURE_NAME, POLICY_NAME]) w6 = (Ok f, w7)
      \<and> verified_manifest api inst (vl_directory l) w7 = (Ok (v, hash), w8)
      \<and> verify_slot_files api inst (vl_directory l) v slot w8 = (Ok (vl_engine l), w9)
      \<and> read_bounded (vl_directory l @ [POLICY_NAME]) 8192 w9 = (Ok bs, w10)
      \<and> policy_from_slice api bs = Some (vl_broker l)
      \<and> check_broker api inst hash (vl_broker l) w10 = (Ok h, w')
      \<and> vc_selected v slot = Some selected \<and> vl_identity l = identity_for v hash slot selected"
    by (auto simp: load_slot_def Let_def bind_io_eq_Ok_iff and_then_eq_Inr_iff ok_or_eq_Inr_iff
        split: option.splits)
  note f = trusted_ancestors_Ok [OF 1(1)] trusted_Ok [OF 1(2)] trusted_Ok [OF 1(3)] read_pointer_Ok [OF 1(4)]
  show ?thesis by (rule that [OF _ _ _ _ _ _ 2]) (use f in simp_all)
qed

lemma load_slot_layout:
  assumes "load_slot api inst slot w = (Ok l, w')"
  shows "layout_of api inst slot (nodes w) l"
proof -
  let ?d = "vl_directory l"
  from assms obtain g w4 d w5 e w6 f w7 v hash w8 w9 bs w10 h selected where
    1: "regular (nodes w) (pointer_path inst) g" "valid_generation g" "nodes w4 = nodes w"
      "ancestors_ok inst (nodes w) (in_root inst)" "trusted_node (in_owner inst) (nodes w) (in_root inst)"
      "trusted_node (in_owner inst) (nodes w) (pointer_path inst)" "?d = releases_dir inst @ [g]"
    and 2: "trusted (releases_dir inst) (in_owner inst) w4 = (Ok d, w5)" "trusted ?d (in_owner inst) w5 = (Ok e, w6)"
      "trusted_all (in_owner inst) (map (\<lambda>name. ?d @ [name]) [MANIFEST_NAME, SIGNATURE_NAME, POLICY_NAME]) w6 = (Ok f, w7)"
    and 3: "verified_manifest api inst ?d w7 = (Ok (v, hash), w8)" "verify_slot_files api inst ?d v slot w8 = (Ok (vl_engine l), w9)"
    and 4: "read_bounded (?d @ [POLICY_NAME]) 8192 w9 = (Ok bs, w10)" "policy_from_slice api bs = Some (vl_broker l)"
      "check_broker api inst hash (vl_broker l) w10 = (Ok h, w')"
    and 5: "vc_selected v slot = Some selected" "vl_identity l = identity_for v hash slot selected"
    by (elim load_slot_start exE conjE) blast
  note f2 = trusted_Ok [OF 2(1)] trusted_Ok [OF 2(2)] trusted_all_Ok [OF 2(3)]
  note f3 = verified_manifest_Ok [OF 3(1)] verify_slot_files_Ok [OF 3(2)]
  note f4 = read_bounded_Ok [OF 4(1)] check_broker_Ok [OF 4(3)]
  have same: "nodes w5 = nodes w" "nodes w6 = nodes w" "nodes w7 = nodes w" "nodes w8 = nodes w" "nodes w9 = nodes w"
    "nodes w10 = nodes w"
    using 1(3) f2 f3(1) conjunct1 [OF conjunct2 [OF f3(2)]] f4(1) by auto
  from f3 obtain mbs sig s e where m: "regular (nodes w) (?d @ [MANIFEST_NAME]) mbs" "length mbs \<le> 1024 * 1024"
    "regular (nodes w) (?d @ [SIGNATURE_NAME]) sig" "length sig \<le> 64" "hash = digest api mbs"
    "verify_container_manifest (ia_manifest api) (container_from_slice api) (container_to_value api)
         mbs sig (in_key inst) (in_platform inst) (in_architecture inst) = Ok v"
    and se: "(s, e) \<in> set (release_entries (vc_manifest v))" "vl_engine l = ?d @ entry_path s e"
    "rs_slot s = slot" "rf_path e = engine_name inst" "rf_role e = Executable" using same by auto
  show ?thesis
    unfolding layout_of_def
    by (rule exI [of _ g], rule exI [of _ mbs], rule exI [of _ sig], rule exI [of _ v], rule exI [of _ selected],
        rule exI [of _ bs], rule exI [of _ s], rule exI [of _ e])
      (use 1 f2 f3(2) f4 same m se 4(2) 5 in simp)
qed

lemma trusted_ancestors_complete:
  "faults w = [] \<Longrightarrow> ancestors_ok inst (nodes w) p \<Longrightarrow> trusted_ancestors inst p w = (Ok (), w)"
  by (simp add: trusted_ancestors_def ancestors_ok_def trusted_all_complete)

lemma check_broker_complete:
  assumes "faults w = []" and "broker_ok api inst hash (nodes w) broker"
  shows "check_broker api inst hash broker w = (Ok (), w)"
proof -
  obtain bs where "regular (nodes w) (snd (bp_executable broker)) bs" "digest api bs = bp_sha256 broker"
    using assms(2) by (auto simp: broker_ok_def)
  then show ?thesis
    using assms file_digest_complete [OF assms(1)]
    by (simp add: check_broker_def broker_ok_def trusted_complete trusted_ancestors_complete)
qed

lemma load_slot_complete:
  assumes nf: "faults w = []" and "layout_of api inst slot (nodes w) l"
  shows "\<exists>l. load_slot api inst slot w = (Ok l, w)"
proof -
  from assms(2) obtain g bs sig v selected policy s e where
    1: "regular (nodes w) (pointer_path inst) g" "valid_generation g" "vl_directory l = releases_dir inst @ [g]"
      "ancestors_ok inst (nodes w) (in_root inst)"
    and 2: "list_all (trusted_node (in_owner inst) (nodes w))
            ([in_root inst, pointer_path inst, releases_dir inst, vl_directory l]
             @ map (\<lambda>name. vl_directory l @ [name]) [MANIFEST_NAME, SIGNATURE_NAME, POLICY_NAME])"
    and 3: "regular (nodes w) (vl_directory l @ [MANIFEST_NAME]) bs" "length bs \<le> 1024 * 1024"
      "regular (nodes w) (vl_directory l @ [SIGNATURE_NAME]) sig" "length sig \<le> 64"
      "verify_container_manifest (ia_manifest api) (container_from_slice api) (container_to_value api)
         bs sig (in_key inst) (in_platform inst) (in_architecture inst) = Ok v"
    and 4: "list_all (\<lambda>(s, e). entry_ok api inst (nodes w) (vl_directory l) s e) (release_entries (vc_manifest v))"
      "vc_selected v slot = Some selected" "(s, e) \<in> set (release_entries (vc_manifest v))" "rs_slot s = slot"
      "rf_path e = engine_name inst" "rf_role e = Executable"
    and 5: "regular (nodes w) (vl_directory l @ [POLICY_NAME]) policy" "length policy \<le> 8192"
      "policy_from_slice api policy = Some (vl_broker l)" "broker_ok api inst (digest api bs) (nodes w) (vl_broker l)"
    by (auto simp: layout_of_def)
  have "length g \<le> 96" using 1(2) by (simp add: valid_generation_def)
  then have "read_pointer inst w = (Ok g, w)"
    using read_bounded_complete [OF nf 1(1)] 1(2) by (simp add: read_pointer_def)
  moreover have "verified_manifest api inst (vl_directory l) w = (Ok (v, digest api bs), w)"
    using read_bounded_complete [OF nf 3(1,2)] read_bounded_complete [OF nf 3(3,4)] 3(5)
    by (simp add: verified_manifest_def)
  moreover obtain engine where "verify_slot_files api inst (vl_directory l) v slot w = (Ok engine, w)"
    using verify_entries_complete [OF nf 4(1), of slot None] 4(2-6)
    by (fastforce simp: verify_slot_files_def)
  moreover have "trusted_all (in_owner inst) (map (\<lambda>name. vl_directory l @ [name])
      [MANIFEST_NAME, SIGNATURE_NAME, POLICY_NAME]) w = (Ok (), w)"
    by (rule trusted_all_complete [OF nf]) (use 2 in simp)
  moreover note read_bounded_complete [OF nf 5(1,2)] check_broker_complete [OF nf 5(4)]
    trusted_ancestors_complete [OF nf 1(4)]
  moreover have "trusted p (in_owner inst) w = (Ok (), w)"
    if "p \<in> {in_root inst, pointer_path inst, releases_dir inst, vl_directory l}" for p
    using trusted_complete [OF nf] 2 that by auto
  ultimately show ?thesis
    using 1(3) 4(2) 5(3) by (simp add: load_slot_def Let_def del: list.map)
qed

section \<open>Any sequence of installations\<close>

text \<open>The operations that change an installation, each with the answers of the operating system and the
  faults it meets.\<close>

datatype install_op =
  Install os_env "nat option list" "nat option" path path string
| Rollback os_env "nat option list" string "string option"
| Collect os_env "nat option list" path

definition fs_with_faults :: "nat option list \<Rightarrow> fs \<Rightarrow> fs" where
  "fs_with_faults fs w = w\<lparr>faults := fs\<rparr>"

fun install_step :: "install_api \<Rightarrow> installation \<Rightarrow> fs \<Rightarrow> install_op \<Rightarrow> fs" where
  "install_step api inst w (Install env fs now source broker owner) =
     snd (install api env inst (real_install_io env) now source broker owner (fs_with_faults fs w))"
| "install_step api inst w (Rollback env fs published previous) =
     snd (rollback_activation api env inst published previous (fs_with_faults fs w))"
| "install_step api inst w (Collect env fs own) =
     snd (cleanup_previous api env inst own (fs_with_faults fs w))"

lemma install_step_inv: "pointer_inv api inst w \<Longrightarrow> pointer_inv api inst (install_step api inst w x)"
proof -
  assume inv: "pointer_inv api inst w"
  have inv': "pointer_inv api inst (fs_with_faults fs w)" for fs
    by (rule pointer_inv_nodes [OF inv]) (simp add: fs_with_faults_def)
  show ?thesis
  proof (cases x)
    case (Install env fs now source broker owner)
    then show ?thesis
      using real.install_pointer_inv [OF inv'] by (simp add: real_install_io_def) (metis prod.collapse)
  next
    case (Rollback env fs published previous)
    then show ?thesis using rollback_activation_inv [OF inv'] by simp (metis prod.collapse)
  next
    case (Collect env fs own)
    then show ?thesis using cleanup_previous_inv [OF inv'] by simp (metis prod.collapse)
  qed
qed

text \<open>A machine on which nothing is installed.\<close>

definition empty_fs :: fs where
  "empty_fs = \<lparr>nodes = Map.empty, euid = 0, faults = []\<rparr>"

interpretation installs: state_machine empty_fs "install_step api inst" "pointer_inv api inst" for api inst
proof
  show "pointer_inv api inst empty_fs" by (auto simp: pointer_inv_def releases_good_def pointer_in_def empty_fs_def)
qed (rule install_step_inv)

definition pointer_complete :: "install_api \<Rightarrow> installation \<Rightarrow> (path \<Rightarrow> node option) \<Rightarrow> bool" where
  "pointer_complete api inst f \<longleftrightarrow>
     f (pointer_path inst) = None
     \<or> (\<exists>g. regular f (pointer_path inst) g \<and> plain_generation g \<and> release_ok api inst f (releases_dir inst @ [g]))"

lemma pointer_inv_iff: "pointer_inv api inst w \<longleftrightarrow> pointer_complete api inst (nodes w)"
proof
  assume "pointer_inv api inst w"
  then show "pointer_complete api inst (nodes w)"
    by (auto simp: pointer_inv_def releases_good_def pointer_in_def pointer_complete_def)
next
  assume r: "pointer_complete api inst (nodes w)"
  show "pointer_inv api inst w"
  proof (cases "nodes w (pointer_path inst) = None")
    case True
    then show ?thesis by (auto simp: pointer_inv_def releases_good_def pointer_in_def intro: exI [of _ "{}"])
  next
    case False
    then obtain g where "regular (nodes w) (pointer_path inst) g" "plain_generation g"
      "release_ok api inst (nodes w) (releases_dir inst @ [g])"
      using r by (auto simp: pointer_complete_def)
    then show ?thesis by (auto simp: pointer_inv_def releases_good_def pointer_in_def intro!: exI [of _ "{g}"])
  qed
qed

lemma layout_of_pointer_complete:
  assumes "layout_of api inst slot f l"
  shows "pointer_complete api inst f"
proof -
  from assms obtain g bs sig v where 1: "regular f (pointer_path inst) g" "valid_generation g"
    "\<exists>n. f (releases_dir inst @ [g]) = Some n"
    "regular f (releases_dir inst @ [g, MANIFEST_NAME]) bs" "regular f (releases_dir inst @ [g, SIGNATURE_NAME]) sig"
    and 2: "verify_container_manifest (ia_manifest api) (container_from_slice api) (container_to_value api)
       bs sig (in_key inst) (in_platform inst) (in_architecture inst) = Ok v"
    "list_all (\<lambda>(s, e). entry_ok api inst f (releases_dir inst @ [g]) s e) (release_entries (vc_manifest v))"
    unfolding layout_of_def trusted_node_def by (elim exE conjE, simp) blast
  then have "release_ok api inst f (releases_dir inst @ [g])"
    unfolding release_ok_def by auto
  with 1(1,2) show ?thesis using valid_generation_plain by (auto simp: pointer_complete_def)
qed

section \<open>A machine for the witnesses\<close>

definition s_file :: runtime_file_v1 where
  "s_file = \<lparr>rf_path = ''nelomai-unix-service'', rf_size_bytes = 7,
     rf_sha256 = hex_string (replicate 32 7), rf_role = Executable\<rparr>"

definition s_artifact :: runtime_artifact_manifest_v1 where
  "s_artifact = sample_artifact\<lparr>ra_files := [s_file]\<rparr>"

definition s_container :: container_manifest_v1 where
  "s_container = sample_container\<lparr>cm_slots := [\<lparr>rs_slot = Latest, rs_manifest = s_artifact\<rparr>]\<rparr>"

definition s_api :: install_api where
  "s_api = \<lparr>ia_manifest = sample_manifest_api,
     container_from_slice = (\<lambda>bs. if bs = sample_bytes then Some s_container else None),
     container_to_value = sample_container_value,
     policy_to_vec = (\<lambda>p. Some (bp_owner p)),
     policy_from_slice = (\<lambda>bs. Some \<lparr>bp_owner = bs, bp_executable = (True, [''b'']),
        bp_sha256 = hex_string (replicate 32 2), bp_manifest_sha256 = sha256_hex sample_manifest_api sample_bytes\<rparr>)\<rparr>"

definition s_node :: "node_kind \<Rightarrow> node" where
  "s_node k = \<lparr>nd_kind = k, nd_uid = 0, nd_mode = 0x1ED\<rparr>"

definition s_fs :: fs where
  "s_fs = \<lparr>nodes = map_of
     ([([], s_node DirectoryNode), ([''b''], s_node (RegularFile ''bb'')),
      ([''s''], s_node DirectoryNode),
      ([''s'', MANIFEST_NAME], s_node (RegularFile sample_bytes)),
      ([''s'', SIGNATURE_NAME], s_node (RegularFile sample_signature)),
      ([''s'', ''engines''], s_node DirectoryNode),
      ([''s'', ''engines'', ''latest''], s_node DirectoryNode),
      ([''s'', ''engines'', ''latest'', ''1.2.3-a''], s_node DirectoryNode),
      ([''s'', ''engines'', ''latest'', ''1.2.3-a'', ''nelomai-unix-service''], s_node (RegularFile ''1234567''))]),
     euid = 0, faults = []\<rparr>"

definition s_env :: os_env where
  "s_env = \<lparr>new_dir_mode = 0x1ED, new_file_mode = 0x1A4, link_target = (\<lambda>_. None), lock_held = (\<lambda>_. False),
     dir_entries = (\<lambda>_ _. [])\<rparr>"

definition s_inst :: installation where
  "s_inst = for_owner [''r''] sample_key ''linux'' ''x86_64'' 0"

definition s_generation :: string where
  "s_generation = digest s_api sample_bytes @ ''-5''"

definition s_installed :: fs where
  "s_installed = \<lparr>nodes = map_of
     (([], s_node DirectoryNode) # ([''b''], s_node (RegularFile ''bb'')) # ([''r''], s_node DirectoryNode)
      # ([''r'', POINTER_NAME], s_node (RegularFile s_generation)) # ([''r'', ''releases''], s_node DirectoryNode)
      # map (\<lambda>(p, n). ([''r'', ''releases'', s_generation] @ p, n))
        [([], s_node DirectoryNode),
         ([MANIFEST_NAME], s_node (RegularFile sample_bytes)),
         ([SIGNATURE_NAME], s_node (RegularFile sample_signature)),
         ([POLICY_NAME], s_node (RegularFile ''owner'')),
         ([''engines''], s_node DirectoryNode), ([''engines'', ''latest''], s_node DirectoryNode),
         ([''engines'', ''latest'', ''1.2.3-a''], s_node DirectoryNode),
         ([''engines'', ''latest'', ''1.2.3-a'', ''nelomai-unix-service''], s_node (RegularFile ''1234567''))]),
     euid = 0, faults = []\<rparr>"

definition s_verified :: verified_container_manifest where
  "s_verified = \<lparr>vc_manifest = s_container, vc_latest_index = 0, vc_stable_index = None\<rparr>"

definition s_layout :: verified_layout where
  "s_layout = \<lparr>vl_directory = [''r'', ''releases'', s_generation],
     vl_identity = identity_for s_verified (digest s_api sample_bytes) Latest s_artifact,
     vl_broker = the (policy_from_slice s_api ''owner''),
     vl_engine = [''r'', ''releases'', s_generation, ''engines'', ''latest'', ''1.2.3-a'', ''nelomai-unix-service'']\<rparr>"

lemma s_hash_valid: "valid_sha256 (hex_string (replicate 32 7))"
  by code_simp

lemma s_artifact_valid: "validate_artifact sample_manifest_api s_artifact ''linux'' ''x86_64'' = Ok ()"
  by (simp add: validate_artifact_def s_artifact_def s_file_def sample_artifact_def sample_manifest_api_def
      FORMAT_VERSION_V1_def COMPILED_RUNTIME_CONTRACT_VERSION_def MAX_RUNTIME_FILES_def
      validate_runtime_version_def MAX_RUNTIME_VERSION_BYTES_def str_is_ascii_def
      version_component_def version_suffix_def validate_source_commit_def validate_text_def
      MAX_STRING_BYTES_def lower_hex_def ascii_class_defs portable_path_alias_def
      starts_with_char_def segment_alias_def forbidden_segment_def reserved_alias_def Let_def
      to_ascii_lowercase_def ascii_lower_def list_all_replicate s_hash_valid)

lemma s_verifies:
  "verify_container_manifest (ia_manifest s_api) (container_from_slice s_api) (container_to_value s_api)
     sample_bytes sample_signature (in_key s_inst) (in_platform s_inst) (in_architecture s_inst) = Ok s_verified"
proof -
  have sig: "verify_signature_first sample_manifest_api sample_bytes sample_signature sample_key
      CONTAINER_MANIFEST_SIGNATURE_DOMAIN = Ok ()"
    by (simp add: verify_signature_first_def sample_manifest_api_def sample_signature_def
        sample_key_def CONTAINER_MANIFEST_SIGNATURE_DOMAIN_def signed_message_def
        MAX_MANIFEST_BYTES_def sample_bytes_def sample_container_value_def sample_container_def
        sort_by_key_def)
  have "sample_container_value s_container = Some (the (sample_container_value sample_container))"
    by (simp add: sample_container_value_def s_container_def)
  then have parse: "parse_canonical sample_manifest_api (\<lambda>bs. if bs = sample_bytes then Some s_container else None)
      sample_container_value sample_bytes = Ok s_container"
    by (simp add: parse_canonical_def sample_bytes_def)
  have "validate_container sample_manifest_api s_container ''linux'' ''x86_64'' = Ok s_verified"
    using s_artifact_valid
    by (simp add: s_verified_def validate_container_def s_container_def sample_container_def FORMAT_VERSION_V1_def
        COMPILED_RUNTIME_CONTRACT_VERSION_def validate_runtime_version_def version_component_def
        MAX_RUNTIME_VERSION_BYTES_def str_is_ascii_def ascii_class_defs validate_text_def
        MAX_STRING_BYTES_def stable_digests_ok_def)
  with sig parse show ?thesis
    by (simp add: verify_container_manifest_def s_api_def s_inst_def for_owner_def)
qed

lemma s_digest: "digest s_api bs = hex_string (replicate 32 (of_nat (length bs)))"
  by (simp add: digest_def s_api_def sha256_hex_def sample_manifest_api_def)

lemma s_length: "length sample_bytes = 50"
  by (simp add: sample_bytes_def sample_container_value_def sample_container_def sort_by_key_def sample_manifest_api_def)

lemma s_generation_valid: "valid_generation s_generation"
proof -
  have "s_generation = hex_string (replicate 32 50) @ ''-5''" by (simp add: s_generation_def s_digest s_length)
  moreover have "valid_generation (hex_string (replicate 32 50) @ ''-5'')" by code_simp
  ultimately show ?thesis by simp
qed

lemma s_nodes:
  "nodes s_installed [''r''] = Some (s_node DirectoryNode)"
  "nodes s_installed [''b''] = Some (s_node (RegularFile ''bb''))"
  "nodes s_installed [''r'', POINTER_NAME] = Some (s_node (RegularFile s_generation))"
  "nodes s_installed [''r'', ''releases''] = Some (s_node DirectoryNode)"
  "nodes s_installed [''r'', ''releases'', s_generation] = Some (s_node DirectoryNode)"
  "nodes s_installed [''r'', ''releases'', s_generation, MANIFEST_NAME] = Some (s_node (RegularFile sample_bytes))"
  "nodes s_installed [''r'', ''releases'', s_generation, SIGNATURE_NAME] = Some (s_node (RegularFile sample_signature))"
  "nodes s_installed [''r'', ''releases'', s_generation, POLICY_NAME] = Some (s_node (RegularFile ''owner''))"
  "nodes s_installed [''r'', ''releases'', s_generation, ''engines''] = Some (s_node DirectoryNode)"
  "nodes s_installed [''r'', ''releases'', s_generation, ''engines'', ''latest''] = Some (s_node DirectoryNode)"
  "nodes s_installed [''r'', ''releases'', s_generation, ''engines'', ''latest'', ''1.2.3-a''] = Some (s_node DirectoryNode)"
  "nodes s_installed [''r'', ''releases'', s_generation, ''engines'', ''latest'', ''1.2.3-a'', ''nelomai-unix-service'']
     = Some (s_node (RegularFile ''1234567''))"
  by (simp_all add: s_installed_def MANIFEST_NAME_def SIGNATURE_NAME_def POLICY_NAME_def POINTER_NAME_def)

lemma s_trusted: "f p = Some (s_node k) \<Longrightarrow> \<not> is_symlink k \<Longrightarrow> trusted_node 0 f p"
  by (simp add: trusted_node_def s_node_def writable_by_others_def)

lemma s_regular: "f p = Some (s_node (RegularFile bs)) \<Longrightarrow> regular f p bs"
  by (simp add: regular_def s_node_def)

lemma s_entry:
  "release_entries s_container = [(\<lparr>rs_slot = Latest, rs_manifest = s_artifact\<rparr>, s_file)]"
  "entry_path \<lparr>rs_slot = Latest, rs_manifest = s_artifact\<rparr> s_file =
     [''engines'', ''latest'', ''1.2.3-a'', ''nelomai-unix-service'']"
  "digest s_api ''1234567'' = rf_sha256 s_file" "digest s_api ''bb'' = hex_string (replicate 32 2)"
  "unat (rf_size_bytes s_file) = 7"
  by (simp_all add: release_entries_def s_container_def s_artifact_def entry_path_def s_file_def
      sample_artifact_def s_digest)

lemma s_entry_ok: "entry_ok s_api s_inst (nodes s_installed) (vl_directory s_layout)
    \<lparr>rs_slot = Latest, rs_manifest = s_artifact\<rparr> s_file"
proof -
  have "trusted_node 0 (nodes s_installed) ([''r'', ''releases'', s_generation] @ 
      take (Suc n) [''engines'', ''latest'', ''1.2.3-a'', ''nelomai-unix-service''])" if "n < 4" for n
  proof -
    from that have "n \<in> {0, 1, 2, 3}" by auto
    then show ?thesis by (elim insertE emptyE) (simp_all add: s_trusted s_nodes)
  qed
  moreover have "regular (nodes s_installed) [''r'', ''releases'', s_generation, ''engines'', ''latest'', ''1.2.3-a'', ''nelomai-unix-service''] ''1234567''"
    by (rule s_regular) (rule s_nodes)
  moreover have "length ''1234567'' = 7" by simp
  ultimately show ?thesis
    unfolding entry_ok_def s_entry using s_entry(3) by (fastforce simp: s_layout_def s_inst_def for_owner_def)
qed

lemma s_inst_simps:
  "in_root s_inst = [''r'']" "in_owner s_inst = 0" "pointer_path s_inst = [''r'', POINTER_NAME]"
  "releases_dir s_inst = [''r'', ''releases'']" "engine_name s_inst = ''nelomai-unix-service''"
  "ancestors_ok s_inst f p"
  by (simp_all add: s_inst_def for_owner_def pointer_path_def releases_dir_def engine_name_def ancestors_ok_def)

lemma s_layout_simps:
  "vl_directory s_layout = [''r'', ''releases'', s_generation]"
  "vl_engine s_layout =
     [''r'', ''releases'', s_generation, ''engines'', ''latest'', ''1.2.3-a'', ''nelomai-unix-service'']"
  "vl_identity s_layout = identity_for s_verified (digest s_api sample_bytes) Latest s_artifact"
  "policy_from_slice s_api ''owner'' = Some (vl_broker s_layout)"
  "vc_manifest s_verified = s_container" "vc_latest s_verified = s_artifact"
  "rf_path s_file = ''nelomai-unix-service''" "rf_role s_file = Executable"
  by (simp_all add: s_layout_def s_api_def s_verified_def vc_latest_def s_container_def s_file_def)

lemma s_layout: "layout_of s_api s_inst Latest (nodes s_installed) s_layout"
proof -
  have b: "broker_ok s_api s_inst (digest s_api sample_bytes) (nodes s_installed) (vl_broker s_layout)"
    using s_regular [of "nodes s_installed" "[''b'']"] s_entry(4) s_trusted [of "nodes s_installed" "[''b'']"] s_nodes(2)
    by (auto simp: broker_ok_def s_inst_simps s_layout_def s_api_def digest_def)
  have g: "length sample_signature = 64" by (simp add: sample_signature_def)
  show ?thesis
    unfolding layout_of_def
    by (rule exI [of _ s_generation], rule exI [of _ sample_bytes], rule exI [of _ sample_signature],
        rule exI [of _ s_verified], rule exI [of _ s_artifact], rule exI [of _ "''owner''"],
        rule exI [of _ "\<lparr>rs_slot = Latest, rs_manifest = s_artifact\<rparr>"], rule exI [of _ s_file])
      (use b g s_entry_ok s_regular [of "nodes s_installed"] in \<open>simp add: s_nodes s_trusted s_verifies s_entry s_generation_valid s_inst_simps s_layout_simps
        s_length\<close>)
qed

text \<open>C31: Loading a slot of the active release succeeds exactly on a complete installation.  Every layout
  it returns is one: the pointer is a regular file that names a release directory of this
  installation; the root, the pointer, the release and its manifest, signature and broker policy
  belong to the owner and only the owner can write them; the manifest is signed with the pinned key;
  every file it lists is there with its size and digest; the engine is the executable of the slot;
  and the broker is the pinned executable, with the digest of the policy.  And where the operating
  system reports no error, every such installation loads.\<close>

theorem load_slot_exact:
  "(\<forall>l w'. load_slot api inst slot w = (Ok l, w') \<longrightarrow> layout_of api inst slot (nodes w) l)
   \<and> (faults w = [] \<longrightarrow> (is_ok (fst (load_slot api inst slot w)) \<longleftrightarrow> (\<exists>l. layout_of api inst slot (nodes w) l)))"
proof (intro conjI allI impI)
  show "layout_of api inst slot (nodes w) l" if "load_slot api inst slot w = (Ok l, w')" for l w'
    using that by (rule load_slot_layout)
next
  assume "faults w = []"
  then show "is_ok (fst (load_slot api inst slot w)) \<longleftrightarrow> (\<exists>l. layout_of api inst slot (nodes w) l)"
    using load_slot_complete load_slot_layout by (metis fst_conv is_ok_iff prod.collapse)
qed

theorem load_slot_exact_witness:
  "is_ok (fst (load_slot s_api s_inst Latest s_installed))"
proof -
  have "faults s_installed = []" by (simp add: s_installed_def)
  then show ?thesis using load_slot_exact [of s_api s_inst Latest s_installed] s_layout by blast
qed

text \<open>C32: The pointer never names a broken release.  Start from a machine on which the active pointer
  is absent or names a complete release, one whose manifest is signed and whose files are all there
  with the listed sizes and digests.  Whatever sequence of installations, rollbacks and collections
  of old releases follows, with any failures of the operating system in any of them, the pointer is
  again absent or a regular file that names a complete release.\<close>

theorem pointer_names_complete_release:
  assumes "pointer_complete api inst (nodes w)"
  shows "pointer_complete api inst (nodes (run (install_step api inst) w xs))"
  using installs.inv_run_from [of api inst w xs] assms by (simp add: pointer_inv_iff)

theorem pointer_names_complete_release_witness:
  "pointer_complete s_api s_inst (nodes (run (install_step s_api s_inst) s_installed
     [Install s_env [None, None, Some 5] (Some 7) [''s''] [''b''] ''owner'',
      Rollback s_env [] s_generation None,
      Collect s_env [Some 13] [''r'']]))"
  by (rule pointer_names_complete_release) (rule layout_of_pointer_complete [OF s_layout])

end
