(* ===== verification/ProcessDispatcher.thy ===== *)
theory ProcessDispatcher
  imports Installation
begin

text \<open>
  The process dispatcher of \<^verbatim>\<open>crates/contracts/src/dispatcher.rs\<close> on Unix: the cache of broker
  authorizations, and \<^verbatim>\<open>ProcessDispatcher\<close>, which launches the engine of the verified installation,
  relays frames to it, and keeps the marker file \<^verbatim>\<open>engine-active\<close> until the engine acknowledges that it
  has stopped.

  The engine process, its pipes, its process group and the clock are the operating system's: a record
  of calls on a world \<open>'w\<close>.  The files are those of \<open>Rust_Fs\<close>.  serde is a parameter.
\<close>

section \<open>The authorization cache\<close>

record broker_file_identity =
  bi_length :: u64
  bi_modified :: "(u64 \<times> u32) option"
  bi_device :: u64
  bi_inode :: u64
  bi_changed :: "int \<times> int"
  bi_mode :: u32
  bi_owner :: "u32 \<times> u32"

text \<open>What \<^verbatim>\<open>File::metadata\<close> reports; the modification time in nanoseconds since the epoch, where the
  platform has one.\<close>

record file_metadata =
  md_len :: u64
  md_modified :: "(io_error, int) result"
  md_dev :: u64
  md_ino :: u64
  md_ctime :: int
  md_ctime_nsec :: int
  md_mode :: u32
  md_uid :: u32
  md_gid :: u32

definition broker_file_identity_of :: "file_metadata \<Rightarrow> broker_file_identity" where
  "broker_file_identity_of m =
     \<lparr>bi_length = md_len m,
      bi_modified =
        (case md_modified m of
           Err _ \<Rightarrow> None
         | Ok t \<Rightarrow>
             if t < 0 then None else Some (of_int (t div 1000000000), of_int (t mod 1000000000))),
      bi_device = md_dev m, bi_inode = md_ino m, bi_changed = (md_ctime m, md_ctime_nsec m),
      bi_mode = md_mode m, bi_owner = (md_uid m, md_gid m)\<rparr>"

record broker_authorization_cache =
  ac_verified :: "(broker_policy \<times> broker_file_identity) option"
  ac_full_digests :: u64

definition default_authorization_cache :: broker_authorization_cache where
  "default_authorization_cache = \<lparr>ac_verified = None, ac_full_digests = 0\<rparr>"

definition u64_saturating_add :: "u64 \<Rightarrow> u64 \<Rightarrow> u64" where
  "u64_saturating_add a b = (case u64_checked_add a b of None \<Rightarrow> - 1 | Some c \<Rightarrow> c)"

text \<open>What one call sees of the opened file: its metadata first, then the bytes it reads, then the metadata
  again.  Other processes may write the file in between.\<close>

record file_observation =
  ob_before :: "(io_error, file_metadata) result"
  ob_data :: "(io_error, bytes) result"
  ob_after :: "(io_error, file_metadata) result"

definition cache_authorize ::
  "install_api \<Rightarrow> file_observation \<Rightarrow> broker_policy \<Rightarrow> string \<Rightarrow> any_path \<Rightarrow>
   broker_authorization_cache \<times> fs \<Rightarrow> (io_error, unit) result \<times> broker_authorization_cache \<times> fs" where
  "cache_authorize api obs policy owner kernel_executable = (\<lambda>(c, w).
     if owner \<noteq> bp_owner policy \<or> kernel_executable \<noteq> bp_executable policy then (Err blocked, c, w)
     else
       (case open_regular (snd kernel_executable) w of
          (Err e, w) \<Rightarrow> (Err e, c, w)
        | (Ok _, w) \<Rightarrow>
            (case ob_before obs of
               Err e \<Rightarrow> (Err e, c, w)
             | Ok m \<Rightarrow>
                 (let before = broker_file_identity_of m in
                  if ac_verified c = Some (policy, before) then (Ok (), c, w)
                  else
                    (let c = c\<lparr>ac_full_digests := u64_saturating_add (ac_full_digests c) 1\<rparr> in
                     case ob_data obs of
                       Err e \<Rightarrow> (Err e, c, w)
                     | Ok data \<Rightarrow>
                         (case ob_after obs of
                            Err e \<Rightarrow> (Err e, c, w)
                          | Ok m' \<Rightarrow>
                              (let after = broker_file_identity_of m' in
                               if before \<noteq> after \<or> digest api data \<noteq> bp_sha256 policy
                               then (Err blocked, c\<lparr>ac_verified := None\<rparr>, w)
                               else (Ok (), c\<lparr>ac_verified := Some (policy, after)\<rparr>, w))))))))"

section \<open>The dispatcher and the host\<close>

datatype engine_primitive = StartWireguard | StartAmneziawg | StopServices | RebindService

text \<open>The JSON that travels to and from the engine.  \<open>value_flag body name\<close> is whether the value that
  \<open>body\<close> spells has the member \<open>name\<close> with the value \<^verbatim>\<open>true\<close>, and \<open>None\<close> when it is not JSON.\<close>

record dispatcher_json =
  identity_to_vec :: "engine_identity \<Rightarrow> bytes option"
  identity_from_slice :: "bytes \<Rightarrow> engine_identity option"
  control_to_vec :: "string \<Rightarrow> bytes option"
  primitive_ok_to_vec :: "bool \<Rightarrow> bytes option"
  primitive_from_slice :: "bytes \<Rightarrow> engine_primitive option"
  value_flag :: "bytes \<Rightarrow> string \<Rightarrow> bool option"

record engine_command =
  cmd_program :: path
  cmd_root :: path
  cmd_path :: string

text \<open>The calls on the engine process: \<open>try_wait\<close> answers whether it has exited, \<open>engine_stdout\<close> is what it
  still has to say, \<open>consume\<close> leaves the rest of it, and \<open>oversleep\<close> is by how much a sleep exceeds
  its duration.\<close>

record 'w engine_env =
  own_process_group :: "'w \<Rightarrow> (io_error, unit) result \<times> 'w"
  spawn_engine :: "engine_command \<Rightarrow> 'w \<Rightarrow> (io_error, unit) result \<times> 'w"
  try_wait :: "'w \<Rightarrow> (io_error, bool) result \<times> 'w"
  kill_child :: "'w \<Rightarrow> (io_error, unit) result \<times> 'w"
  wait_child :: "'w \<Rightarrow> (io_error, unit) result \<times> 'w"
  close_stdin :: "'w \<Rightarrow> 'w"
  release_group :: "'w \<Rightarrow> 'w"
  write_stdin :: "bytes \<Rightarrow> 'w \<Rightarrow> (io_error, unit) result \<times> 'w"
  flush_stdin :: "'w \<Rightarrow> (io_error, unit) result \<times> 'w"
  engine_stdout :: "'w \<Rightarrow> reader"
  consume :: "reader \<Rightarrow> 'w \<Rightarrow> 'w"
  run_primitive :: "engine_primitive \<Rightarrow> path \<Rightarrow> 'w \<Rightarrow> (io_error, unit) result \<times> 'w"
  oversleep :: "'w \<Rightarrow> nat"

text \<open>A monotonic clock in milliseconds.\<close>

record 'w host =
  ho_fs :: fs
  ho_clock :: nat
  ho_os :: 'w

text \<open>The child, where there is one, with whether its stdin is still open.\<close>

record 'w process_dispatcher =
  pd_installation :: installation
  pd_layout :: verified_layout
  pd_child :: "bool option"
  pd_tree_owner :: bool
  pd_channel_failed :: bool
  pd_broker_authorization :: broker_authorization_cache
  pd_host :: "'w host"

definition on_fs :: "(fs \<Rightarrow> 'a \<times> fs) \<Rightarrow> 'w process_dispatcher \<Rightarrow> 'a \<times> 'w process_dispatcher" where
  "on_fs f d =
     (case f (ho_fs (pd_host d)) of (r, w) \<Rightarrow> (r, d\<lparr>pd_host := (pd_host d)\<lparr>ho_fs := w\<rparr>\<rparr>))"

definition on_os :: "('w \<Rightarrow> 'a \<times> 'w) \<Rightarrow> 'w process_dispatcher \<Rightarrow> 'a \<times> 'w process_dispatcher" where
  "on_os f d =
     (case f (ho_os (pd_host d)) of (r, w) \<Rightarrow> (r, d\<lparr>pd_host := (pd_host d)\<lparr>ho_os := w\<rparr>\<rparr>))"

definition do_os :: "('w \<Rightarrow> 'w) \<Rightarrow> 'w process_dispatcher \<Rightarrow> 'w process_dispatcher" where
  "do_os f d = d\<lparr>pd_host := (pd_host d)\<lparr>ho_os := f (ho_os (pd_host d))\<rparr>\<rparr>"

definition pd_marker :: "'w process_dispatcher \<Rightarrow> path" where
  "pd_marker d = marker_path (pd_installation d)"

section \<open>Talking to the engine\<close>

definition write_engine ::
  "'w engine_env \<Rightarrow> bytes \<Rightarrow> 'w process_dispatcher \<Rightarrow> (io_error, unit) result \<times> 'w process_dispatcher" where
  "write_engine env frame d =
     bind_io (on_os (write_stdin env frame) d) (\<lambda>_ d. on_os (flush_stdin env) d)"

definition read_engine ::
  "'w engine_env \<Rightarrow> 'w process_dispatcher \<Rightarrow> (io_error, bytes) result \<times> 'w process_dispatcher" where
  "read_engine env d =
     on_os (\<lambda>w. case read_frame MAX_ENGINE_FRAME (engine_stdout env w) of (r, rest) \<Rightarrow> (r, consume env rest w)) d"

fun exchange_reads ::
  "dispatcher_json \<Rightarrow> 'w engine_env \<Rightarrow> nat \<Rightarrow> 'w process_dispatcher \<Rightarrow>
   (io_error, bytes) result \<times> 'w process_dispatcher" where
  "exchange_reads js env 0 d = (Err blocked, d)"
| "exchange_reads js env (Suc n) d =
     bind_io (read_engine env d) (\<lambda>response d.
     bind_io (frame_body response MAX_ENGINE_FRAME, d) (\<lambda>body d.
       case primitive_from_slice js body of
         None \<Rightarrow> (Ok response, d)
       | Some p \<Rightarrow>
           (let (result, d) = on_os (run_primitive env p (vl_engine (pd_layout d))) d in
            bind_io (encode_frame (primitive_ok_to_vec js (is_ok result)), d) (\<lambda>frame d.
            bind_io (write_engine env frame d) (\<lambda>_ d. exchange_reads js env n d)))))"

definition exchange_inner ::
  "dispatcher_json \<Rightarrow> 'w engine_env \<Rightarrow> bytes \<Rightarrow> 'w process_dispatcher \<Rightarrow>
   (io_error, bytes) result \<times> 'w process_dispatcher" where
  "exchange_inner js env frame d =
     (if pd_child d \<noteq> Some True then (Err blocked, d)
      else bind_io (write_engine env frame d) (\<lambda>_ d. exchange_reads js env 16 d))"

definition exchange ::
  "dispatcher_json \<Rightarrow> 'w engine_env \<Rightarrow> bytes \<Rightarrow> 'w process_dispatcher \<Rightarrow>
   (io_error, bytes) result \<times> 'w process_dispatcher" where
  "exchange js env frame d =
     (case exchange_inner js env frame d of
        (Err e, d) \<Rightarrow> (Err e, d\<lparr>pd_channel_failed := True\<rparr>)
      | (Ok response, d) \<Rightarrow> (Ok response, d))"

text \<open>The two control messages, \<^verbatim>\<open>ready\<close> and \<^verbatim>\<open>stop\<close>, and the member their answer has to carry.\<close>

definition engine_control ::
  "dispatcher_json \<Rightarrow> 'w engine_env \<Rightarrow> string \<Rightarrow> string \<Rightarrow> 'w process_dispatcher \<Rightarrow>
   (io_error, unit) result \<times> 'w process_dispatcher" where
  "engine_control js env control flag d =
     bind_io (encode_frame (control_to_vec js control), d) (\<lambda>frame d.
     bind_io (exchange js env frame d) (\<lambda>response d.
       (and_then (frame_body response MAX_ENGINE_FRAME) (\<lambda>body.
        and_then (ok_or blocked (value_flag js body flag)) (\<lambda>b.
          if b then Ok () else Err blocked)), d)))"

section \<open>Launching the engine\<close>

definition path_display :: "path \<Rightarrow> string" where
  "path_display p = (if p = [] then ''/'' else concat (map (\<lambda>c. ''/'' @ c) p))"

definition command_for :: "path \<Rightarrow> path \<Rightarrow> engine_command" where
  "command_for engine root =
     \<lparr>cmd_program = engine, cmd_root = root,
      cmd_path = path_display (butlast engine)
        @ '':/usr/local/sbin:/usr/local/bin:/usr/sbin:/usr/bin:/sbin:/bin''\<rparr>"

definition write_marker ::
  "dispatcher_json \<Rightarrow> os_env \<Rightarrow> 'w process_dispatcher \<Rightarrow> (io_error, unit) result \<times> 'w process_dispatcher" where
  "write_marker js oenv d =
     (let (there, d) = on_fs (path_exists (pd_marker d)) d in
      if there then (Ok (), d)
      else
        bind_io (ok_or blocked (identity_to_vec js (vl_identity (pd_layout d))), d) (\<lambda>bs d.
          on_fs (write_new oenv (pd_marker d) bs) d))"

definition launch_engine ::
  "'w engine_env \<Rightarrow> path \<Rightarrow> 'w process_dispatcher \<Rightarrow> (io_error, unit) result \<times> 'w process_dispatcher" where
  "launch_engine env engine d =
     (if engine = [] then (Err blocked, d)
      else
        bind_io (on_os (own_process_group env) d) (\<lambda>_ d.
          case on_os (spawn_engine env (command_for engine (in_root (pd_installation d)))) d of
            (Ok _, d) \<Rightarrow> (Ok (), d\<lparr>pd_child := Some True, pd_tree_owner := True, pd_channel_failed := False\<rparr>)
          | (Err e, d) \<Rightarrow> bind_io (on_fs (remove_file (pd_marker d)) d) (\<lambda>_ d. (Err e, d))))"

definition spawn ::
  "dispatcher_json \<Rightarrow> install_api \<Rightarrow> os_env \<Rightarrow> 'w engine_env \<Rightarrow> 'w process_dispatcher \<Rightarrow>
   (io_error, unit) result \<times> 'w process_dispatcher" where
  "spawn js api oenv env d =
     bind_io (on_fs (load_slot api (pd_installation d) (ei_slot (vl_identity (pd_layout d)))) d) (\<lambda>verified d.
     bind_io (layout_authorize verified (vl_identity (pd_layout d)), d) (\<lambda>_ d.
     bind_io (write_marker js oenv d) (\<lambda>_ d.
     bind_io (launch_engine env (vl_engine verified) d) (\<lambda>_ d.
       engine_control js env ''ready'' ''engine_ready'' d))))"

definition start ::
  "dispatcher_json \<Rightarrow> install_api \<Rightarrow> os_env \<Rightarrow> 'w engine_env \<Rightarrow> 'w process_dispatcher \<Rightarrow>
   (io_error, unit) result \<times> 'w process_dispatcher" where
  "start js api oenv env d =
     (if pd_channel_failed d then (Err blocked, d)
      else if pd_child d \<noteq> None
      then bind_io (on_os (try_wait env) d) (\<lambda>exited d. (if exited then Err blocked else Ok (), d))
      else
        (let (active, d) = on_fs (path_exists (pd_marker d)) d in
         if active then (Err blocked, d) else spawn js api oenv env d))"

section \<open>Stopping the engine\<close>

definition release_tree :: "'w engine_env \<Rightarrow> 'w process_dispatcher \<Rightarrow> 'w process_dispatcher" where
  "release_tree env d =
     (if pd_tree_owner d then (do_os (release_group env) d)\<lparr>pd_tree_owner := False\<rparr> else d)"

definition kill_failed ::
  "'w engine_env \<Rightarrow> 'w process_dispatcher \<Rightarrow> (io_error, unit) result \<times> 'w process_dispatcher" where
  "kill_failed env d =
     (if pd_child d = None then (Ok (), d)
      else
        bind_io (on_os (try_wait env) d) (\<lambda>exited d.
        bind_io (if exited then (Ok (), d) else on_os (kill_child env) d) (\<lambda>_ d.
          on_os (wait_child env) d)))"

definition reap_failed ::
  "'w engine_env \<Rightarrow> 'w process_dispatcher \<Rightarrow> (io_error, unit) result \<times> 'w process_dispatcher" where
  "reap_failed env d =
     (if pd_channel_failed d
      then bind_io (kill_failed env (release_tree env d)) (\<lambda>_ d. (Ok (), d\<lparr>pd_child := None\<rparr>))
      else (Ok (), d))"

definition reap_exited ::
  "'w engine_env \<Rightarrow> 'w process_dispatcher \<Rightarrow> (io_error, unit) result \<times> 'w process_dispatcher" where
  "reap_exited env d =
     (if pd_child d = None then (Ok (), d)
      else
        bind_io (on_os (try_wait env) d) (\<lambda>exited d.
          (Ok (), if exited then release_tree env (d\<lparr>pd_child := None\<rparr>) else d)))"

text \<open>After a crash: the marker is there and no engine is.\<close>

definition recover ::
  "dispatcher_json \<Rightarrow> install_api \<Rightarrow> os_env \<Rightarrow> 'w engine_env \<Rightarrow> 'w process_dispatcher \<Rightarrow>
   (io_error, unit) result \<times> 'w process_dispatcher" where
  "recover js api oenv env d =
     (if pd_child d \<noteq> None then (Ok (), d)
      else
        (let (there, d) = on_fs (path_exists (pd_marker d)) d in
         if \<not> there then (Ok (), d)
         else
           bind_io (on_fs (guard_at oenv (in_root (pd_installation d) @ [''engine-owner.lock''])) d) (\<lambda>_ d.
           bind_io (on_fs (read_bounded (pd_marker d) MAX_DISPATCHER_FRAME) d) (\<lambda>bs d.
           bind_io (ok_or blocked (identity_from_slice js bs), d) (\<lambda>identity d.
           bind_io (layout_authorize (pd_layout d) identity, d) (\<lambda>_ d.
             spawn js api oenv env d))))))"

text \<open>The loop that waits for the engine to exit, for three seconds and then no longer.  \<^verbatim>\<open>thread::sleep\<close>
  sleeps at least as long as it is told.\<close>

function wait_exit ::
  "'w engine_env \<Rightarrow> nat \<Rightarrow> 'w host \<Rightarrow> (io_error, unit) result \<times> 'w host" where
  "wait_exit env deadline h =
     (case try_wait env (ho_os h) of
        (Err e, w) \<Rightarrow> (Err e, h\<lparr>ho_os := w\<rparr>)
      | (Ok exited, w) \<Rightarrow>
          if exited then (Ok (), h\<lparr>ho_os := w\<rparr>)
          else if ho_clock h \<ge> deadline
          then
            (case bind_io (kill_child env w) (\<lambda>_ w. wait_child env w) of (r, w) \<Rightarrow> (r, h\<lparr>ho_os := w\<rparr>))
          else wait_exit env deadline (h\<lparr>ho_os := w, ho_clock := ho_clock h + 10 + oversleep env w\<rparr>))"
  by pat_completeness auto
termination
  by (relation "measure (\<lambda>(env, deadline, h). deadline - ho_clock h)") auto

declare wait_exit.simps [simp del]

definition wait_for_exit ::
  "'w engine_env \<Rightarrow> 'w process_dispatcher \<Rightarrow> (io_error, unit) result \<times> 'w process_dispatcher" where
  "wait_for_exit env d =
     (case wait_exit env (ho_clock (pd_host d) + 3000) (pd_host d) of (r, h) \<Rightarrow> (r, d\<lparr>pd_host := h\<rparr>))"

definition shut_down ::
  "dispatcher_json \<Rightarrow> 'w engine_env \<Rightarrow> 'w process_dispatcher \<Rightarrow> (io_error, unit) result \<times> 'w process_dispatcher" where
  "shut_down js env d =
     bind_io (engine_control js env ''stop'' ''engine_stopped'' d) (\<lambda>_ d.
     bind_io (if pd_child d = None then Err blocked else Ok (), d) (\<lambda>_ d.
     let d = (if pd_child d = Some True then (do_os (close_stdin env) d)\<lparr>pd_child := Some False\<rparr> else d) in
     bind_io (wait_for_exit env d) (\<lambda>_ d.
     let d = release_tree env (d\<lparr>pd_child := None\<rparr>) in
       on_fs (remove_file (pd_marker d)) d)))"

definition stop ::
  "dispatcher_json \<Rightarrow> install_api \<Rightarrow> os_env \<Rightarrow> 'w engine_env \<Rightarrow> 'w process_dispatcher \<Rightarrow>
   (io_error, unit) result \<times> 'w process_dispatcher" where
  "stop js api oenv env d =
     bind_io (reap_failed env d) (\<lambda>_ d.
     bind_io (reap_exited env d) (\<lambda>_ d.
     bind_io (recover js api oenv env d) (\<lambda>_ d.
       if pd_child d = None then (Ok (), d) else shut_down js env d)))"

section \<open>Requests\<close>

text \<open>A request for another release than the current one is served only while no engine is active.\<close>

definition select_layout ::
  "install_api \<Rightarrow> engine_identity \<Rightarrow> 'w process_dispatcher \<Rightarrow> (io_error, unit) result \<times> 'w process_dispatcher" where
  "select_layout api identity d =
     (if identity = vl_identity (pd_layout d) then (Ok (), d)
      else if pd_child d \<noteq> None \<or> pd_channel_failed d then (Err blocked, d)
      else
        (let (active, d) = on_fs (path_exists (pd_marker d)) d in
         if active then (Err blocked, d)
         else
           bind_io (on_fs (load_slot api (pd_installation d) (ei_slot identity)) d) (\<lambda>selected d.
           bind_io (layout_authorize selected identity, d) (\<lambda>_ d.
             (Ok (), d\<lparr>pd_layout := selected\<rparr>)))))"

fun dispatch ::
  "dispatcher_json \<Rightarrow> install_api \<Rightarrow> os_env \<Rightarrow> 'w engine_env \<Rightarrow> path \<Rightarrow> dispatcher_request \<Rightarrow>
   'w process_dispatcher \<Rightarrow> (io_error, unit) result \<times> 'w process_dispatcher" where
  "dispatch js api oenv env own (DStart _ _) d = start js api oenv env d"
| "dispatch js api oenv env own (DStop _ _) d = stop js api oenv env d"
| "dispatch js api oenv env own (DCleanup _ _) d =
     bind_io (stop js api oenv env d) (\<lambda>_ d.
       on_fs (cleanup_previous api oenv (pd_installation d) own) d)"
| "dispatch js api oenv env own _ d = (Ok (), d)"

definition handle_inner ::
  "dispatcher_json \<Rightarrow> install_api \<Rightarrow> os_env \<Rightarrow> 'w engine_env \<Rightarrow> path \<Rightarrow> dispatcher_request \<Rightarrow>
   'w process_dispatcher \<Rightarrow> (io_error, unit) result \<times> 'w process_dispatcher" where
  "handle_inner js api oenv env own request d =
     (if request_contract request \<noteq> 1 then (Err blocked, d)
      else if \<not> is_mutation request then (Ok (), d)
      else
        bind_io (on_fs (guard_acquire oenv (in_root (pd_installation d))) d) (\<lambda>_ d.
        bind_io (case request_identity request of
                   None \<Rightarrow> (Ok (), d)
                 | Some identity \<Rightarrow> select_layout api identity d) (\<lambda>_ d.
          dispatch js api oenv env own request d)))"

definition handle_request ::
  "dispatcher_json \<Rightarrow> install_api \<Rightarrow> os_env \<Rightarrow> 'w engine_env \<Rightarrow> path \<Rightarrow> dispatcher_request \<Rightarrow>
   'w process_dispatcher \<Rightarrow> dispatcher_response \<times> 'w process_dispatcher" where
  "handle_request js api oenv env own request d =
     (case handle_inner js api oenv env own request d of
        (Err _, d) \<Rightarrow> (dispatcher_failure, d)
      | (Ok _, d) \<Rightarrow>
          (let (running, d) =
             (if pd_channel_failed d \<or> pd_child d = None then (False, d)
              else case on_os (try_wait env) d of (r, d) \<Rightarrow> (r = Ok False, d))
           in (dispatcher_success (vl_identity (pd_layout d)) running, d)))"

definition relay ::
  "dispatcher_json \<Rightarrow> os_env \<Rightarrow> 'w engine_env \<Rightarrow> bytes \<Rightarrow> 'w process_dispatcher \<Rightarrow>
   (io_error, bytes) result \<times> 'w process_dispatcher" where
  "relay js oenv env frame d =
     bind_io (frame_body frame MAX_ENGINE_FRAME, d) (\<lambda>_ d.
     bind_io (on_fs (guard_acquire oenv (in_root (pd_installation d))) d) (\<lambda>_ d.
       if pd_child d = None then (Err blocked, d) else exchange js env frame d))"

definition authorize_broker ::
  "install_api \<Rightarrow> file_observation \<Rightarrow> string \<Rightarrow> any_path \<Rightarrow> 'w process_dispatcher \<Rightarrow>
   (io_error, unit) result \<times> 'w process_dispatcher" where
  "authorize_broker api obs owner executable d =
     (case cache_authorize api obs (vl_broker (pd_layout d)) owner executable
             (pd_broker_authorization d, ho_fs (pd_host d)) of
        (r, c, w) \<Rightarrow> (r, d\<lparr>pd_broker_authorization := c, pd_host := (pd_host d)\<lparr>ho_fs := w\<rparr>\<rparr>))"

section \<open>The life of the dispatcher\<close>

definition initial_layout ::
  "dispatcher_json \<Rightarrow> install_api \<Rightarrow> installation \<Rightarrow> fs \<Rightarrow> (io_error, verified_layout) result \<times> fs" where
  "initial_layout js api inst w =
     (let (active, w) = path_exists (marker_path inst) w in
      if active
      then
        bind_io (trusted (marker_path inst) (in_owner inst) w) (\<lambda>_ w.
        bind_io (read_bounded (marker_path inst) MAX_DISPATCHER_FRAME w) (\<lambda>bs w.
        bind_io (ok_or blocked (identity_from_slice js bs), w) (\<lambda>identity w.
        bind_io (load_slot api inst (ei_slot identity) w) (\<lambda>layout w.
        bind_io (layout_authorize layout identity, w) (\<lambda>_ w. (Ok layout, w))))))
      else load api inst w)"

definition new_dispatcher ::
  "dispatcher_json \<Rightarrow> install_api \<Rightarrow> installation \<Rightarrow> 'w host \<Rightarrow>
   (io_error, 'w process_dispatcher) result \<times> 'w host" where
  "new_dispatcher js api inst h =
     (case initial_layout js api inst (ho_fs h) of
        (Err e, w) \<Rightarrow> (Err e, h\<lparr>ho_fs := w\<rparr>)
      | (Ok layout, w) \<Rightarrow>
          (let h = h\<lparr>ho_fs := w\<rparr> in
           (Ok \<lparr>pd_installation = inst, pd_layout = layout, pd_child = None, pd_tree_owner = False,
                pd_channel_failed = False, pd_broker_authorization = default_authorization_cache,
                pd_host = h\<rparr>, h)))"

definition drop_dispatcher :: "'w engine_env \<Rightarrow> 'w process_dispatcher \<Rightarrow> 'w process_dispatcher" where
  "drop_dispatcher env d =
     (if pd_child d = Some True then (do_os (close_stdin env) d)\<lparr>pd_child := Some False\<rparr> else d)"

text \<open>Everything that happens to a dispatcher: requests, frames for the engine, brokers that ask for access,
  and the end of the process, after which the kernel closes the end of the pipe that the guardian
  watches and a new process is started.  A process that cannot start leaves the host as it is.\<close>

datatype 'w machine = Running "'w process_dispatcher" | Down "'w host"

datatype dispatcher_op =
  OpHandle os_env "nat option list" path dispatcher_request
| OpRelay os_env "nat option list" bytes
| OpAuthorize file_observation "nat option list" string any_path
| OpRestart "nat option list"

definition host_with_faults :: "nat option list \<Rightarrow> 'w host \<Rightarrow> 'w host" where
  "host_with_faults fs h = h\<lparr>ho_fs := (ho_fs h)\<lparr>faults := fs\<rparr>\<rparr>"

definition with_faults :: "nat option list \<Rightarrow> 'w process_dispatcher \<Rightarrow> 'w process_dispatcher" where
  "with_faults fs d = d\<lparr>pd_host := host_with_faults fs (pd_host d)\<rparr>"

definition boot ::
  "dispatcher_json \<Rightarrow> install_api \<Rightarrow> installation \<Rightarrow> nat option list \<Rightarrow> 'w host \<Rightarrow> 'w machine" where
  "boot js api inst fs h =
     (case new_dispatcher js api inst (host_with_faults fs h) of
        (Ok d, _) \<Rightarrow> Running d
      | (Err _, h) \<Rightarrow> Down h)"

fun dispatcher_step ::
  "dispatcher_json \<Rightarrow> install_api \<Rightarrow> installation \<Rightarrow> 'w engine_env \<Rightarrow> 'w machine \<Rightarrow> dispatcher_op \<Rightarrow>
   'w machine" where
  "dispatcher_step js api inst env (Running d) (OpHandle oenv fs own request) =
     Running (snd (handle_request js api oenv env own request (with_faults fs d)))"
| "dispatcher_step js api inst env (Running d) (OpRelay oenv fs frame) =
     Running (snd (relay js oenv env frame (with_faults fs d)))"
| "dispatcher_step js api inst env (Running d) (OpAuthorize obs fs owner executable) =
     Running (snd (authorize_broker api obs owner executable (with_faults fs d)))"
| "dispatcher_step js api inst env (Running d) (OpRestart fs) =
     boot js api inst fs (pd_host (release_tree env (drop_dispatcher env d)))"
| "dispatcher_step js api inst env (Down h) (OpRestart fs) = boot js api inst fs h"
| "dispatcher_step js api inst env (Down h) _ = Down h"

section \<open>Waiting ends\<close>

text \<open>The loop of \<open>wait_exit\<close> with a bound on its passes: \<open>None\<close> when they do not suffice.\<close>

fun wait_polls ::
  "nat \<Rightarrow> 'w engine_env \<Rightarrow> nat \<Rightarrow> 'w host \<Rightarrow> ((io_error, unit) result \<times> 'w host) option" where
  "wait_polls 0 env deadline h = None"
| "wait_polls (Suc n) env deadline h =
     (case try_wait env (ho_os h) of
        (Err e, w) \<Rightarrow> Some (Err e, h\<lparr>ho_os := w\<rparr>)
      | (Ok exited, w) \<Rightarrow>
          if exited then Some (Ok (), h\<lparr>ho_os := w\<rparr>)
          else if ho_clock h \<ge> deadline
          then
            Some (case bind_io (kill_child env w) (\<lambda>_ w. wait_child env w) of (r, w) \<Rightarrow> (r, h\<lparr>ho_os := w\<rparr>))
          else wait_polls n env deadline (h\<lparr>ho_os := w, ho_clock := ho_clock h + 10 + oversleep env w\<rparr>))"

lemma wait_polls_enough:
  "deadline - ho_clock h \<le> 10 * n \<Longrightarrow> wait_polls (Suc n) env deadline h = Some (wait_exit env deadline h)"
proof (induction n arbitrary: h)
  case 0
  then show ?case by (simp add: wait_exit.simps [of env deadline h] split: prod.splits sum.splits)
next
  case (Suc n)
  have "wait_polls (Suc n) env deadline (h\<lparr>ho_os := w, ho_clock := ho_clock h + 10 + k\<rparr>) =
      Some (wait_exit env deadline (h\<lparr>ho_os := w, ho_clock := ho_clock h + 10 + k\<rparr>))" for w k
    by (rule Suc.IH) (use Suc.prems in simp)
  then show ?case
    by (subst wait_polls.simps, subst wait_exit.simps) (simp split: prod.splits sum.splits del: wait_polls.simps)
qed

section \<open>What a call leaves alone\<close>

text \<open>The file system of the dispatcher's host, and whether the marker is there.\<close>

abbreviation pd_fs :: "'w process_dispatcher \<Rightarrow> fs" where
  "pd_fs d \<equiv> ho_fs (pd_host d)"

abbreviation pd_os :: "'w process_dispatcher \<Rightarrow> 'w" where
  "pd_os d \<equiv> ho_os (pd_host d)"

definition marked :: "'w process_dispatcher \<Rightarrow> bool" where
  "marked d \<longleftrightarrow> nodes (pd_fs d) (pd_marker d) \<noteq> None"

lemma on_fs_simps [simp]:
  "fst (on_fs f d) = fst (f (pd_fs d))"
  "pd_fs (snd (on_fs f d)) = snd (f (pd_fs d))"
  "pd_os (snd (on_fs f d)) = pd_os d"
  "ho_clock (pd_host (snd (on_fs f d))) = ho_clock (pd_host d)"
  "pd_installation (snd (on_fs f d)) = pd_installation d"
  "pd_layout (snd (on_fs f d)) = pd_layout d"
  "pd_child (snd (on_fs f d)) = pd_child d"
  "pd_channel_failed (snd (on_fs f d)) = pd_channel_failed d"
  "pd_tree_owner (snd (on_fs f d)) = pd_tree_owner d"
  by (simp_all add: on_fs_def split: prod.splits)

lemma on_os_simps [simp]:
  "fst (on_os f d) = fst (f (pd_os d))"
  "pd_os (snd (on_os f d)) = snd (f (pd_os d))"
  "pd_fs (snd (on_os f d)) = pd_fs d"
  "pd_installation (snd (on_os f d)) = pd_installation d"
  "pd_layout (snd (on_os f d)) = pd_layout d"
  "pd_child (snd (on_os f d)) = pd_child d"
  "pd_channel_failed (snd (on_os f d)) = pd_channel_failed d"
  "pd_tree_owner (snd (on_os f d)) = pd_tree_owner d"
  by (simp_all add: on_os_def split: prod.splits)

lemma do_os_simps [simp]:
  "pd_os (do_os f d) = f (pd_os d)"
  "pd_fs (do_os f d) = pd_fs d"
  "pd_installation (do_os f d) = pd_installation d"
  "pd_layout (do_os f d) = pd_layout d"
  "pd_child (do_os f d) = pd_child d"
  "pd_channel_failed (do_os f d) = pd_channel_failed d"
  "pd_tree_owner (do_os f d) = pd_tree_owner d"
  by (simp_all add: do_os_def)

text \<open>Calls on the engine change neither the files nor what the dispatcher knows of its release.\<close>

definition same_files :: "'w process_dispatcher \<Rightarrow> 'w process_dispatcher \<Rightarrow> bool" where
  "same_files d d' \<longleftrightarrow> pd_fs d' = pd_fs d \<and> pd_installation d' = pd_installation d \<and> pd_layout d' = pd_layout d"

named_theorems same_files_rules

lemma same_files_refl [same_files_rules]: "same_files d d"
  by (simp add: same_files_def)

lemma same_files_trans: "same_files d d' \<Longrightarrow> same_files d' d'' \<Longrightarrow> same_files d d''"
  by (simp add: same_files_def)

lemma same_files_bind [same_files_rules]:
  "same_files d (snd m) \<Longrightarrow> (\<And>x d'. same_files d' (snd (f x d'))) \<Longrightarrow> same_files d (snd (bind_io m f))"
  by (cases m; cases "fst m") (auto intro: same_files_trans)

lemma same_files_calls [same_files_rules]:
  "same_files d (snd (on_os g d))" "same_files d (do_os h d)"
  "same_files d (d\<lparr>pd_channel_failed := b\<rparr>)" "same_files d (d\<lparr>pd_child := c\<rparr>)" "same_files d (d\<lparr>pd_tree_owner := b\<rparr>)"
  by (simp_all add: same_files_def)

lemma same_files_marked: "same_files d d' \<Longrightarrow> marked d' = marked d"
  by (simp add: same_files_def marked_def pd_marker_def)

text \<open>Frames to and from the engine do not change whether there is a child either.\<close>

definition same_state :: "'w process_dispatcher \<Rightarrow> 'w process_dispatcher \<Rightarrow> bool" where
  "same_state d d' \<longleftrightarrow> same_files d d' \<and> pd_child d' = pd_child d"

named_theorems same_state_rules

lemma same_state_refl [same_state_rules]: "same_state d d"
  by (simp add: same_state_def same_files_refl)

lemma same_state_trans: "same_state d d' \<Longrightarrow> same_state d' d'' \<Longrightarrow> same_state d d''"
  by (auto simp: same_state_def intro: same_files_trans)

lemma same_state_bind [same_state_rules]:
  "same_state d (snd m) \<Longrightarrow> (\<And>x d'. same_state d' (snd (f x d'))) \<Longrightarrow> same_state d (snd (bind_io m f))"
  by (cases m; cases "fst m") (auto intro: same_state_trans)

lemma same_state_calls [same_state_rules]:
  "same_state d (snd (on_os g d))" "same_state d (d\<lparr>pd_channel_failed := b\<rparr>)"
  by (simp_all add: same_state_def same_files_rules)

lemma write_engine_state: "same_state d (snd (write_engine env frame d))"
  by (auto simp: write_engine_def intro!: same_state_rules)

lemma read_engine_state: "same_state d (snd (read_engine env d))"
  by (auto simp: read_engine_def intro!: same_state_rules)

lemma exchange_reads_state: "same_state d (snd (exchange_reads js env n d))"
proof (induction n arbitrary: d)
  case 0
  then show ?case by (simp add: same_state_refl)
next
  case (Suc n)
  have "same_state d (snd (case primitive_from_slice js body of
         None \<Rightarrow> (Ok response, d)
       | Some p \<Rightarrow>
           (let (result, d) = on_os (run_primitive env p (vl_engine (pd_layout d))) d in
            bind_io (encode_frame (primitive_ok_to_vec js (is_ok result)), d) (\<lambda>frame d.
            bind_io (write_engine env frame d) (\<lambda>_ d. exchange_reads js env n d)))))" for body response d
  proof (cases "primitive_from_slice js body")
    case (Some p)
    obtain result d1 where o: "on_os (run_primitive env p (vl_engine (pd_layout d))) d = (result, d1)" by fastforce
    then have "same_state d d1" using same_state_calls(1) by (metis snd_conv)
    moreover have "same_state d1 (snd (bind_io (encode_frame (primitive_ok_to_vec js (is_ok result)), d1) (\<lambda>frame d.
            bind_io (write_engine env frame d) (\<lambda>_ d. exchange_reads js env n d))))"
      by (auto intro!: same_state_rules write_engine_state Suc.IH)
    ultimately show ?thesis using Some o by (auto intro: same_state_trans)
  qed (simp add: same_state_refl)
  then show ?case by (auto intro!: same_state_rules read_engine_state simp del: bind_io_simps)
qed

lemma exchange_state: "same_state d (snd (exchange js env frame d))"
proof -
  have "same_state d (snd (exchange_inner js env frame d))"
    by (auto simp: exchange_inner_def intro!: same_state_rules write_engine_state exchange_reads_state)
  then show ?thesis
    by (auto simp: exchange_def same_state_def same_files_def split: prod.splits sum.splits)
qed

lemma engine_control_state: "same_state d (snd (engine_control js env control flag d))"
  by (auto simp: engine_control_def intro!: same_state_rules exchange_state)

lemma same_stateD: "same_state d d' \<Longrightarrow> same_files d d'" "same_state d d' \<Longrightarrow> pd_child d' = pd_child d"
  by (simp_all add: same_state_def)

lemmas exchange_same = same_stateD(1) [OF exchange_state]
lemmas engine_control_same = same_stateD(1) [OF engine_control_state]

lemma release_tree_same: "same_files d (release_tree env d)"
  by (simp add: release_tree_def same_files_def)

lemma reap_same:
  "same_files d (snd (reap_failed env d))" "same_files d (snd (reap_exited env d))"
proof -
  have k: "same_files d (snd (kill_failed env d))" for d
    by (auto simp: kill_failed_def intro!: same_files_rules)
  show "same_files d (snd (reap_failed env d))"
    by (auto simp: reap_failed_def intro!: same_files_rules same_files_trans [OF release_tree_same k])
  show "same_files d (snd (reap_exited env d))"
    by (auto simp: reap_exited_def intro!: same_files_rules same_files_trans [OF _ release_tree_same])
qed

lemma wait_exit_fs: "ho_fs (snd (wait_exit env deadline h)) = ho_fs h"
proof (induction env deadline h rule: wait_exit.induct)
  case (1 env deadline h)
  then show ?case
    by (subst wait_exit.simps) (auto split: prod.splits sum.splits if_splits)
qed

lemma wait_for_exit_same: "same_files d (snd (wait_for_exit env d))"
  using wait_exit_fs [of env "ho_clock (pd_host d) + 3000" "pd_host d"]
  by (auto simp: wait_for_exit_def same_files_def split: prod.splits)

section \<open>The engine's promises\<close>

text \<open>\<open>pending\<close>: an engine has left something on the machine that only a stop removes.  An engine changes the
  machine while it handles a frame, so ending it, asking after it and failing to launch it add nothing;
  and it answers \<^verbatim>\<open>engine_stopped\<close> once nothing is left.\<close>

definition engine_laws :: "dispatcher_json \<Rightarrow> 'w engine_env \<Rightarrow> ('w \<Rightarrow> bool) \<Rightarrow> bool" where
  "engine_laws js env pending \<longleftrightarrow>
     (\<forall>w. pending (snd (own_process_group env w)) \<longrightarrow> pending w)
     \<and> (\<forall>w. pending (snd (try_wait env w)) \<longrightarrow> pending w)
     \<and> (\<forall>w. pending (snd (kill_child env w)) \<longrightarrow> pending w)
     \<and> (\<forall>w. pending (snd (wait_child env w)) \<longrightarrow> pending w)
     \<and> (\<forall>w. pending (close_stdin env w) \<longrightarrow> pending w)
     \<and> (\<forall>w. pending (release_group env w) \<longrightarrow> pending w)
     \<and> (\<forall>c w e w'. spawn_engine env c w = (Err e, w') \<and> pending w' \<longrightarrow> pending w)
     \<and> (\<forall>w frame rest body. read_frame MAX_ENGINE_FRAME (engine_stdout env w) = (Ok frame, rest)
          \<and> frame_body frame MAX_ENGINE_FRAME = Ok body \<and> value_flag js body ''engine_stopped'' = Some True
          \<longrightarrow> \<not> pending (consume env rest w))"

lemma engine_lawsD:
  assumes "engine_laws js env pending"
  shows "pending (snd (own_process_group env w)) \<Longrightarrow> pending w"
    "pending (snd (try_wait env w)) \<Longrightarrow> pending w"
    "pending (snd (kill_child env w)) \<Longrightarrow> pending w"
    "pending (snd (wait_child env w)) \<Longrightarrow> pending w"
    "pending (close_stdin env w) \<Longrightarrow> pending w"
    "pending (release_group env w) \<Longrightarrow> pending w"
    "spawn_engine env c w = (Err e, w') \<Longrightarrow> pending w' \<Longrightarrow> pending w"
    "read_frame MAX_ENGINE_FRAME (engine_stdout env w) = (Ok frame, rest) \<Longrightarrow>
     frame_body frame MAX_ENGINE_FRAME = Ok body \<Longrightarrow> value_flag js body ''engine_stopped'' = Some True \<Longrightarrow>
     \<not> pending (consume env rest w)"
  using assms unfolding engine_laws_def by blast+

definition safe :: "('w \<Rightarrow> bool) \<Rightarrow> 'w process_dispatcher \<Rightarrow> bool" where
  "safe pending d \<longleftrightarrow> (pd_child d \<noteq> None \<or> pending (pd_os d) \<longrightarrow> marked d)"

lemma safe_marked: "marked d \<Longrightarrow> safe pending d"
  by (simp add: safe_def)

lemma exchange_reads_Ok:
  "exchange_reads js env n d = (Ok response, d') \<Longrightarrow>
   \<exists>w rest. read_frame MAX_ENGINE_FRAME (engine_stdout env w) = (Ok response, rest) \<and> pd_os d' = consume env rest w"
proof (induction n arbitrary: d)
  case (Suc n)
  from Suc.prems obtain r d1 where r: "read_engine env d = (Ok r, d1)"
    and rest: "bind_io (frame_body r MAX_ENGINE_FRAME, d1) (\<lambda>body d.
       case primitive_from_slice js body of
         None \<Rightarrow> (Ok r, d)
       | Some p \<Rightarrow>
           (let (result, d) = on_os (run_primitive env p (vl_engine (pd_layout d))) d in
            bind_io (encode_frame (primitive_ok_to_vec js (is_ok result)), d) (\<lambda>frame d.
            bind_io (write_engine env frame d) (\<lambda>_ d. exchange_reads js env n d)))) = (Ok response, d')"
    by (auto simp: bind_io_eq_Ok_iff)
  then consider "r = response" "d' = d1" | d2 where "exchange_reads js env n d2 = (Ok response, d')"
    by (auto simp: bind_io_eq_Ok_iff split_beta split: option.splits)
  then show ?case
  proof cases
    case 1
    with r have "read_frame MAX_ENGINE_FRAME (engine_stdout env (pd_os d)) = (Ok response, snd (read_frame MAX_ENGINE_FRAME (engine_stdout env (pd_os d))))"
      "pd_os d' = consume env (snd (read_frame MAX_ENGINE_FRAME (engine_stdout env (pd_os d)))) (pd_os d)"
      by (auto simp: read_engine_def on_os_def split: prod.splits)
    then show ?thesis by blast
  next
    case 2
    then show ?thesis by (rule Suc.IH)
  qed
qed simp

lemma exchange_Ok:
  "exchange js env frame d = (Ok response, d') \<Longrightarrow> \<exists>d0. exchange_reads js env 16 d0 = (Ok response, d')"
  by (cases "exchange_inner js env frame d"; cases "fst (exchange_inner js env frame d)")
    (auto simp: exchange_def exchange_inner_def bind_io_eq_Ok_iff split: if_splits)

lemma engine_stopped_not_pending:
  assumes "engine_laws js env pending" and "engine_control js env control ''engine_stopped'' d = (Ok u, d')"
  shows "\<not> pending (pd_os d')"
proof -
  from assms(2) obtain response body d0 n where
    "exchange_reads js env n d0 = (Ok response, d')" "frame_body response MAX_ENGINE_FRAME = Ok body"
    "value_flag js body ''engine_stopped'' = Some True"
    by (auto simp: engine_control_def bind_io_eq_Ok_iff split: if_splits dest!: exchange_Ok)
  with exchange_reads_Ok [OF this(1)] engine_lawsD(8) [OF assms(1)] show ?thesis by metis
qed

text \<open>Calls that add nothing pending.\<close>

definition calm :: "('w \<Rightarrow> bool) \<Rightarrow> 'w process_dispatcher \<Rightarrow> 'w process_dispatcher \<Rightarrow> bool" where
  "calm pending d d' \<longleftrightarrow>
     (pending (pd_os d') \<longrightarrow> pending (pd_os d)) \<and> (pd_child d = None \<longrightarrow> pd_child d' = None)"

named_theorems calm_rules

lemma calm_refl [calm_rules]: "calm pending d d"
  by (simp add: calm_def)

lemma calm_trans: "calm pending d d' \<Longrightarrow> calm pending d' d'' \<Longrightarrow> calm pending d d''"
  by (simp add: calm_def)

lemma calm_bind [calm_rules]:
  "calm pending d (snd m) \<Longrightarrow> (\<And>x d'. calm pending d' (snd (f x d'))) \<Longrightarrow> calm pending d (snd (bind_io m f))"
  by (cases m; cases "fst m") (auto intro: calm_trans)

lemma calm_calls:
  assumes "engine_laws js env pending"
  shows "calm pending d (snd (on_os (try_wait env) d))" "calm pending d (snd (on_os (kill_child env) d))"
    "calm pending d (snd (on_os (wait_child env) d))" "calm pending d (snd (on_os (own_process_group env) d))"
    "calm pending d (do_os (close_stdin env) d)" "calm pending d (do_os (release_group env) d)"
    "calm pending d (release_tree env d)"
  by (auto simp: calm_def release_tree_def dest: engine_lawsD(1-6) [OF assms])

lemma calm_updates [calm_rules]:
  "calm pending d (d\<lparr>pd_child := None\<rparr>)" "calm pending d (d\<lparr>pd_channel_failed := b\<rparr>)"
  "calm pending d (d\<lparr>pd_tree_owner := b\<rparr>)" "calm pending d (snd (on_fs f d))"
  by (simp_all add: calm_def)

lemma calm_safe: "calm pending d d' \<Longrightarrow> same_files d d' \<Longrightarrow> safe pending d \<Longrightarrow> pd_child d' \<noteq> None \<longrightarrow> pd_child d \<noteq> None \<Longrightarrow> safe pending d'"
  by (auto simp: calm_def safe_def dest: same_files_marked)

lemma calm_safe': "calm pending d d' \<Longrightarrow> same_files d d' \<Longrightarrow> safe pending d \<Longrightarrow> safe pending d'"
  by (rule calm_safe) (auto simp: calm_def)

lemma reap_calm:
  assumes "engine_laws js env pending"
  shows "calm pending d (snd (reap_failed env d))" "calm pending d (snd (reap_exited env d))"
proof -
  note c = calm_calls [OF assms]
  have k: "calm pending d (snd (kill_failed env d))" for d
    by (auto simp: kill_failed_def intro!: calm_rules c)
  show "calm pending d (snd (reap_failed env d))"
    by (auto simp: reap_failed_def intro!: calm_rules calm_trans [OF c(7) k])
  show "calm pending d (snd (reap_exited env d))"
    by (auto simp: reap_exited_def intro!: calm_rules c calm_trans [OF _ c(7)])
qed

text \<open>The wait loop only asks after the child and, at the end, kills it and waits for it.\<close>

lemma wait_exit_rel:
  assumes refl: "\<And>w. R w w" and trans: "\<And>u v w. R u v \<Longrightarrow> R v w \<Longrightarrow> R u w"
    and calls: "\<And>w. R w (snd (try_wait env w))" "\<And>w. R w (snd (kill_child env w))" "\<And>w. R w (snd (wait_child env w))"
  shows "R (ho_os h) (ho_os (snd (wait_exit env deadline h)))"
proof (induction "deadline - ho_clock h" arbitrary: h rule: less_induct)
  case less
  obtain r w where t: "try_wait env (ho_os h) = (r, w)" by fastforce
  have w: "R (ho_os h) w" using calls(1) [of "ho_os h"] t by simp
  obtain r1 w1 where k1: "kill_child env w = (r1, w1)" by fastforce
  have w1: "R w w1" using calls(2) [of w] k1 by simp
  obtain r2 w2 where k: "bind_io (kill_child env w) (\<lambda>_ w. wait_child env w) = (r2, w2)" by fastforce
  have w2: "R w w2" using k k1 w1 trans [OF w1 calls(3)] by (cases r1) auto
  consider e where "r = Err e" | "r = Ok True" | "r = Ok False" "deadline \<le> ho_clock h"
    | "r = Ok False" "\<not> deadline \<le> ho_clock h" by (cases r) auto
  then show ?case
  proof cases
    case 3
    with trans [OF w w2] k show ?thesis by (simp add: wait_exit.simps [of env deadline h] t)
  next
    case 4
    let ?h = "h\<lparr>ho_os := w, ho_clock := ho_clock h + 10 + oversleep env w\<rparr>"
    from 4 have "wait_exit env deadline h = wait_exit env deadline ?h"
      by (subst wait_exit.simps) (simp add: t)
    with less.hyps [of ?h] 4 trans [OF w] show ?thesis by simp
  qed (use w in \<open>simp_all add: wait_exit.simps [of env deadline h] t\<close>)
qed

lemma wait_for_exit_calm:
  assumes "engine_laws js env pending"
  shows "calm pending d (snd (wait_for_exit env d))"
proof -
  have "pending (ho_os (snd (wait_exit env (ho_clock (pd_host d) + 3000) (pd_host d)))) \<longrightarrow> pending (pd_os d)"
    by (rule wait_exit_rel [where R = "\<lambda>v w. pending w \<longrightarrow> pending v"]) (use engine_lawsD(2-4) [OF assms] in blast)+
  then show ?thesis by (simp add: wait_for_exit_def calm_def case_prod_beta)
qed

section \<open>The marker outlives the engine's traces\<close>

lemma safe_updates [simp]:
  "safe pending (d\<lparr>pd_layout := l\<rparr>) = safe pending d"
  "safe pending (d\<lparr>pd_broker_authorization := c\<rparr>) = safe pending d"
  by (simp_all add: safe_def marked_def pd_marker_def)

lemma on_fs_safe:
  "nodes (snd (f (pd_fs d))) (pd_marker d) = nodes (pd_fs d) (pd_marker d) \<Longrightarrow> safe pending d \<Longrightarrow>
   safe pending (snd (on_fs f d))"
  by (simp add: safe_def marked_def pd_marker_def)

lemma only_at_safe:
  "only_at T (pd_fs d) (snd (f (pd_fs d))) \<Longrightarrow> pd_marker d \<notin> T \<Longrightarrow> safe pending d \<Longrightarrow> safe pending (snd (on_fs f d))"
  by (rule on_fs_safe) (simp_all add: only_at_nodes)

lemma exists_safe: "safe pending d \<Longrightarrow> safe pending (snd (on_fs (path_exists p) d))"
  by (rule only_at_safe [where T = "{}"]) (simp_all add: only_at_calls)

lemma write_new_there:
  "nodes w p \<noteq> None \<or> is_ok (fst (write_new env p bs w)) \<Longrightarrow> nodes (snd (write_new env p bs w)) p \<noteq> None"
proof -
  assume a: "nodes w p \<noteq> None \<or> is_ok (fst (write_new env p bs w))"
  have "nodes (snd (create_new m p v)) p \<noteq> None" if "nodes v p \<noteq> None \<or> is_ok (fst (create_new m p v))" for m v
    using that by (auto simp: create_new_def dest!: next_fault_frame split: prod.splits option.splits)
  moreover have "nodes v p \<noteq> None \<Longrightarrow> nodes (snd (protect p b v)) p \<noteq> None" for b v
    by (auto simp: protect_def set_permissions_def guarded_def dest!: next_fault_frame split: prod.splits option.splits)
  moreover have "nodes v p \<noteq> None \<Longrightarrow> nodes (snd (file_write_all bs p v)) p \<noteq> None" for v
    by (auto simp: file_write_all_def append_file_def dest!: next_fault_frame
        split: prod.splits option.splits node_kind.splits)
  moreover have "nodes v p \<noteq> None \<Longrightarrow> nodes (snd (sync_all v)) p \<noteq> None" for v
    by (auto simp: sync_all_def dest!: next_fault_frame split: prod.splits option.splits)
  moreover have bind: "nodes (snd (bind_io m f)) p \<noteq> None"
    if "nodes (snd m) p \<noteq> None \<or> is_ok (fst m)" "is_ok (fst m) \<Longrightarrow> nodes (snd m) p \<noteq> None"
      "\<And>x v. nodes v p \<noteq> None \<Longrightarrow> nodes (snd (f x v)) p \<noteq> None"
    for m :: "(io_error, unit) result \<times> fs" and f :: "unit \<Rightarrow> fs \<Rightarrow> (io_error, unit) result \<times> fs"
    using that by (cases m; cases "fst m") auto
  moreover have "nodes w p \<noteq> None \<or> is_ok (fst (create_new (new_file_mode env) p w))"
    using a by (cases "create_new (new_file_mode env) p w"; cases "fst (create_new (new_file_mode env) p w)")
      (auto simp: write_new_def)
  ultimately show ?thesis
    unfolding write_new_def by (intro bind) auto
qed

lemma write_marker_frame:
  assumes "write_marker js oenv d = (r, d')"
  shows "pd_child d' = pd_child d \<and> pd_os d' = pd_os d \<and> pd_installation d' = pd_installation d
    \<and> pd_layout d' = pd_layout d \<and> only_at {pd_marker d} (pd_fs d) (pd_fs d')"
proof -
  obtain b d1 where e: "on_fs (path_exists (pd_marker d)) d = (b, d1)" by fastforce
  then have 1: "d1 = snd (on_fs (path_exists (pd_marker d)) d)" by simp
  have o: "only_at {pd_marker d} (pd_fs d) (pd_fs d1)" by (simp add: 1 only_at_calls)
  have m: "pd_marker d1 = pd_marker d" by (simp add: 1 pd_marker_def)
  show ?thesis
  proof (cases "b \<or> identity_to_vec js (vl_identity (pd_layout d1)) = None")
    case True
    then have "d' = d1" using assms e by (auto simp: write_marker_def split: if_splits)
    then show ?thesis using o by (simp add: 1)
  next
    case False
    then obtain bs where "on_fs (write_new oenv (pd_marker d) bs) d1 = (r, d')"
      using assms e m by (auto simp: write_marker_def split: if_splits)
    then have 2: "d' = snd (on_fs (write_new oenv (pd_marker d) bs) d1)" by simp
    have "only_at {pd_marker d} (pd_fs d1) (pd_fs d')" by (simp add: 2 writers_only_at)
    then show ?thesis using only_at_trans [OF o] by (simp add: 1 2)
  qed
qed

lemma write_marker_marked:
  assumes "write_marker js oenv d = (r, d')"
  shows "is_ok r \<Longrightarrow> marked d'" "marked d \<Longrightarrow> marked d'"
proof -
  obtain b d1 where e: "on_fs (path_exists (pd_marker d)) d = (b, d1)" by fastforce
  then have 1: "d1 = snd (on_fs (path_exists (pd_marker d)) d)" "b = fst (path_exists (pd_marker d) (pd_fs d))"
    by (simp, metis fst_conv on_fs_simps(1))
  have m: "pd_marker d1 = pd_marker d" by (simp add: 1 pd_marker_def)
  have n: "nodes (pd_fs d1) = nodes (pd_fs d)"
    using only_at_empty [OF only_at_calls(2) [of "{}" "pd_fs d" "pd_marker d"]] by (simp add: 1)
  have there: "b \<Longrightarrow> marked d1"
    unfolding 1(2) marked_def m n
    by (auto simp: path_exists_def dest!: next_fault_frame split: prod.splits option.splits)
  have keep: "marked d \<Longrightarrow> marked d1" by (simp add: marked_def m n)
  have new: "(\<exists>bs. on_fs (write_new oenv (pd_marker d) bs) d1 = (r, d')) \<or> d' = d1 \<and> (b \<or> \<not> is_ok r)"
    using assms e m by (cases "identity_to_vec js (vl_identity (pd_layout d1))")
      (auto simp: write_marker_def split: if_splits)
  have w: "nodes (pd_fs d1) (pd_marker d) \<noteq> None \<or> is_ok r \<Longrightarrow> marked d'"
    if o: "on_fs (write_new oenv (pd_marker d) bs) d1 = (r, d')" for bs
  proof -
    from o have "d' = snd (on_fs (write_new oenv (pd_marker d) bs) d1)" by simp
    moreover from o have "r = fst (write_new oenv (pd_marker d) bs (pd_fs d1))" by (metis fst_conv on_fs_simps(1))
    ultimately show "nodes (pd_fs d1) (pd_marker d) \<noteq> None \<or> is_ok r \<Longrightarrow> marked d'"
      using write_new_there [of "pd_fs d1" "pd_marker d" oenv bs] m by (simp add: marked_def pd_marker_def)
  qed
  show "is_ok r \<Longrightarrow> marked d'" using new w there by blast
  show "marked d \<Longrightarrow> marked d'" using new w keep m by (auto simp: marked_def)
qed

definition spawn_reliable :: "'w engine_env \<Rightarrow> ('w \<Rightarrow> bool) \<Rightarrow> bool" where
  "spawn_reliable env pending \<longleftrightarrow> (\<forall>c w e w'. spawn_engine env c w = (Err e, w') \<longrightarrow> \<not> pending w')"

lemma launch_engine_safe:
  assumes laws: "engine_laws js env pending" and reliable: "spawn_reliable env pending"
    and "marked d" and "pd_child d = None" and "launch_engine env engine d = (r, d')"
  shows "if is_ok r then marked d' else safe pending d'"
proof (cases "engine = []")
  case True
  then show ?thesis using assms(3,5) by (auto simp: launch_engine_def intro: safe_marked)
next
  case False
  obtain a d1 where g: "on_os (own_process_group env) d = (a, d1)" by fastforce
  then have 1: "d1 = snd (on_os (own_process_group env) d)" by simp
  have m1: "marked d1" "pd_child d1 = None" using assms(3,4) by (simp_all add: 1 marked_def pd_marker_def)
  let ?c = "command_for engine (in_root (pd_installation d1))"
  obtain b d2 where sp: "on_os (spawn_engine env ?c) d1 = (b, d2)" by fastforce
  then have 2: "d2 = snd (on_os (spawn_engine env ?c) d1)" "b = fst (spawn_engine env ?c (pd_os d1))"
    by (simp, metis fst_conv on_os_simps(1))
  have m2: "marked d2" "pd_child d2 = None" using m1 by (simp_all add: 2 marked_def pd_marker_def)
  show ?thesis
  proof (cases a)
    case (Inl e)
    then show ?thesis using assms(5) False g m1 by (auto simp: launch_engine_def intro: safe_marked)
  next
    case (Inr u)
    show ?thesis
    proof (cases b)
      case (Inr v)
      then show ?thesis using assms(5) False g sp m2 \<open>a = Ok u\<close>
        by (auto simp: launch_engine_def marked_def pd_marker_def)
    next
      case (Inl e)
      then have "\<not> pending (pd_os d2)"
        using reliable 2 unfolding spawn_reliable_def by (metis on_os_simps(2) prod.collapse)
      moreover have "d' = snd (on_fs (remove_file (pd_marker d2)) d2)" "\<not> is_ok r"
        using assms(5) False g sp Inl \<open>a = Ok u\<close>
        by (auto simp: launch_engine_def bind_io_def split: prod.splits sum.splits)
      ultimately show ?thesis using m2 by (simp add: safe_def)
    qed
  qed
qed

lemma spawn_safe:
  assumes laws: "engine_laws js env pending" and reliable: "spawn_reliable env pending"
    and s: "safe pending d" and n: "pd_child d = None"
  shows "safe pending (snd (spawn js api oenv env d))"
proof -
  let ?ld = "load_slot api (pd_installation d) (ei_slot (vl_identity (pd_layout d)))"
  obtain a d1 where l: "on_fs ?ld d = (a, d1)" by fastforce
  then have 1: "d1 = snd (on_fs ?ld d)" by simp
  have s1: "safe pending d1" "pd_child d1 = None" using n only_at_safe [where T = "{}" and f = ?ld, OF _ _ s] by (simp_all add: 1 load_slot_only_at)
  obtain b d2 where w: "write_marker js oenv d1 = (b, d2)" by fastforce
  note f2 = write_marker_frame [OF w] write_marker_marked [OF w]
  have s2: "safe pending d2" using s1 f2 by (auto simp: safe_def)
  show ?thesis
  proof (cases "\<exists>v. a = Ok v \<and> layout_authorize v (vl_identity (pd_layout d1)) = Ok () \<and> b = Ok ()")
    case False
    then show ?thesis using l w s1 s2
      by (cases a; cases b) (auto simp: spawn_def bind_io_def split: sum.splits)
  next
    case True
    then obtain v where v: "a = Ok v" "layout_authorize v (vl_identity (pd_layout d1)) = Ok ()" "b = Ok ()" by blast
    obtain c d3 where e: "launch_engine env (vl_engine v) d2 = (c, d3)" by fastforce
    have "if is_ok c then marked d3 else safe pending d3"
      using launch_engine_safe [OF laws reliable _ _ e] f2 v s1 by simp
    moreover have "snd (spawn js api oenv env d) =
        (if is_ok c then snd (engine_control js env ''ready'' ''engine_ready'' d3) else d3)"
      using l w e v by (cases c) (simp_all add: spawn_def)
    ultimately show ?thesis
      by (simp add: safe_marked same_files_marked [OF engine_control_same] split: if_splits)
  qed
qed

lemma guard_safe:
  "safe pending d \<Longrightarrow> name \<noteq> ACTIVE_ENGINE_NAME \<Longrightarrow>
   safe pending (snd (on_fs (guard_at oenv (in_root (pd_installation d) @ [name])) d))"
  by (rule only_at_safe [where T = "{in_root (pd_installation d) @ [name]}"])
    (simp_all add: writers_only_at pd_marker_def marker_path_def)

lemma guard_acquire_eq: "guard_acquire oenv root = guard_at oenv (root @ [''mutation.lock''])"
  by (simp add: guard_acquire_def fun_eq_iff)

lemma guard_acquire_safe:
  "safe pending d \<Longrightarrow> safe pending (snd (on_fs (guard_acquire oenv (in_root (pd_installation d))) d))"
  using guard_safe [of pending d "''mutation.lock''" oenv] by (simp add: guard_acquire_eq ACTIVE_ENGINE_NAME_def)

lemma read_safe: "safe pending d \<Longrightarrow> safe pending (snd (on_fs (read_bounded p k) d))"
  by (rule only_at_safe [where T = "{}"]) (simp_all add: readers_only_at)

lemma load_slot_safe: "safe pending d \<Longrightarrow> safe pending (snd (on_fs (load_slot api inst slot) d))"
  by (rule only_at_safe [where T = "{}"]) (simp_all add: load_slot_only_at)

lemma safe_bind:
  assumes "safe pending (snd m) \<and> P (snd m)"
    and "\<And>x d. m = (Ok x, d) \<Longrightarrow> safe pending d \<Longrightarrow> P d \<Longrightarrow> safe pending (snd (f x d))"
  shows "safe pending (snd (bind_io m f))"
  using assms by (cases m; cases "fst m") auto

lemma recover_safe:
  assumes laws: "engine_laws js env pending" and reliable: "spawn_reliable env pending" and s: "safe pending d"
  shows "safe pending (snd (recover js api oenv env d))"
proof (cases "pd_child d = None")
  case True
  obtain b d1 where e: "on_fs (path_exists (pd_marker d)) d = (b, d1)" by fastforce
  then have 1: "d1 = snd (on_fs (path_exists (pd_marker d)) d)" by simp
  let ?I = "\<lambda>d. safe pending d \<and> pd_child d = None"
  have s1: "?I d1" using exists_safe [OF s] True by (simp add: 1)
  have guard: "?I (snd (on_fs (guard_at oenv (in_root (pd_installation d) @ [''engine-owner.lock''])) d))" if "?I d" for d
    using that by (simp add: guard_safe ACTIVE_ENGINE_NAME_def)
  have read: "?I (snd (on_fs (read_bounded p k) d))" if "?I d" for p k d
    using that by (simp add: read_safe)
  have "safe pending (snd (bind_io (on_fs (guard_at oenv (in_root (pd_installation d1) @ [''engine-owner.lock''])) d1) (\<lambda>_ d.
           bind_io (on_fs (read_bounded (pd_marker d) MAX_DISPATCHER_FRAME) d) (\<lambda>bs d.
           bind_io (ok_or blocked (identity_from_slice js bs), d) (\<lambda>identity d.
           bind_io (layout_authorize (pd_layout d) identity, d) (\<lambda>_ d.
             spawn js api oenv env d))))))"
    by (intro safe_bind [where P = "\<lambda>d. pd_child d = None"])
      (use s1 guard read spawn_safe [OF laws reliable] in \<open>auto simp del: bind_io_simps\<close>)
  then show ?thesis using True e s1 by (simp add: recover_def)
qed (use s in \<open>simp add: recover_def\<close>)

lemma shut_down_safe:
  assumes laws: "engine_laws js env pending" and s: "safe pending d" and n: "pd_child d \<noteq> None"
  shows "safe pending (snd (shut_down js env d))"
proof -
  obtain r d1 where c: "engine_control js env ''stop'' ''engine_stopped'' d = (r, d1)" by fastforce
  have m1: "marked d1" using s n same_files_marked [OF engine_control_same] c by (metis safe_def snd_conv)
  show ?thesis
  proof (cases r)
    case (Inl e)
    then show ?thesis using c m1 by (simp add: shut_down_def safe_marked)
  next
    case (Inr u)
    have np: "\<not> pending (pd_os d1)" using engine_stopped_not_pending [OF laws] c Inr by blast
    define d2 where "d2 = (if pd_child d1 = Some True then (do_os (close_stdin env) d1)\<lparr>pd_child := Some False\<rparr> else d1)"
    have m2: "marked d2" "\<not> pending (pd_os d2)"
      using m1 np engine_lawsD(5) [OF laws] by (auto simp: d2_def marked_def pd_marker_def)
    obtain q d3 where w: "wait_for_exit env d2 = (q, d3)" by fastforce
    have m3: "marked d3" "\<not> pending (pd_os d3)"
      using m2 same_files_marked [OF wait_for_exit_same, of env d2] wait_for_exit_calm [OF laws, of d2] w
      by (auto simp: calm_def)
    define d4 where "d4 = release_tree env (d3\<lparr>pd_child := None\<rparr>)"
    have "\<not> pending (pd_os d4)" "pd_child d4 = None"
      using m3 calm_calls(7) [OF laws, of "d3\<lparr>pd_child := None\<rparr>"] by (simp_all add: d4_def calm_def)
    then have s4: "safe pending (snd (on_fs f d4))" for f :: "fs \<Rightarrow> (io_error, unit) result \<times> fs"
      by (simp add: safe_def)
    show ?thesis
      using c Inr w m1 m3 s4 by (cases q) (auto simp: shut_down_def Let_def d2_def [symmetric] d4_def [symmetric] safe_marked)
  qed
qed

lemma stop_safe:
  assumes laws: "engine_laws js env pending" and reliable: "spawn_reliable env pending" and s: "safe pending d"
  shows "safe pending (snd (stop js api oenv env d))"
proof -
  have reap: "safe pending (snd (reap_failed env d))" "safe pending (snd (reap_exited env d))" if "safe pending d" for d
    using calm_safe' [OF reap_calm(1) [OF laws] reap_same(1) that] calm_safe' [OF reap_calm(2) [OF laws] reap_same(2) that] .
  show ?thesis
    unfolding stop_def
    by (intro safe_bind [where P = "\<lambda>_. True"])
      (use s reap recover_safe [OF laws reliable] shut_down_safe [OF laws] in auto)
qed

lemma start_safe:
  assumes laws: "engine_laws js env pending" and reliable: "spawn_reliable env pending" and s: "safe pending d"
  shows "safe pending (snd (start js api oenv env d))"
proof -
  obtain b d1 where e: "on_fs (path_exists (pd_marker d)) d = (b, d1)" by fastforce
  then have 1: "d1 = snd (on_fs (path_exists (pd_marker d)) d)" by simp
  have "safe pending d1" "pd_child d1 = pd_child d" using exists_safe [OF s] by (simp_all add: 1)
  moreover have "safe pending (snd (on_os (try_wait env) d))"
    by (rule calm_safe' [OF calm_calls(1) [OF laws] same_files_calls(1) s])
  then have "safe pending (snd (bind_io (on_os (try_wait env) d) (\<lambda>exited d. (if exited then Err blocked else Ok (), d))))"
    by (intro safe_bind [where P = "\<lambda>_. True"]) auto
  ultimately show ?thesis
    using s e spawn_safe [OF laws reliable] by (auto simp: start_def)
qed

lemma cleanup_previous_only_at:
  "only_at (insert (in_root inst @ [''engine-owner.lock'']) (tree (releases_dir inst))) w
     (snd (cleanup_previous api env inst own w))"
proof -
  let ?T = "insert (in_root inst @ [''engine-owner.lock'']) (tree (releases_dir inst))"
  have t: "tree (releases_dir inst @ [name]) \<subseteq> ?T" for name
    by (auto simp: tree_def dest: append_prefixD)
  have c: "only_at ?T w (snd (collect_releases api env inst dispatcher current names w))" for dispatcher current names w
  proof (induction names arbitrary: w)
    case (Cons name names)
    then show ?case
      by (auto intro!: only_at_rules collectable_only_at dest: subsetD [OF t])
  qed (simp add: only_at_refl)
  show ?thesis
    unfolding cleanup_previous_def Let_def
    by (auto intro!: only_at_rules c)
qed

lemma select_layout_safe:
  assumes s: "safe pending d"
  shows "safe pending (snd (select_layout api identity d))"
proof -
  obtain b d1 where e: "on_fs (path_exists (pd_marker d)) d = (b, d1)" by fastforce
  then have 1: "d1 = snd (on_fs (path_exists (pd_marker d)) d)" by simp
  have s1: "safe pending d1" using exists_safe [OF s] by (simp add: 1)
  have "safe pending (snd (bind_io (on_fs (load_slot api (pd_installation d1) (ei_slot identity)) d1) (\<lambda>selected d.
           bind_io (layout_authorize selected identity, d) (\<lambda>_ d. (Ok (), d\<lparr>pd_layout := selected\<rparr>)))))"
    by (intro safe_bind [where P = "\<lambda>_. True"])
      (simp_all add: s1 load_slot_safe safe_updates)
  then show ?thesis using s s1 e by (simp add: select_layout_def)
qed

lemma cleanup_safe:
  assumes "safe pending d"
  shows "safe pending (snd (on_fs (cleanup_previous api oenv (pd_installation d) own) d))"
proof (rule only_at_safe [OF _ _ assms])
  let ?inst = "pd_installation d"
  show "only_at (insert (in_root ?inst @ [''engine-owner.lock'']) (tree (releases_dir ?inst))) (pd_fs d)
      (snd (cleanup_previous api oenv ?inst own (pd_fs d)))"
    by (rule cleanup_previous_only_at)
  show "pd_marker d \<notin> insert (in_root ?inst @ [''engine-owner.lock'']) (tree (releases_dir ?inst))"
    by (simp add: pd_marker_def marker_path_def ACTIVE_ENGINE_NAME_def tree_def releases_dir_def)
qed

lemma dispatch_safe:
  assumes laws: "engine_laws js env pending" and reliable: "spawn_reliable env pending" and s: "safe pending d"
  shows "safe pending (snd (dispatch js api oenv env own request d))"
proof (cases request)
  case (DCleanup c i)
  have "safe pending (snd (bind_io (stop js api oenv env d) (\<lambda>_ d.
       on_fs (cleanup_previous api oenv (pd_installation d) own) d)))"
    by (intro safe_bind [where P = "\<lambda>_. True"]) (simp_all add: stop_safe [OF laws reliable s] cleanup_safe)
  then show ?thesis using DCleanup by simp
qed (use start_safe [OF laws reliable s] stop_safe [OF laws reliable s] s in simp_all)

lemma handle_inner_safe:
  assumes laws: "engine_laws js env pending" and reliable: "spawn_reliable env pending" and s: "safe pending d"
  shows "safe pending (snd (handle_inner js api oenv env own request d))"
proof -
  have "safe pending (snd (bind_io (on_fs (guard_acquire oenv (in_root (pd_installation d))) d) (\<lambda>_ d.
        bind_io (case request_identity request of
                   None \<Rightarrow> (Ok (), d)
                 | Some identity \<Rightarrow> select_layout api identity d) (\<lambda>_ d.
          dispatch js api oenv env own request d))))"
  proof (intro safe_bind [where P = "\<lambda>_. True"] conjI TrueI)
    show "safe pending (snd (on_fs (guard_acquire oenv (in_root (pd_installation d))) d))"
      by (rule guard_acquire_safe [OF s])
  next
    fix d assume "safe pending d"
    then show "safe pending (snd (case request_identity request of
                   None \<Rightarrow> (Ok (), d)
                 | Some identity \<Rightarrow> select_layout api identity d))"
      by (simp add: select_layout_safe split: option.splits)
  qed (rule dispatch_safe [OF laws reliable])
  then show ?thesis using s by (simp add: handle_inner_def)
qed

lemma handle_request_safe:
  assumes laws: "engine_laws js env pending" and reliable: "spawn_reliable env pending" and s: "safe pending d"
  shows "safe pending (snd (handle_request js api oenv env own request d))"
proof -
  obtain r d1 where h: "handle_inner js api oenv env own request d = (r, d1)" by fastforce
  have s1: "safe pending d1" using handle_inner_safe [OF assms, of api oenv own request] h by simp
  have "safe pending (snd (on_os (try_wait env) d1))"
    by (rule calm_safe' [OF calm_calls(1) [OF laws] same_files_calls(1) s1])
  then show ?thesis
    using h s1 by (cases r) (auto simp: handle_request_def split: prod.splits)
qed

lemma relay_safe:
  assumes s: "safe pending d"
  shows "safe pending (snd (relay js oenv env frame d))"
proof -
  have "safe pending (snd (exchange js env frame d))" if "safe pending d" "pd_child d \<noteq> None" for d
    using that same_files_marked [OF exchange_same, of js env frame d] by (auto simp: safe_def)
  then show ?thesis
    unfolding relay_def using s guard_acquire_safe [OF s] by (intro safe_bind [where P = "\<lambda>_. True"]) auto
qed

lemma authorize_broker_safe:
  assumes s: "safe pending d"
  shows "safe pending (snd (authorize_broker api obs owner executable d))"
proof -
  obtain r c w where a: "cache_authorize api obs (vl_broker (pd_layout d)) owner executable
      (pd_broker_authorization d, pd_fs d) = (r, c, w)" by (metis prod_cases3)
  have "only_at {} (pd_fs d) w"
    using readers_only_at(1) [of "{}" "pd_fs d" "snd executable"] a
    by (auto simp: cache_authorize_def Let_def only_at_refl split: prod.splits sum.splits if_splits)
  then have "nodes w = nodes (pd_fs d)" using only_at_empty by blast
  then show ?thesis
    using s a by (simp add: authorize_broker_def safe_def marked_def pd_marker_def)
qed

text \<open>The invariant of a machine: what an engine left behind has a marker, whether a dispatcher runs or
  not.\<close>

fun machine_safe :: "installation \<Rightarrow> ('w \<Rightarrow> bool) \<Rightarrow> 'w machine \<Rightarrow> bool" where
  "machine_safe inst pending (Running d) \<longleftrightarrow> pd_installation d = inst \<and> safe pending d"
| "machine_safe inst pending (Down h) \<longleftrightarrow>
     (pending (ho_os h) \<longrightarrow> nodes (ho_fs h) (marker_path inst) \<noteq> None)"

lemma boot_safe:
  assumes "machine_safe inst pending (Down h)"
  shows "machine_safe inst pending (boot js api inst fs h)"
proof -
  have "only_at {} w (snd (initial_layout js api inst w))" for w
    unfolding initial_layout_def Let_def
    by (auto intro!: only_at_rules simp: load_def)
  then have n: "nodes (snd (initial_layout js api inst w)) = nodes w" for w
    using only_at_empty by blast
  obtain r w where i: "initial_layout js api inst (ho_fs (host_with_faults fs h)) = (r, w)" by fastforce
  have "nodes w = nodes (ho_fs h)" using n [of "ho_fs (host_with_faults fs h)"] i by (simp add: host_with_faults_def)
  then show ?thesis
    using assms i by (cases r)
      (auto simp: boot_def new_dispatcher_def Let_def safe_def marked_def pd_marker_def host_with_faults_def)
qed

text \<open>No request moves a dispatcher to another installation.\<close>

definition same_installation :: "'w process_dispatcher \<Rightarrow> 'w process_dispatcher \<Rightarrow> bool" where
  "same_installation d d' \<longleftrightarrow> pd_installation d' = pd_installation d"

named_theorems same_installation_rules

lemma same_installation_refl [same_installation_rules]: "same_installation d d"
  by (simp add: same_installation_def)

lemma same_installation_trans: "same_installation d d' \<Longrightarrow> same_installation d' d'' \<Longrightarrow> same_installation d d''"
  by (simp add: same_installation_def)

lemma same_installation_bind [same_installation_rules]:
  "same_installation d (snd m) \<Longrightarrow> (\<And>x d'. same_installation d' (snd (f x d'))) \<Longrightarrow>
   same_installation d (snd (bind_io m f))"
  by (cases m; cases "fst m") (auto simp: same_installation_def)

lemma same_installation_let [same_installation_rules]:
  "same_installation d (snd m) \<Longrightarrow> (\<And>x d'. same_installation d' (snd (f x d'))) \<Longrightarrow>
   same_installation d (snd (case m of (x, d') \<Rightarrow> f x d'))"
  by (cases m) (auto simp: same_installation_def)

lemma same_installation_calls [same_installation_rules]:
  "same_installation d (snd (on_fs f d))" "same_installation d (snd (on_os g d))"
  "same_installation d (d\<lparr>pd_layout := l\<rparr>)" "same_installation d (d\<lparr>pd_channel_failed := b\<rparr>)"
  by (simp_all add: same_installation_def same_files_def)

lemma same_files_installation: "same_files d d' \<Longrightarrow> same_installation d d'"
  by (simp add: same_installation_def same_files_def)

lemmas engine_calls_installation = same_files_installation [OF engine_control_same]
  same_files_installation [OF reap_same(1)] same_files_installation [OF reap_same(2)]
  same_files_installation [OF exchange_same]

lemma launch_engine_installation: "same_installation d (snd (launch_engine env engine d))"
  by (auto simp: launch_engine_def same_installation_def bind_io_def split: prod.splits sum.splits
      dest!: arg_cong [where f = "\<lambda>x. pd_installation (snd x)"])

lemma spawn_installation: "same_installation d (snd (spawn js api oenv env d))"
proof -
  have "same_installation d (snd (write_marker js oenv d))" for d :: "'a process_dispatcher"
    unfolding write_marker_def by (auto intro!: same_installation_rules)
  then show ?thesis
    unfolding spawn_def by (auto intro!: same_installation_rules launch_engine_installation engine_calls_installation)
qed

lemma stop_installation: "same_installation d (snd (stop js api oenv env d))"
proof -
  have "same_installation d (snd (recover js api oenv env d))" for d
    unfolding recover_def by (auto intro!: same_installation_rules spawn_installation)
  moreover have "same_installation d (snd (shut_down js env d))" for d :: "'a process_dispatcher"
  proof -
    have w: "same_installation d (snd (wait_for_exit env
        (if pd_child d = Some True then (do_os (close_stdin env) d)\<lparr>pd_child := Some False\<rparr> else d)))"
      for d :: "'a process_dispatcher"
      using wait_for_exit_same [of "if pd_child d = Some True then (do_os (close_stdin env) d)\<lparr>pd_child := Some False\<rparr> else d" env]
      by (auto simp: same_installation_def same_files_def)
    have r: "same_installation d (snd (on_fs (remove_file p) (release_tree env (d\<lparr>pd_child := None\<rparr>))))"
      for d :: "'a process_dispatcher" and p
      by (simp add: same_installation_def release_tree_def)
    show ?thesis
      unfolding shut_down_def Let_def by (intro same_installation_rules engine_calls_installation w r) (simp add: same_installation_refl)
  qed
  ultimately show ?thesis
    unfolding stop_def by (auto intro!: same_installation_rules engine_calls_installation)
qed

lemma installation_same:
  "pd_installation (snd (handle_request js api oenv env own request d)) = pd_installation d"
  "pd_installation (snd (relay js oenv env frame d)) = pd_installation d"
  "pd_installation (snd (authorize_broker api obs owner executable d)) = pd_installation d"
proof -
  have "same_installation d (snd (start js api oenv env d))" for d
    unfolding start_def by (auto intro!: same_installation_rules spawn_installation)
  then have dispatch: "same_installation d (snd (dispatch js api oenv env own request d))" for d
    by (cases request) (auto intro!: same_installation_rules stop_installation)
  have "same_installation d (snd (select_layout api identity d))" for d :: "'a process_dispatcher" and identity
    unfolding select_layout_def by (auto intro!: same_installation_rules)
  then have "same_installation d (snd (handle_inner js api oenv env own request d))"
    unfolding handle_inner_def by (auto intro!: same_installation_rules dispatch split: option.splits)
  then show "pd_installation (snd (handle_request js api oenv env own request d)) = pd_installation d"
    by (cases "handle_inner js api oenv env own request d"; cases "fst (handle_inner js api oenv env own request d)")
      (auto simp: handle_request_def same_installation_def on_os_def split: prod.splits)
  have "same_installation d (snd (relay js oenv env frame d))"
    unfolding relay_def by (auto intro!: same_installation_rules engine_calls_installation)
  then show "pd_installation (snd (relay js oenv env frame d)) = pd_installation d"
    by (simp add: same_installation_def)
  show "pd_installation (snd (authorize_broker api obs owner executable d)) = pd_installation d"
    by (simp add: authorize_broker_def split: prod.splits)
qed

lemma dispatcher_step_safe:
  assumes laws: "engine_laws js env pending" and reliable: "spawn_reliable env pending"
    and s: "machine_safe inst pending m"
  shows "machine_safe inst pending (dispatcher_step js api inst env m x)"
proof (cases m)
  case (Down h)
  then show ?thesis using s boot_safe [of inst pending h] by (cases x) simp_all
next
  case (Running d)
  have f: "safe pending (with_faults fs d)" "pd_installation (with_faults fs d) = inst" for fs
    using s Running by (auto simp: with_faults_def host_with_faults_def safe_def marked_def pd_marker_def)
  show ?thesis
  proof (cases x)
    case (OpRestart fs)
    let ?d = "release_tree env (drop_dispatcher env d)"
    have "calm pending d ?d"
      using calm_calls(5) [OF laws, of d]
      by (intro calm_trans [OF _ calm_calls(7) [OF laws]]) (auto simp: drop_dispatcher_def calm_def)
    moreover have "same_files d ?d"
      by (intro same_files_trans [OF _ release_tree_same]) (auto simp: drop_dispatcher_def same_files_def)
    ultimately have "machine_safe inst pending (Down (pd_host ?d))"
      using s Running by (auto simp: calm_def same_files_def safe_def marked_def pd_marker_def)
    then show ?thesis using Running OpRestart boot_safe by simp
  qed (use f Running handle_request_safe [OF laws reliable]
        in \<open>simp_all add: installation_same relay_safe authorize_broker_safe\<close>)
qed

section \<open>A stop that succeeds\<close>

lemma shut_down_Ok:
  assumes laws: "engine_laws js env pending" and "shut_down js env d = (Ok u, d')"
  shows "pd_child d' = None \<and> \<not> marked d' \<and> \<not> pending (pd_os d')"
proof -
  from assms(2) obtain d1 where c: "engine_control js env ''stop'' ''engine_stopped'' d = (Ok (), d1)"
    by (auto simp: shut_down_def bind_io_eq_Ok_iff)
  have np: "\<not> pending (pd_os d1)" using engine_stopped_not_pending [OF laws c] .
  define d2 where "d2 = (if pd_child d1 = Some True then (do_os (close_stdin env) d1)\<lparr>pd_child := Some False\<rparr> else d1)"
  have "\<not> pending (pd_os d2)" using np engine_lawsD(5) [OF laws] by (auto simp: d2_def)
  moreover obtain q d3 where w: "wait_for_exit env d2 = (q, d3)" by fastforce
  ultimately have "\<not> pending (pd_os d3)" using wait_for_exit_calm [OF laws, of d2] by (auto simp: calm_def)
  moreover define d4 where "d4 = release_tree env (d3\<lparr>pd_child := None\<rparr>)"
  ultimately have "\<not> pending (pd_os d4)" "pd_child d4 = None"
    using calm_calls(7) [OF laws, of "d3\<lparr>pd_child := None\<rparr>"] by (simp_all add: calm_def)
  moreover have "on_fs (remove_file (pd_marker d4)) d4 = (Ok (), d')"
    using assms(2) c w unfolding shut_down_def Let_def
    by (auto simp: bind_io_eq_Ok_iff d2_def [symmetric] d4_def [symmetric] Let_def split: if_splits)
  moreover from this have "d' = snd (on_fs (remove_file (pd_marker d4)) d4)"
    "fst (remove_file (pd_marker d4) (pd_fs d4)) = Ok ()"
    by (simp, metis fst_conv on_fs_simps(1))
  moreover have "nodes (snd (remove_file p w)) p = None" if "fst (remove_file p w) = Ok ()" for p w
    using that by (auto simp: remove_file_def split: prod.splits option.splits if_splits)
  ultimately show ?thesis by (simp add: marked_def pd_marker_def)
qed

text \<open>With no fault ahead and no link in the way, \<^verbatim>\<open>exists\<close> sees the marker.\<close>

definition sees_marker :: "'w process_dispatcher \<Rightarrow> bool" where
  "sees_marker d \<longleftrightarrow>
     faults (pd_fs d) = []
     \<and> (\<forall>n. nodes (pd_fs d) (pd_marker d) = Some n \<longrightarrow> \<not> is_symlink (nd_kind n))"

lemma exists_marker:
  assumes "sees_marker d" and "on_fs (path_exists (pd_marker d)) d = (b, d')"
  shows "d' = d \<and> b = marked d"
  using assms
  by (auto simp: sees_marker_def on_fs_def path_exists_def next_fault_def marked_def
      split: option.splits node_kind.splits)

lemma only_at_sees:
  assumes "sees_marker d" and "only_at T (pd_fs d) (snd (f (pd_fs d)))" and "pd_marker d \<notin> T"
  shows "sees_marker (snd (on_fs f d))"
  using assms by (auto simp: sees_marker_def only_at_def pd_marker_def)

lemma spawn_Ok:
  assumes "spawn js api oenv env d = (Ok u, d')"
  shows "pd_child d' \<noteq> None"
proof -
  from assms obtain v d1 d2 where l: "launch_engine env v d1 = (Ok (), d2)"
    and e: "engine_control js env ''ready'' ''engine_ready'' d2 = (Ok (), d')"
    by (auto simp: spawn_def bind_io_eq_Ok_iff)
  have "pd_child d2 \<noteq> None"
    using l
    by (auto simp: launch_engine_def bind_io_eq_Ok_iff case_prod_beta split: if_splits sum.splits)
      (metis old.unit.exhaust sum.exhaust)
  then show ?thesis using same_stateD(2) [OF engine_control_state] e by (metis snd_conv)
qed

lemma stop_Ok:
  assumes laws: "engine_laws js env pending" and s: "safe pending d" and see: "sees_marker d"
    and "stop js api oenv env d = (Ok u, d')"
  shows "pd_child d' = None \<and> \<not> marked d' \<and> \<not> pending (pd_os d')"
proof -
  from assms(4) obtain d1 d2 d3 where 1: "reap_failed env d = (Ok (), d1)" and 2: "reap_exited env d1 = (Ok (), d2)"
    and 3: "recover js api oenv env d2 = (Ok (), d3)"
    and 4: "(if pd_child d3 = None then (Ok (), d3) else shut_down js env d3) = (Ok (), d')"
    by (auto simp: stop_def bind_io_eq_Ok_iff)
  have f: "same_files d d2"
    using same_files_trans [OF reap_same(1) [of d env], of d2] reap_same(2) [of d1 env] 1 2 by simp
  have c: "calm pending d d2"
    using calm_trans [OF reap_calm(1) [OF laws, of d], of d2] reap_calm(2) [OF laws, of d1] 1 2 by simp
  have s2: "safe pending d2" using calm_safe' [OF c f s] .
  have see2: "sees_marker d2" using see f by (simp add: sees_marker_def same_files_def pd_marker_def)
  show ?thesis
  proof (cases "pd_child d3 = None")
    case False
    with 4 show ?thesis using shut_down_Ok [OF laws] by auto
  next
    case True
    obtain b d' where e: "on_fs (path_exists (pd_marker d2)) d2 = (b, d')" by fastforce
    note ex = exists_marker [OF see2 e]
    have "pd_child d2 = None" using 3 True by (auto simp: recover_def split: if_splits)
    moreover have "\<not> b"
    proof
      assume b
      then have "\<exists>d4. spawn js api oenv env d4 = (Ok (), d3)"
        using 3 e \<open>pd_child d2 = None\<close> by (auto simp: recover_def bind_io_eq_Ok_iff)
      then show False using spawn_Ok True by blast
    qed
    ultimately have "d3 = d2" using 3 e ex by (simp add: recover_def)
    with 4 True ex \<open>\<not> b\<close> s2 show ?thesis by (auto simp: safe_def)
  qed
qed

lemma select_layout_sees: "sees_marker d \<Longrightarrow> sees_marker (snd (select_layout api identity d))"
proof -
  assume see: "sees_marker d"
  obtain b d1 where e: "on_fs (path_exists (pd_marker d)) d = (b, d1)" by fastforce
  note ex = exists_marker [OF see e]
  obtain r d2 where l: "on_fs (load_slot api (pd_installation d) (ei_slot identity)) d = (r, d2)" by fastforce
  have "sees_marker d2"
    using only_at_sees [OF see, of "{}" "load_slot api (pd_installation d) (ei_slot identity)"] l by (simp add: load_slot_only_at)
  then show ?thesis using see e l ex
    by (cases r) (auto simp: select_layout_def bind_io_def sees_marker_def pd_marker_def split: sum.splits)
qed

lemma handle_stop_Ok:
  assumes laws: "engine_laws js env pending" and s: "safe pending d" and see: "sees_marker d"
    and h: "handle_request js api oenv env own (DStop c identity) d = (response, d')" and ok: "dr_ok response"
  shows "pd_child d' = None \<and> \<not> marked d' \<and> \<not> pending (pd_os d')"
proof -
  let ?g = "guard_at oenv (in_root (pd_installation d) @ [''mutation.lock''])"
  obtain r d3 where i: "handle_inner js api oenv env own (DStop c identity) d = (r, d3)" by fastforce
  with h ok have r: "r = Ok ()" by (cases r) (auto simp: handle_request_def dispatcher_failure_def)
  then obtain d1 d2 where 1: "on_fs ?g d = (Ok (), d1)" and 2: "select_layout api identity d1 = (Ok (), d2)"
    and 3: "stop js api oenv env d2 = (Ok (), d3)"
    using i by (auto simp: handle_inner_def guard_acquire_eq bind_io_eq_Ok_iff split: if_splits)
  have "safe pending d1" using guard_safe [OF s, of "''mutation.lock''" oenv] 1 by (simp add: ACTIVE_ENGINE_NAME_def)
  then have s2: "safe pending d2" using select_layout_safe 2 by (metis snd_conv)
  have "sees_marker d1"
    using only_at_sees [OF see, of "{in_root (pd_installation d) @ [''mutation.lock'']}" ?g] 1
    by (simp add: writers_only_at pd_marker_def marker_path_def ACTIVE_ENGINE_NAME_def)
  then have see2: "sees_marker d2" using select_layout_sees 2 by (metis snd_conv)
  note final = stop_Ok [OF laws s2 see2 3]
  then have "d' = d3" using h i r by (simp add: handle_request_def)
  with final show ?thesis by simp
qed

section \<open>What is launched\<close>

text \<open>\<open>launched\<close>: the commands that have been run on the machine, of which only \<^verbatim>\<open>Command::spawn\<close> adds one.\<close>

definition launch_log :: "'w engine_env \<Rightarrow> ('w \<Rightarrow> engine_command set) \<Rightarrow> bool" where
  "launch_log env launched \<longleftrightarrow>
     (\<forall>c w. launched (snd (spawn_engine env c w)) \<subseteq> insert c (launched w))
     \<and> (\<forall>w. launched (snd (own_process_group env w)) \<subseteq> launched w)
     \<and> (\<forall>w. launched (snd (try_wait env w)) \<subseteq> launched w)
     \<and> (\<forall>w. launched (snd (kill_child env w)) \<subseteq> launched w)
     \<and> (\<forall>w. launched (snd (wait_child env w)) \<subseteq> launched w)
     \<and> (\<forall>w. launched (close_stdin env w) \<subseteq> launched w)
     \<and> (\<forall>w. launched (release_group env w) \<subseteq> launched w)
     \<and> (\<forall>frame w. launched (snd (write_stdin env frame w)) \<subseteq> launched w)
     \<and> (\<forall>w. launched (snd (flush_stdin env w)) \<subseteq> launched w)
     \<and> (\<forall>rest w. launched (consume env rest w) \<subseteq> launched w)
     \<and> (\<forall>p engine w. launched (snd (run_primitive env p engine w)) \<subseteq> launched w)"

lemma launch_logD:
  assumes "launch_log env launched"
  shows "launched (snd (spawn_engine env c w)) \<subseteq> insert c (launched w)"
    "launched (snd (own_process_group env w)) \<subseteq> launched w" "launched (snd (try_wait env w)) \<subseteq> launched w"
    "launched (snd (kill_child env w)) \<subseteq> launched w" "launched (snd (wait_child env w)) \<subseteq> launched w"
    "launched (close_stdin env w) \<subseteq> launched w" "launched (release_group env w) \<subseteq> launched w"
    "launched (snd (write_stdin env frame w)) \<subseteq> launched w" "launched (snd (flush_stdin env w)) \<subseteq> launched w"
    "launched (consume env rest w) \<subseteq> launched w" "launched (snd (run_primitive env p engine w)) \<subseteq> launched w"
  using assms unfolding launch_log_def by simp_all

definition quiet :: "('w \<Rightarrow> engine_command set) \<Rightarrow> 'w process_dispatcher \<Rightarrow> 'w process_dispatcher \<Rightarrow> bool" where
  "quiet launched d d' \<longleftrightarrow> launched (pd_os d') \<subseteq> launched (pd_os d)"

named_theorems quiet_rules

lemma quiet_refl [quiet_rules]: "quiet launched d d"
  by (simp add: quiet_def)

lemma quiet_trans: "quiet launched d d' \<Longrightarrow> quiet launched d' d'' \<Longrightarrow> quiet launched d d''"
  by (auto simp: quiet_def)

lemma quiet_bind [quiet_rules]:
  "quiet launched d (snd m) \<Longrightarrow> (\<And>x d'. quiet launched d' (snd (f x d'))) \<Longrightarrow> quiet launched d (snd (bind_io m f))"
  by (cases m; cases "fst m") (auto intro: quiet_trans)

lemma quiet_case [quiet_rules]:
  "quiet launched d (snd m) \<Longrightarrow> (\<And>x d'. quiet launched d' (snd (f x d'))) \<Longrightarrow>
   quiet launched d (snd (case m of (x, d') \<Rightarrow> f x d'))"
  by (cases m) (auto intro: quiet_trans)

lemma quiet_updates [quiet_rules]:
  "quiet launched d (snd (on_fs f d))" "quiet launched d (d\<lparr>pd_child := c\<rparr>)" "quiet launched d (d\<lparr>pd_layout := l\<rparr>)"
  "quiet launched d (d\<lparr>pd_channel_failed := b\<rparr>)" "quiet launched d (d\<lparr>pd_tree_owner := b\<rparr>)"
  by (simp_all add: quiet_def)

lemma quiet_calls:
  assumes "launch_log env launched"
  shows "quiet launched d (snd (on_os (own_process_group env) d))" "quiet launched d (snd (on_os (try_wait env) d))"
    "quiet launched d (snd (on_os (kill_child env) d))" "quiet launched d (snd (on_os (wait_child env) d))"
    "quiet launched d (do_os (close_stdin env) d)" "quiet launched d (release_tree env d)"
    "quiet launched d (snd (on_os (write_stdin env frame) d))" "quiet launched d (snd (on_os (flush_stdin env) d))"
    "quiet launched d (snd (on_os (run_primitive env p engine) d))" "quiet launched d (snd (read_engine env d))"
  using launch_logD [OF assms]
  by (simp_all add: quiet_def release_tree_def read_engine_def case_prod_beta)

lemma exchange_quiet:
  assumes log: "launch_log env launched"
  shows "quiet launched d (snd (exchange js env frame d))"
proof -
  note c = quiet_calls [OF log]
  have w: "quiet launched d (snd (write_engine env frame d))" for frame d
    unfolding write_engine_def by (intro quiet_rules c)
  have "quiet launched d (snd (exchange_reads js env n d))" for n d
  proof (induction n arbitrary: d)
    case (Suc n)
    have "quiet launched d (snd (case primitive_from_slice js body of
         None \<Rightarrow> (Ok response, d)
       | Some p \<Rightarrow>
           (case on_os (run_primitive env p (vl_engine (pd_layout d))) d of (result, d) \<Rightarrow>
            bind_io (encode_frame (primitive_ok_to_vec js (is_ok result)), d) (\<lambda>frame d.
            bind_io (write_engine env frame d) (\<lambda>_ d. exchange_reads js env n d)))))" for body response d
      by (cases "primitive_from_slice js body") (auto intro!: quiet_rules c w Suc.IH simp del: bind_io_simps)
    then show ?case
      unfolding exchange_reads.simps Let_def by (intro quiet_rules c) (simp_all add: quiet_refl)
  qed (simp add: quiet_refl)
  then have "quiet launched d (snd (exchange_inner js env frame d))"
    by (auto simp: exchange_inner_def intro!: quiet_rules w)
  then show ?thesis
    by (auto simp: exchange_def quiet_def split: prod.splits sum.splits)
qed

lemma engine_control_quiet:
  assumes "launch_log env launched"
  shows "quiet launched d (snd (engine_control js env control flag d))"
  unfolding engine_control_def by (intro quiet_rules exchange_quiet [OF assms]) (simp_all add: quiet_refl)

lemma reap_quiet:
  assumes "launch_log env launched"
  shows "quiet launched d (snd (reap_failed env d))" "quiet launched d (snd (reap_exited env d))"
proof -
  note c = quiet_calls [OF assms]
  have k: "quiet launched d (snd (kill_failed env d))" for d
    by (auto simp: kill_failed_def intro!: quiet_rules c)
  show "quiet launched d (snd (reap_failed env d))"
    by (auto simp: reap_failed_def intro!: quiet_rules quiet_trans [OF c(6) k])
  show "quiet launched d (snd (reap_exited env d))"
    by (auto simp: reap_exited_def intro!: quiet_rules c quiet_trans [OF _ c(6)])
qed

text \<open>A command that runs the engine of a complete installation with this identity.\<close>

definition verified_command ::
  "install_api \<Rightarrow> installation \<Rightarrow> engine_identity \<Rightarrow> (path \<Rightarrow> node option) \<Rightarrow> engine_command \<Rightarrow> bool" where
  "verified_command api inst identity f c \<longleftrightarrow>
     (\<exists>l. layout_of api inst (ei_slot identity) f l \<and> vl_identity l = identity
        \<and> c = command_for (vl_engine l) (in_root inst))"

lemma launch_engine_log:
  assumes log: "launch_log env launched"
  shows "launched (pd_os (snd (launch_engine env engine d)))
    \<subseteq> insert (command_for engine (in_root (pd_installation d))) (launched (pd_os d))"
proof -
  let ?c = "command_for engine (in_root (pd_installation d))"
  obtain a d1 where g: "on_os (own_process_group env) d = (a, d1)" by fastforce
  then have 1: "d1 = snd (on_os (own_process_group env) d)" by simp
  have l1: "launched (pd_os d1) \<subseteq> launched (pd_os d)" using launch_logD(2) [OF log] by (simp add: 1)
  obtain b d2 where sp: "on_os (spawn_engine env ?c) d1 = (b, d2)" by fastforce
  then have 2: "d2 = snd (on_os (spawn_engine env ?c) d1)" by simp
  have l2: "launched (pd_os d2) \<subseteq> insert ?c (launched (pd_os d))"
    using launch_logD(1) [OF log, of ?c "pd_os d1"] l1 by (auto simp: 2)
  have i: "pd_installation d1 = pd_installation d" by (simp add: 1)
  obtain q d3 where r: "on_fs (remove_file (pd_marker d2)) d2 = (q, d3)" by fastforce
  then have "pd_os d3 = pd_os d2" by (metis on_fs_simps(3) snd_conv)
  then show ?thesis
    using g sp l1 l2 r i by (cases a; cases b; cases q) (auto simp: launch_engine_def)
qed

lemma spawn_log:
  assumes log: "launch_log env launched"
  shows "launched (pd_os (snd (spawn js api oenv env d))) \<subseteq> launched (pd_os d)
    \<union> {c. verified_command api (pd_installation d) (vl_identity (pd_layout d)) (nodes (pd_fs d)) c}"
proof -
  let ?ld = "load_slot api (pd_installation d) (ei_slot (vl_identity (pd_layout d)))"
  obtain a d1 where l: "on_fs ?ld d = (a, d1)" by fastforce
  then have 1: "d1 = snd (on_fs ?ld d)" "a = fst (?ld (pd_fs d))" by (simp, metis fst_conv on_fs_simps(1))
  obtain b d2 where w: "write_marker js oenv d1 = (b, d2)" by fastforce
  note f2 = write_marker_frame [OF w]
  show ?thesis
  proof (cases "\<exists>v. a = Ok v \<and> layout_authorize v (vl_identity (pd_layout d1)) = Ok () \<and> b = Ok ()")
    case False
    then have "snd (spawn js api oenv env d) \<in> {d1, d2}" using l w
      by (cases a; cases b) (auto simp: spawn_def bind_io_def split: sum.splits)
    moreover have "pd_os d1 = pd_os d" "pd_os d2 = pd_os d" using f2 by (simp_all add: 1)
    ultimately show ?thesis by auto
  next
    case True
    then obtain v where v: "a = Ok v" "layout_authorize v (vl_identity (pd_layout d1)) = Ok ()" "b = Ok ()" by blast
    have lay: "layout_of api (pd_installation d) (ei_slot (vl_identity (pd_layout d))) (nodes (pd_fs d)) v"
      using load_slot_layout 1(2) v(1) by (metis prod.collapse)
    have "vl_identity v = vl_identity (pd_layout d)" using v(2) by (simp add: layout_authorize_def 1 split: if_splits)
    with lay have c: "verified_command api (pd_installation d) (vl_identity (pd_layout d)) (nodes (pd_fs d))
        (command_for (vl_engine v) (in_root (pd_installation d)))"
      by (auto simp: verified_command_def)
    obtain q d3 where e: "launch_engine env (vl_engine v) d2 = (q, d3)" by fastforce
    have "launched (pd_os d3) \<subseteq> insert (command_for (vl_engine v) (in_root (pd_installation d))) (launched (pd_os d))"
      using launch_engine_log [OF log, of "vl_engine v" d2] e f2 by (simp add: 1)
    moreover have "snd (spawn js api oenv env d) =
        (if is_ok q then snd (engine_control js env ''ready'' ''engine_ready'' d3) else d3)"
      using l w e v by (cases q) (simp_all add: spawn_def)
    ultimately show ?thesis
      using engine_control_quiet [OF log, of d3 js "''ready''" "''engine_ready''"] c by (auto simp: quiet_def)
  qed
qed

text \<open>The files that a request may touch before it launches the engine.\<close>

definition lock_files :: "installation \<Rightarrow> path set" where
  "lock_files inst = {in_root inst @ [''mutation.lock''], in_root inst @ [''engine-owner.lock'']}"

definition launches ::
  "install_api \<Rightarrow> ('w \<Rightarrow> engine_command set) \<Rightarrow> engine_identity \<Rightarrow> 'w process_dispatcher \<Rightarrow> engine_command set" where
  "launches api launched identity d = launched (pd_os d)
     \<union> {c. \<exists>f. (\<forall>p. p \<notin> lock_files (pd_installation d) \<longrightarrow> f p = nodes (pd_fs d) p)
            \<and> verified_command api (pd_installation d) identity f c}"

text \<open>A state on the way to the launch: the release is the requested one and its files are untouched.\<close>

definition on_the_way ::
  "install_api \<Rightarrow> ('w \<Rightarrow> engine_command set) \<Rightarrow> engine_identity \<Rightarrow> 'w process_dispatcher \<Rightarrow> 'w process_dispatcher \<Rightarrow> bool" where
  "on_the_way api launched identity d e \<longleftrightarrow>
     pd_installation e = pd_installation d \<and> only_at (lock_files (pd_installation d)) (pd_fs d) (pd_fs e)
     \<and> vl_identity (pd_layout e) = identity \<and> launched (pd_os e) \<subseteq> launches api launched identity d"

lemma on_the_way_same:
  "on_the_way api launched identity d e \<Longrightarrow> same_files e e' \<Longrightarrow> quiet launched e e' \<Longrightarrow>
   on_the_way api launched identity d e'"
  by (auto simp: on_the_way_def same_files_def quiet_def)

lemma on_the_way_fs:
  assumes "on_the_way api launched identity d e"
    and "only_at (lock_files (pd_installation d)) (pd_fs e) (snd (f (pd_fs e)))"
  shows "on_the_way api launched identity d (snd (on_fs f e))"
  using assms by (auto simp: on_the_way_def intro: only_at_trans)

lemma spawn_launches:
  assumes "launch_log env launched" and "on_the_way api launched identity d e"
  shows "launched (pd_os (snd (spawn js api oenv env e))) \<subseteq> launches api launched identity d"
  using spawn_log [OF assms(1), of js api oenv e] assms(2)
  by (auto simp: on_the_way_def launches_def only_at_def)

lemma launches_bind:
  assumes "launched (pd_os (snd m)) \<subseteq> X" and "\<And>x e. m = (Ok x, e) \<Longrightarrow> launched (pd_os (snd (f x e))) \<subseteq> X"
  shows "launched (pd_os (snd (bind_io m f))) \<subseteq> X"
  using assms by (cases m; cases "fst m") auto

lemma on_the_wayD: "on_the_way api launched identity d e \<Longrightarrow> launched (pd_os e) \<subseteq> launches api launched identity d"
  by (simp add: on_the_way_def)

lemma way_bind:
  assumes "on_the_way api launched identity d (snd m)"
    and "\<And>x e. on_the_way api launched identity d e \<Longrightarrow> launched (pd_os (snd (f x e))) \<subseteq> launches api launched identity d"
  shows "launched (pd_os (snd (bind_io m f))) \<subseteq> launches api launched identity d"
proof (rule launches_bind)
  show "launched (pd_os (snd m)) \<subseteq> launches api launched identity d" by (rule on_the_wayD [OF assms(1)])
  show "launched (pd_os (snd (f x e))) \<subseteq> launches api launched identity d" if "m = (Ok x, e)" for x e
    by (rule assms(2)) (use assms(1) that in simp)
qed

lemma recover_launches:
  assumes log: "launch_log env launched" and way: "on_the_way api launched identity d e"
  shows "launched (pd_os (snd (recover js api oenv env e))) \<subseteq> launches api launched identity d"
proof -
  let ?W = "on_the_way api launched identity d"
  obtain b e1 where x: "on_fs (path_exists (pd_marker e)) e = (b, e1)" by fastforce
  then have w1: "?W e1" using on_the_way_fs [OF way, of "path_exists (pd_marker e)"] by (simp add: only_at_calls)
  have g: "?W (snd (on_fs (guard_at oenv (in_root (pd_installation e) @ [''engine-owner.lock''])) e))" if "?W e" for e
    by (rule on_the_way_fs [OF that], rule writers_only_at)
      (use that in \<open>simp add: on_the_way_def lock_files_def\<close>)
  have r: "?W (snd (on_fs (read_bounded p k) e))" if "?W e" for p k e
    by (rule on_the_way_fs [OF that], rule readers_only_at)
  have "launched (pd_os (snd (bind_io (on_fs (guard_at oenv (in_root (pd_installation e1) @ [''engine-owner.lock''])) e1) (\<lambda>_ d.
           bind_io (on_fs (read_bounded (pd_marker d) MAX_DISPATCHER_FRAME) d) (\<lambda>bs d.
           bind_io (ok_or blocked (identity_from_slice js bs), d) (\<lambda>identity d.
           bind_io (layout_authorize (pd_layout d) identity, d) (\<lambda>_ d.
             spawn js api oenv env d)))))))
      \<subseteq> launches api launched identity d"
    by (intro way_bind) (simp_all add: w1 g r spawn_launches [OF log])
  then show ?thesis using x on_the_wayD [OF w1] on_the_wayD [OF way] by (simp add: recover_def)
qed

lemma shut_down_quiet:
  assumes log: "launch_log env launched"
  shows "quiet launched d (snd (shut_down js env d))"
proof -
  note c = quiet_calls [OF log]
  have w: "quiet launched d (snd (wait_for_exit env d))" for d
  proof -
    have "launched (ho_os (snd (wait_exit env (ho_clock (pd_host d) + 3000) (pd_host d)))) \<subseteq> launched (pd_os d)"
      by (rule wait_exit_rel [where R = "\<lambda>v w. launched w \<subseteq> launched v"])
        (use launch_logD(3-5) [OF log] in blast)+
    then show ?thesis by (simp add: wait_for_exit_def quiet_def case_prod_beta)
  qed
  have 1: "quiet launched d (if pd_child d = Some True then (do_os (close_stdin env) d)\<lparr>pd_child := Some False\<rparr> else d)" for d
    using c(5) [of d] by (simp add: quiet_def)
  have 2: "quiet launched d (snd (on_fs f (release_tree env (d\<lparr>pd_child := None\<rparr>))))" for d and f :: "fs \<Rightarrow> (io_error, unit) result \<times> fs"
    using c(6) [of "d\<lparr>pd_child := None\<rparr>"] by (simp add: quiet_def)
  show ?thesis
    unfolding shut_down_def Let_def
    by (intro quiet_rules engine_control_quiet [OF log] quiet_trans [OF 1 w] 2) (simp_all add: quiet_refl)
qed

lemma stop_launches:
  assumes log: "launch_log env launched" and way: "on_the_way api launched identity d e"
  shows "launched (pd_os (snd (stop js api oenv env e))) \<subseteq> launches api launched identity d"
proof -
  let ?X = "launches api launched identity d"
  have reap: "on_the_way api launched identity d (snd (reap_failed env e))"
    "on_the_way api launched identity d (snd (reap_exited env e))" if "on_the_way api launched identity d e" for e
    using on_the_way_same [OF that reap_same(1) reap_quiet(1) [OF log]]
      on_the_way_same [OF that reap_same(2) reap_quiet(2) [OF log]] .
  have last: "launched (pd_os (snd (bind_io (recover js api oenv env e) (\<lambda>_ d.
       if pd_child d = None then (Ok (), d) else shut_down js env d)))) \<subseteq> ?X" if "on_the_way api launched identity d e" for e
  proof (rule launches_bind)
    show r: "launched (pd_os (snd (recover js api oenv env e))) \<subseteq> ?X" by (rule recover_launches [OF log that])
    fix x e1 assume "recover js api oenv env e = (Ok x, e1)"
    with r have "launched (pd_os e1) \<subseteq> ?X" by simp
    then show "launched (pd_os (snd (if pd_child e1 = None then (Ok (), e1) else shut_down js env e1))) \<subseteq> ?X"
      using shut_down_quiet [OF log, of e1 js] by (auto simp: quiet_def)
  qed
  show ?thesis
    unfolding stop_def by (intro way_bind reap last way)
qed

lemma start_launches:
  assumes log: "launch_log env launched" and way: "on_the_way api launched identity d e"
  shows "launched (pd_os (snd (start js api oenv env e))) \<subseteq> launches api launched identity d"
proof -
  obtain b e1 where x: "on_fs (path_exists (pd_marker e)) e = (b, e1)" by fastforce
  then have w1: "on_the_way api launched identity d e1"
    using on_the_way_fs [OF way, of "path_exists (pd_marker e)"] by (simp add: only_at_calls)
  have "on_the_way api launched identity d (snd (on_os (try_wait env) e))"
    by (rule on_the_way_same [OF way same_files_calls(1) quiet_calls(2) [OF log]])
  then have "launched (pd_os (snd (bind_io (on_os (try_wait env) e) (\<lambda>exited d. (if exited then Err blocked else Ok (), d)))))
      \<subseteq> launches api launched identity d"
    by (rule way_bind) (simp add: on_the_wayD)
  then show ?thesis
    using x spawn_launches [OF log w1] on_the_wayD [OF w1] on_the_wayD [OF way] by (simp add: start_def)
qed

lemma dispatch_launches:
  assumes log: "launch_log env launched" and way: "on_the_way api launched identity d e"
  shows "launched (pd_os (snd (dispatch js api oenv env own request e))) \<subseteq> launches api launched identity d"
proof (cases request)
  case (DStart c i)
  then show ?thesis using start_launches [OF log way] by simp
next
  case (DStop c i)
  then show ?thesis using stop_launches [OF log way] by simp
next
  case (DCleanup c i)
  note stop = stop_launches [OF log way, of js oenv]
  have "launched (pd_os (snd (bind_io (stop js api oenv env e) (\<lambda>_ d.
       on_fs (cleanup_previous api oenv (pd_installation d) own) d)))) \<subseteq> launches api launched identity d"
    by (rule launches_bind [where launched = launched, OF stop]) (use stop in simp)
  then show ?thesis using DCleanup by simp
qed (use on_the_wayD [OF way] in simp_all)

lemma select_layout_launches:
  assumes log: "launch_log env launched"
    and "pd_installation e = pd_installation d" "only_at (lock_files (pd_installation d)) (pd_fs d) (pd_fs e)"
      "launched (pd_os e) \<subseteq> launched (pd_os d)"
    and s: "select_layout api identity e = (r, e')"
  shows "launched (pd_os e') \<subseteq> launches api launched identity d
    \<and> (is_ok r \<longrightarrow> on_the_way api launched identity d e')"
proof (cases "identity = vl_identity (pd_layout e) \<or> pd_child e \<noteq> None \<or> pd_channel_failed e")
  case True
  then show ?thesis using assms(2-)
    by (auto simp: select_layout_def on_the_way_def launches_def split: if_splits)
next
  case False
  let ?l = "load_slot api (pd_installation e) (ei_slot identity)"
  obtain b e1 where x: "on_fs (path_exists (pd_marker e)) e = (b, e1)" by fastforce
  then have 1: "e1 = snd (on_fs (path_exists (pd_marker e)) e)" by simp
  obtain v e2 where l: "on_fs ?l e1 = (v, e2)" by fastforce
  then have 2: "e2 = snd (on_fs ?l e1)" by simp
  have i: "pd_installation e1 = pd_installation e" by (simp add: 1)
  have o: "only_at (lock_files (pd_installation d)) (pd_fs d) (pd_fs e2)"
    unfolding 2 on_fs_simps unfolding 1 on_fs_simps
    by (rule only_at_trans [OF assms(3) only_at_trans [OF only_at_calls(2) load_slot_only_at]])
  have q: "pd_os e1 = pd_os e" "pd_os e2 = pd_os e" "pd_installation e2 = pd_installation d" using assms(2) by (simp_all add: 1 2)
  have "(\<exists>sel. e' = e2\<lparr>pd_layout := sel\<rparr> \<and> vl_identity sel = identity) \<or> \<not> is_ok r \<and> e' \<in> {e1, e2}"
    using s False x l i
    by (cases v) (auto simp: select_layout_def layout_authorize_def bind_io_def split: if_splits)
  then show ?thesis using o q assms(4) by (auto simp: on_the_way_def launches_def)
qed

lemma handle_request_launches:
  assumes log: "launch_log env launched"
  shows "case request_identity request of
      None \<Rightarrow> launched (pd_os (snd (handle_request js api oenv env own request d))) \<subseteq> launched (pd_os d)
    | Some identity \<Rightarrow> launched (pd_os (snd (handle_request js api oenv env own request d)))
        \<subseteq> launches api launched identity d"
proof -
  obtain r d1 where i: "handle_inner js api oenv env own request d = (r, d1)" by fastforce
  have t: "launched (pd_os (snd (handle_request js api oenv env own request d))) \<subseteq> launched (pd_os d1)"
    using i launch_logD(3) [OF log, of "pd_os d1"]
    by (cases r) (auto simp: handle_request_def on_os_def case_prod_beta)
  show ?thesis
  proof (cases "request_identity request")
    case None
    then have "d1 = d" using i by (cases request) (auto simp: handle_inner_def split: if_splits)
    then show ?thesis using None t by simp
  next
    case (Some identity)
    obtain a e1 where g: "on_fs (guard_acquire oenv (in_root (pd_installation d))) d = (a, e1)" by fastforce
    then have 1: "e1 = snd (on_fs (guard_acquire oenv (in_root (pd_installation d))) d)" by simp
    have "only_at (lock_files (pd_installation d)) (pd_fs d) (pd_fs e1)"
      by (simp add: 1 guard_acquire_eq) (rule writers_only_at, simp add: lock_files_def)
    moreover have "pd_installation e1 = pd_installation d" "launched (pd_os e1) \<subseteq> launched (pd_os d)" by (simp_all add: 1)
    moreover obtain q e2 where s: "select_layout api identity e1 = (q, e2)" by fastforce
    ultimately have sel: "launched (pd_os e2) \<subseteq> launches api launched identity d"
      "is_ok q \<longrightarrow> on_the_way api launched identity d e2"
      using select_layout_launches [OF log] by blast+
    have d1: "d1 \<in> {d, e1, e2} \<or> is_ok q \<and> d1 = snd (dispatch js api oenv env own request e2)"
      using i g s Some by (cases a; cases q) (auto simp: handle_inner_def split: if_splits)
    have "launched (pd_os d1) \<subseteq> launches api launched identity d"
      using d1 sel dispatch_launches [OF log, of api identity d e2 js oenv own request]
        \<open>launched (pd_os e1) \<subseteq> launched (pd_os d)\<close> by (auto simp: launches_def)
    then show ?thesis using Some t by auto
  qed
qed

section \<open>The cache is exact\<close>

text \<open>What a file identity stands for: while the identity stays the same, so do the bytes.\<close>

definition faithful :: "(broker_file_identity \<Rightarrow> bytes) \<Rightarrow> file_observation \<Rightarrow> bool" where
  "faithful contents obs \<longleftrightarrow>
     (\<forall>m m' data. ob_before obs = Ok m \<and> ob_after obs = Ok m' \<and> ob_data obs = Ok data
        \<and> broker_file_identity_of m = broker_file_identity_of m' \<longrightarrow> data = contents (broker_file_identity_of m))"

type_synonym authorization_call = "file_observation \<times> broker_policy \<times> string \<times> any_path \<times> fs"

definition cache_step ::
  "install_api \<Rightarrow> broker_authorization_cache \<Rightarrow> authorization_call \<Rightarrow> broker_authorization_cache" where
  "cache_step api c = (\<lambda>(obs, policy, owner, executable, w).
     fst (snd (cache_authorize api obs policy owner executable (c, w))))"

definition cache_inv ::
  "install_api \<Rightarrow> (broker_file_identity \<Rightarrow> bytes) \<Rightarrow> broker_authorization_cache \<Rightarrow> bool" where
  "cache_inv api contents c \<longleftrightarrow>
     (\<forall>policy i. ac_verified c = Some (policy, i) \<longrightarrow> digest api (contents i) = bp_sha256 policy)"

lemma cache_step_inv:
  assumes "cache_inv api contents c" and "faithful contents (fst x)"
  shows "cache_inv api contents (cache_step api c x)"
proof -
  obtain obs policy owner executable w where x: "x = (obs, policy, owner, executable, w)" by (cases x)
  show ?thesis
    using assms
    by (auto simp: x cache_step_def cache_inv_def cache_authorize_def faithful_def Let_def
        split: sum.splits prod.splits if_splits)
qed

lemma cache_run_inv:
  assumes "\<forall>x \<in> set xs. faithful contents (fst x)"
  shows "cache_inv api contents (run (cache_step api) default_authorization_cache xs)"
proof -
  have run: "cache_inv api contents c \<Longrightarrow> cache_inv api contents (run (cache_step api) c xs)" for c
    using assms
  proof (induction xs arbitrary: c)
    case (Cons x xs)
    have "cache_inv api contents (cache_step api c x)"
      using Cons.prems by (intro cache_step_inv) simp_all
    with Cons.prems Cons.IH show ?case by simp
  qed simp
  show ?thesis by (rule run) (simp add: cache_inv_def default_authorization_cache_def)
qed

text \<open>C35: The cache of broker authorizations never changes an answer.  Suppose a file has the bytes its
  identity (length, times, device, inode, mode, owner) stands for whenever the identity is the same before
  and after reading.  Then, after any sequence of calls, an authorization succeeds only for the owner and the executable of
  the policy and a file whose bytes have the policy's digest; and on a file that does not change under
  the call it succeeds exactly when the uncached \<^verbatim>\<open>BrokerPolicy::authorize\<close> does.\<close>

theorem broker_cache_exact:
  assumes "\<forall>x \<in> set xs. faithful contents (fst x)" and "faithful contents obs"
    and "c = run (cache_step api) default_authorization_cache xs"
  shows "(fst (cache_authorize api obs policy owner executable (c, w)) = Ok () \<longrightarrow>
       owner = bp_owner policy \<and> executable = bp_executable policy
       \<and> (\<exists>m. ob_before obs = Ok m \<and> digest api (contents (broker_file_identity_of m)) = bp_sha256 policy))
    \<and> (faults w = [] \<and> regular (nodes w) (snd executable) bs
       \<and> ob_before obs = Ok m \<and> ob_data obs = Ok bs \<and> ob_after obs = Ok m \<longrightarrow>
         is_ok (fst (cache_authorize api obs policy owner executable (c, w)))
         = is_ok (fst (policy_authorize api policy owner executable w)))"
proof (intro conjI impI)
  have inv: "cache_inv api contents c" using cache_run_inv [OF assms(1)] assms(3) by simp
  assume a: "fst (cache_authorize api obs policy owner executable (c, w)) = Ok ()"
  then show "owner = bp_owner policy" "executable = bp_executable policy"
    by (auto simp: cache_authorize_def split: if_splits)
  from a obtain m where m: "ob_before obs = Ok m"
    and v: "ac_verified c = Some (policy, broker_file_identity_of m)
      \<or> (\<exists>m' data. ob_after obs = Ok m' \<and> broker_file_identity_of m = broker_file_identity_of m'
           \<and> ob_data obs = Ok data \<and> digest api data = bp_sha256 policy)"
    by (auto simp: cache_authorize_def Let_def split: sum.splits prod.splits if_splits)
  then have "digest api (contents (broker_file_identity_of m)) = bp_sha256 policy"
    using inv assms(2) unfolding cache_inv_def faithful_def by metis
  with m show "\<exists>m. ob_before obs = Ok m \<and> digest api (contents (broker_file_identity_of m)) = bp_sha256 policy"
    by blast
next
  assume a: "faults w = [] \<and> regular (nodes w) (snd executable) bs
       \<and> ob_before obs = Ok m \<and> ob_data obs = Ok bs \<and> ob_after obs = Ok m"
  have inv: "cache_inv api contents c" using cache_run_inv [OF assms(1)] assms(3) by simp
  from a assms(2) have "contents (broker_file_identity_of m) = bs" unfolding faithful_def by metis
  then have hit: "ac_verified c = Some (policy, broker_file_identity_of m) \<Longrightarrow> digest api bs = bp_sha256 policy"
    using inv by (auto simp: cache_inv_def)
  moreover have "open_regular (snd executable) w = (Ok bs, w)" "file_digest api (snd executable) w = (Ok (digest api bs), w)"
    using a open_regular_complete file_digest_complete by blast+
  ultimately show "is_ok (fst (cache_authorize api obs policy owner executable (c, w)))
         = is_ok (fst (policy_authorize api policy owner executable w))"
    using a hit by (auto simp: cache_authorize_def policy_authorize_def Let_def split: if_splits)
qed

text \<open>For the witness: a broker whose file is seen twice, once read and once from the cache.\<close>

definition w_metadata :: file_metadata where
  "w_metadata = \<lparr>md_len = 2, md_modified = Ok 5000000007, md_dev = 1, md_ino = 2, md_ctime = 5, md_ctime_nsec = 7,
     md_mode = 0x1ED, md_uid = 0, md_gid = 0\<rparr>"

definition w_observation :: file_observation where
  "w_observation = \<lparr>ob_before = Ok w_metadata, ob_data = Ok ''bb'', ob_after = Ok w_metadata\<rparr>"

definition w_policy :: broker_policy where
  "w_policy = \<lparr>bp_owner = ''owner'', bp_executable = (True, [''b'']), bp_sha256 = digest s_api ''bb'',
     bp_manifest_sha256 = []\<rparr>"

theorem broker_cache_exact_witness:
  "is_ok (fst (cache_authorize s_api w_observation w_policy ''owner'' (True, [''b''])
     (run (cache_step s_api) default_authorization_cache
        [(w_observation, w_policy, ''owner'', (True, [''b'']), s_installed)], s_installed)))"
proof -
  have "faithful (\<lambda>_. ''bb'') w_observation" by (simp add: faithful_def w_observation_def)
  moreover have reg: "regular (nodes s_installed) [''b''] ''bb''" by (rule s_regular) (rule s_nodes)
  moreover have nf: "faults s_installed = []" by (simp add: s_installed_def)
  moreover have "is_ok (fst (policy_authorize s_api w_policy ''owner'' (True, [''b'']) s_installed))"
    using file_digest_complete [OF nf reg] by (simp add: policy_authorize_def w_policy_def)
  ultimately show ?thesis
    using broker_cache_exact [where contents = "\<lambda>_. ''bb''" and obs = w_observation and api = s_api and policy = w_policy
        and owner = "''owner''" and executable = "(True, [''b''])" and w = s_installed and bs = "''bb''" and m = w_metadata,
        OF _ _ refl, of "[(w_observation, w_policy, ''owner'', (True, [''b'']), s_installed)]"]
    by (simp add: w_observation_def)
qed

text \<open>C36: Stopping the engine does not wait for ever.  Whatever the engine does, and however late the
  scheduler wakes the dispatcher, the loop that waits for the engine to exit looks at most 301 times
  (every ten milliseconds for three seconds) before it returns.\<close>

theorem wait_exit_terminates:
  "wait_polls 301 env (ho_clock h + 3000) h = Some (wait_exit env (ho_clock h + 3000) h)"
  using wait_polls_enough [of "ho_clock h + 3000" h 300 env] by (simp del: wait_polls.simps)

section \<open>Complete installations again\<close>

text \<open>More files do not make an installation incomplete, and it has one identity for each slot.\<close>

lemma layout_of_mono:
  assumes "layout_of api inst slot f l" and sub: "\<And>p n. f p = Some n \<Longrightarrow> g p = Some n"
  shows "layout_of api inst slot g l"
proof -
  have r: "regular f p bs \<Longrightarrow> regular g p bs" for p bs using sub by (auto simp: regular_def)
  have t: "trusted_node owner f p \<Longrightarrow> trusted_node owner g p" for owner p using sub by (fastforce simp: trusted_node_def)
  have ts: "list_all (trusted_node owner f) ps \<Longrightarrow> list_all (trusted_node owner g) ps" for owner ps
    using t by (auto simp: list_all_iff)
  have a: "ancestors_ok inst f p \<Longrightarrow> ancestors_ok inst g p" for p using ts by (auto simp: ancestors_ok_def)
  have e: "entry_ok api inst f d s e \<Longrightarrow> entry_ok api inst g d s e" for d s e
    unfolding entry_ok_def using r t by blast
  have es: "list_all (\<lambda>(s, e). entry_ok api inst f d s e) xs \<Longrightarrow> list_all (\<lambda>(s, e). entry_ok api inst g d s e) xs" for d xs
    using e by (auto simp: list_all_iff)
  have b: "broker_ok api inst hash f broker \<Longrightarrow> broker_ok api inst hash g broker" for hash broker
    unfolding broker_ok_def using r t a by blast
  from assms(1) show ?thesis
    unfolding layout_of_def using r ts a es b by (elim exE) (intro exI, elim conjE, intro conjI, assumption+ | blast)+
qed

lemma layout_identity_unique:
  assumes "layout_of api inst slot f l" and "layout_of api inst slot f l'"
  shows "vl_identity l = vl_identity l'"
proof -
  from assms(1) obtain g bs sig v selected where 1: "regular f (pointer_path inst) g" "vl_directory l = releases_dir inst @ [g]"
    "regular f (vl_directory l @ [MANIFEST_NAME]) bs" "regular f (vl_directory l @ [SIGNATURE_NAME]) sig"
    "verify_container_manifest (ia_manifest api) (container_from_slice api) (container_to_value api)
       bs sig (in_key inst) (in_platform inst) (in_architecture inst) = Ok v"
    "vc_selected v slot = Some selected" "vl_identity l = identity_for v (digest api bs) slot selected"
    unfolding layout_of_def by blast
  from assms(2) obtain g' bs' sig' v' selected' where 2: "regular f (pointer_path inst) g'" "vl_directory l' = releases_dir inst @ [g']"
    "regular f (vl_directory l' @ [MANIFEST_NAME]) bs'" "regular f (vl_directory l' @ [SIGNATURE_NAME]) sig'"
    "verify_container_manifest (ia_manifest api) (container_from_slice api) (container_to_value api)
       bs' sig' (in_key inst) (in_platform inst) (in_architecture inst) = Ok v'"
    "vc_selected v' slot = Some selected'" "vl_identity l' = identity_for v' (digest api bs') slot selected'"
    unfolding layout_of_def by blast
  have "g = g'" using regular_unique 1(1) 2(1) by blast
  then have "bs = bs'" "sig = sig'" using regular_unique 1(2,3,4) 2(2,3,4) by metis+
  then show ?thesis using 1(5-7) 2(5-7) by simp
qed

lemma load_slot_same_identity:
  assumes "faults w = []" and "layout_of api inst slot (nodes w) l"
  obtains l' where "load_slot api inst slot w = (Ok l', w)" "vl_identity l' = vl_identity l"
    "layout_of api inst slot (nodes w) l'"
proof -
  obtain l' where "load_slot api inst slot w = (Ok l', w)" using load_slot_complete [OF assms] by blast
  moreover from this have "layout_of api inst slot (nodes w) l'" by (rule load_slot_layout)
  ultimately show ?thesis using that layout_identity_unique assms(2) by blast
qed

section \<open>An engine for the witnesses\<close>

text \<open>An engine that answers every frame: \<^verbatim>\<open>ready\<close> and \<^verbatim>\<open>stop\<close> as asked, and any other frame brings its tunnel up.\<close>

record demo =
  dm_up :: bool
  dm_frame :: "bytes option"
  dm_launched :: "engine_command list"

definition demo_reply :: "bytes \<Rightarrow> bytes" where
  "demo_reply body =
     (if body = ''ready'' then ''engine_ready'' else if body = ''stop'' then ''engine_stopped'' else ''ok'')"

definition demo_up :: "bytes \<Rightarrow> bool \<Rightarrow> bool" where
  "demo_up body up = (if body = ''ready'' then up else body \<noteq> ''stop'')"

definition demo_stdout :: "demo \<Rightarrow> bytes" where
  "demo_stdout w =
     (case dm_frame w of
        None \<Rightarrow> []
      | Some frame \<Rightarrow> (let reply = demo_reply (drop 4 frame) in u32_to_le_bytes (length reply) @ reply))"

definition demo_consume :: "demo \<Rightarrow> demo" where
  "demo_consume w =
     (case dm_frame w of
        None \<Rightarrow> w
      | Some frame \<Rightarrow> w\<lparr>dm_frame := None, dm_up := demo_up (drop 4 frame) (dm_up w)\<rparr>)"

definition demo_env :: "bool \<Rightarrow> demo engine_env" where
  "demo_env launchable =
     \<lparr>own_process_group = (\<lambda>w. (Ok (), w)),
      spawn_engine = (\<lambda>c w. if launchable then (Ok (), w\<lparr>dm_frame := None, dm_launched := c # dm_launched w\<rparr>)
                            else (Err NotFound, w)),
      try_wait = (\<lambda>w. (Ok False, w)), kill_child = (\<lambda>w. (Ok (), w)), wait_child = (\<lambda>w. (Ok (), w)),
      close_stdin = (\<lambda>w. w), release_group = (\<lambda>w. w),
      write_stdin = (\<lambda>frame w. (Ok (), w\<lparr>dm_frame := Some frame\<rparr>)), flush_stdin = (\<lambda>w. (Ok (), w)),
      engine_stdout = (\<lambda>w. \<lparr>rd_bytes = demo_stdout w, rd_failure = None\<rparr>), consume = (\<lambda>rest. demo_consume),
      run_primitive = (\<lambda>p engine w. (Ok (), w)), oversleep = (\<lambda>w. 0)\<rparr>"

definition demo_js :: dispatcher_json where
  "demo_js =
     \<lparr>identity_to_vec = (\<lambda>i. Some ''id''),
      identity_from_slice = (\<lambda>bs. if bs = ''id'' then Some (vl_identity s_layout) else None),
      control_to_vec = Some, primitive_ok_to_vec = (\<lambda>b. None), primitive_from_slice = (\<lambda>bs. None),
      value_flag = (\<lambda>body name. Some (body = name))\<rparr>"

lemma demo_read:
  assumes "read_frame MAX_ENGINE_FRAME \<lparr>rd_bytes = demo_stdout w, rd_failure = None\<rparr> = (Ok frame, rest)"
  obtains f where "dm_frame w = Some f" "frame_body frame MAX_ENGINE_FRAME = Ok (demo_reply (drop 4 f))"
proof (cases "dm_frame w")
  case None
  with assms show ?thesis by (simp add: demo_stdout_def read_frame_def read_exact_def)
next
  case (Some f)
  let ?r = "demo_reply (drop 4 f)"
  have l: "length ?r \<le> MAX_ENGINE_FRAME" "length ?r < 2 ^ 32"
    by (simp_all add: demo_reply_def MAX_ENGINE_FRAME_def)
  have "frame = u32_to_le_bytes (length ?r) @ ?r"
    using assms read_frame_of_frame [OF l, of "[]" None] Some by (simp add: demo_stdout_def Let_def)
  with that [OF Some] frame_body_of_frame [OF l] show ?thesis by simp
qed

lemma demo_stopped:
  assumes "read_frame MAX_ENGINE_FRAME \<lparr>rd_bytes = demo_stdout w, rd_failure = None\<rparr> = (Ok frame, rest)"
    and "frame_body frame MAX_ENGINE_FRAME = Ok ''engine_stopped''"
  shows "\<not> dm_up (demo_consume w)"
proof -
  obtain f where "dm_frame w = Some f" "demo_reply (drop 4 f) = ''engine_stopped''"
    using demo_read [OF assms(1)] assms(2) by (metis Inr_inject)
  then show ?thesis by (auto simp: demo_consume_def demo_up_def demo_reply_def split: if_splits)
qed

lemma demo_laws: "engine_laws demo_js (demo_env launchable) dm_up"
  unfolding engine_laws_def
  by (intro conjI allI impI) (auto simp: demo_env_def demo_js_def split: if_splits dest: demo_stopped)

lemma demo_log: "launch_log (demo_env launchable) (\<lambda>w. set (dm_launched w))"
  by (auto simp: launch_log_def demo_env_def demo_consume_def split: option.splits)

definition demo_dispatcher :: "fs \<Rightarrow> bool \<Rightarrow> demo process_dispatcher" where
  "demo_dispatcher w up =
     \<lparr>pd_installation = s_inst, pd_layout = s_layout, pd_child = None, pd_tree_owner = False,
      pd_channel_failed = False, pd_broker_authorization = default_authorization_cache,
      pd_host = \<lparr>ho_fs = w, ho_clock = 0, ho_os = \<lparr>dm_up = up, dm_frame = None, dm_launched = []\<rparr>\<rparr>\<rparr>"

text \<open>The sample installation with files added next to its own.\<close>

lemma s_layout_more:
  assumes "\<And>p n. nodes s_installed p = Some n \<Longrightarrow> f p = Some n"
  shows "layout_of s_api s_inst Latest f s_layout"
  using layout_of_mono [OF s_layout] assms by blast

lemma s_free:
  "nodes s_installed [''r'', ''mutation.lock''] = None" "nodes s_installed [''r'', ''engine-owner.lock''] = None"
  "nodes s_installed [''r'', ACTIVE_ENGINE_NAME] = None"
  by (simp_all add: s_installed_def MANIFEST_NAME_def SIGNATURE_NAME_def POLICY_NAME_def POINTER_NAME_def ACTIVE_ENGINE_NAME_def)

lemma s_layout_slot: "ei_slot (vl_identity s_layout) = Latest"
  by (simp add: s_layout_def identity_for_def)

text \<open>Taking a lock that nobody holds, on a file that is not there yet.\<close>

definition lock_node :: "fs \<Rightarrow> node" where
  "lock_node w = \<lparr>nd_kind = RegularFile [], nd_uid = euid w, nd_mode = 0x180\<rparr>"

lemma guard_at_free:
  assumes "faults w = []" and "nodes w p = None" and "\<not> lock_held env p"
  shows "guard_at env p w = (Ok (), w\<lparr>nodes := (nodes w)(p := Some (lock_node w))\<rparr>)"
  using assms
  by (simp add: guard_at_def path_exists_def no_faults open_or_create_def set_permissions_def try_lock_exclusive_def
      next_fault_def lock_node_def Let_def guarded_def)

lemma on_fs_pure: "f (pd_fs d) = (r, pd_fs d) \<Longrightarrow> on_fs f d = (r, d)"
  by (simp add: on_fs_def)

definition set_fs :: "fs \<Rightarrow> 'w process_dispatcher \<Rightarrow> 'w process_dispatcher" where
  "set_fs w d = d\<lparr>pd_host := (pd_host d)\<lparr>ho_fs := w\<rparr>\<rparr>"

lemma on_fs_set: "f (pd_fs d) = (r, w) \<Longrightarrow> on_fs f d = (r, set_fs w d)"
  by (simp add: on_fs_def set_fs_def)

lemma set_fs_simps [simp]:
  "pd_fs (set_fs w d) = w" "pd_os (set_fs w d) = pd_os d" "pd_installation (set_fs w d) = pd_installation d"
  "pd_layout (set_fs w d) = pd_layout d" "pd_child (set_fs w d) = pd_child d"
  "pd_channel_failed (set_fs w d) = pd_channel_failed d" "pd_tree_owner (set_fs w d) = pd_tree_owner d"
  by (simp_all add: set_fs_def)

lemma demo_dispatcher_simps [simp]:
  "pd_fs (demo_dispatcher w up) = w" "pd_os (demo_dispatcher w up) = \<lparr>dm_up = up, dm_frame = None, dm_launched = []\<rparr>"
  "pd_installation (demo_dispatcher w up) = s_inst" "pd_layout (demo_dispatcher w up) = s_layout"
  "pd_child (demo_dispatcher w up) = None" "pd_channel_failed (demo_dispatcher w up) = False"
  by (simp_all add: demo_dispatcher_def)

lemma demo_spawn:
  assumes d: "pd_installation d = s_inst" "pd_layout d = s_layout" and nf: "faults (pd_fs d) = []"
    and more: "\<And>p n. nodes s_installed p = Some n \<Longrightarrow> nodes (pd_fs d) p = Some n"
  obtains l where "layout_of s_api s_inst Latest (nodes (pd_fs d)) l" "vl_identity l = vl_identity s_layout"
    "spawn js s_api oenv env d = bind_io (write_marker js oenv d) (\<lambda>_ d.
       bind_io (launch_engine env (vl_engine l) d) (\<lambda>_ d. engine_control js env ''ready'' ''engine_ready'' d))"
proof -
  obtain l where l: "load_slot s_api s_inst Latest (pd_fs d) = (Ok l, pd_fs d)" "vl_identity l = vl_identity s_layout"
    "layout_of s_api s_inst Latest (nodes (pd_fs d)) l"
    using load_slot_same_identity [OF nf s_layout_more [OF more]] .
  have "on_fs (load_slot s_api s_inst Latest) d = (Ok l, d)" using l(1) by (rule on_fs_pure)
  then have "spawn js s_api oenv env d = bind_io (write_marker js oenv d) (\<lambda>_ d.
       bind_io (launch_engine env (vl_engine l) d) (\<lambda>_ d. engine_control js env ''ready'' ''engine_ready'' d))"
    by (simp add: spawn_def d s_layout_slot layout_authorize_def l(2))
  with l that show ?thesis by blast
qed

lemma s_inst_locks: "in_root s_inst @ [name] = [''r'', name]" "marker_path s_inst = [''r'', ACTIVE_ENGINE_NAME]"
  by (simp_all add: s_inst_simps marker_path_def)

lemma path_exists_free: "faults w = [] \<Longrightarrow> nodes w p = None \<Longrightarrow> path_exists p w = (False, w)"
  by (simp add: path_exists_def no_faults)

lemma path_exists_file: "faults w = [] \<Longrightarrow> regular (nodes w) p bs \<Longrightarrow> path_exists p w = (True, w)"
  by (auto simp: path_exists_def no_faults regular_def)

section \<open>What recovery forgets\<close>

text \<open>An engine crashed with its tunnel up: the marker is there and no child is.\<close>

definition left_behind :: fs where
  "left_behind = s_installed\<lparr>nodes := (nodes s_installed)([''r'', ACTIVE_ENGINE_NAME] := Some (s_node (RegularFile ''id'')))\<rparr>"

definition demo_guarded :: "fs \<Rightarrow> string \<Rightarrow> fs" where
  "demo_guarded w name = w\<lparr>nodes := (nodes w)([''r'', name] := Some (lock_node w))\<rparr>"

lemma demo_guard:
  "faults (pd_fs d) = [] \<Longrightarrow> nodes (pd_fs d) [''r'', name] = None \<Longrightarrow>
   on_fs (guard_at s_env [''r'', name]) d = (Ok (), set_fs (demo_guarded (pd_fs d) name) d)"
  by (rule on_fs_set) (simp add: guard_at_free demo_guarded_def s_env_def)

lemma launch_engine_fails:
  assumes "engine \<noteq> []" and "own_process_group env (pd_os d) = (Ok (), pd_os d)"
    and "\<And>c. spawn_engine env c (pd_os d) = (Err e, pd_os d)" and "faults (pd_fs d) = []"
    and "regular (nodes (pd_fs d)) (pd_marker d) bs"
  shows "launch_engine env engine d = (Err e, set_fs ((pd_fs d)\<lparr>nodes := (nodes (pd_fs d))(pd_marker d := None)\<rparr>) d)"
proof -
  have "on_os (own_process_group env) d = (Ok (), d)" "on_os (spawn_engine env c) d = (Err e, d)" for c
    using assms(2,3) by (simp_all add: on_os_def)
  moreover have "on_fs (remove_file (pd_marker d)) d =
      (Ok (), set_fs ((pd_fs d)\<lparr>nodes := (nodes (pd_fs d))(pd_marker d := None)\<rparr>) d)"
    by (rule on_fs_set) (use assms(4,5) in \<open>auto simp: remove_file_def no_faults regular_def\<close>)
  ultimately show ?thesis
    using assms(1) by (simp add: launch_engine_def)
qed

lemma recover_launch_fails:
  assumes d: "pd_installation d = s_inst" "pd_layout d = s_layout" "pd_child d = None"
    and nf: "faults (pd_fs d) = []" and more: "\<And>p n. nodes s_installed p = Some n \<Longrightarrow> nodes (pd_fs d) p = Some n"
    and m: "regular (nodes (pd_fs d)) [''r'', ACTIVE_ENGINE_NAME] ''id''"
    and free: "nodes (pd_fs d) [''r'', ''engine-owner.lock''] = None"
  shows "\<exists>w. recover demo_js s_api s_env (demo_env False) d = (Err NotFound, set_fs w d)
    \<and> nodes w [''r'', ACTIVE_ENGINE_NAME] = None"
proof -
  let ?e = "set_fs (demo_guarded (pd_fs d) ''engine-owner.lock'') d"
  have marker: "pd_marker d = [''r'', ACTIVE_ENGINE_NAME]" "pd_marker ?e = [''r'', ACTIVE_ENGINE_NAME]"
    by (simp_all add: pd_marker_def d s_inst_locks)
  have me: "regular (nodes (pd_fs ?e)) [''r'', ACTIVE_ENGINE_NAME] ''id''"
    using m by (simp add: demo_guarded_def regular_def ACTIVE_ENGINE_NAME_def)
  have nfe: "faults (pd_fs ?e) = []" using nf by (simp add: demo_guarded_def)
  obtain l where l: "layout_of s_api s_inst Latest (nodes (pd_fs ?e)) l" "vl_identity l = vl_identity s_layout"
    and sp: "spawn demo_js s_api s_env (demo_env False) ?e = bind_io (write_marker demo_js s_env ?e) (\<lambda>_ d.
       bind_io (launch_engine (demo_env False) (vl_engine l) d) (\<lambda>_ d. engine_control demo_js (demo_env False) ''ready'' ''engine_ready'' d))"
    by (rule demo_spawn [of ?e demo_js s_env "demo_env False"])
      (use d nfe more free in \<open>auto simp: demo_guarded_def\<close>)
  have "on_fs (path_exists [''r'', ACTIVE_ENGINE_NAME]) ?e = (True, ?e)"
    by (rule on_fs_pure) (rule path_exists_file [OF nfe me])
  then have w: "write_marker demo_js s_env ?e = (Ok (), ?e)" by (simp add: write_marker_def marker)
  have "vl_engine l \<noteq> []" using l(1) by (auto simp: layout_of_def entry_path_def)
  from launch_engine_fails [OF this, of "demo_env False" ?e NotFound "''id''"] me nfe
  have la: "launch_engine (demo_env False) (vl_engine l) ?e = (Err NotFound,
      set_fs ((pd_fs ?e)\<lparr>nodes := (nodes (pd_fs ?e))([''r'', ACTIVE_ENGINE_NAME] := None)\<rparr>) ?e)"
    by (simp add: demo_env_def marker)
  have r: "on_fs (read_bounded [''r'', ACTIVE_ENGINE_NAME] MAX_DISPATCHER_FRAME) ?e = (Ok ''id'', ?e)"
    by (rule on_fs_pure) (rule read_bounded_complete [OF nfe me], simp add: MAX_DISPATCHER_FRAME_def)
  have x: "on_fs (path_exists [''r'', ACTIVE_ENGINE_NAME]) d = (True, d)"
    by (rule on_fs_pure) (rule path_exists_file [OF nf m])
  have "recover demo_js s_api s_env (demo_env False) d =
      (Err NotFound, set_fs ((pd_fs ?e)\<lparr>nodes := (nodes (pd_fs ?e))([''r'', ACTIVE_ENGINE_NAME] := None)\<rparr>) ?e)"
    using x demo_guard [OF nf free] r sp w la
    by (simp add: recover_def marker d s_inst_locks demo_js_def layout_authorize_def)
  then show ?thesis by (auto simp: set_fs_def)
qed


section \<open>Properties of the dispatcher\<close>



text \<open>C34: The dispatcher runs only engines of complete installations.  Whatever a request makes it launch
  is the engine executable of a release whose layout was verified for exactly the identity that the
  request names, on the files as they were when the request arrived, the lock files apart; and
  a request without an identity launches nothing.\<close>

theorem launches_only_verified_engines:
  assumes "launch_log env launched" and "handle_request js api oenv env own request d = (response, d')"
    and "c \<in> launched (pd_os d') - launched (pd_os d)"
  shows "\<exists>identity f. request_identity request = Some identity
    \<and> (\<forall>p. p \<notin> lock_files (pd_installation d) \<longrightarrow> f p = nodes (pd_fs d) p)
    \<and> verified_command api (pd_installation d) identity f c"
  using handle_request_launches [OF assms(1), where request = request and js = js and api = api and oenv = oenv and own = own and d = d] assms(2,3)
  by (auto simp: launches_def split: option.splits)

lemma write_new_complete:
  assumes "faults w = []" and "nodes w p = None"
  shows "\<exists>w'. write_new env p bs w = (Ok (), w')"
  using assms
  by (simp add: write_new_def create_new_def protect_def set_permissions_def file_write_all_def append_file_def
      sync_all_def no_faults next_fault_def guarded_def)

lemma demo_never_forgets: "launch_log (demo_env launchable) (\<lambda>w. - set (dm_launched w))"
  by (auto simp: launch_log_def demo_env_def demo_consume_def split: option.splits)

lemma demo_start:
  assumes d: "pd_installation d = s_inst" "pd_layout d = s_layout" "pd_child d = None" "\<not> pd_channel_failed d"
    and nf: "faults (pd_fs d) = []" and more: "\<And>p n. nodes s_installed p = Some n \<Longrightarrow> nodes (pd_fs d) p = Some n"
    and free: "nodes (pd_fs d) [''r'', ACTIVE_ENGINE_NAME] = None"
  shows "\<exists>c. c \<in> set (dm_launched (pd_os (snd (start demo_js s_api s_env (demo_env True) d))))"
proof -
  have marker: "pd_marker d = [''r'', ACTIVE_ENGINE_NAME]" by (simp add: pd_marker_def d s_inst_locks)
  have x: "on_fs (path_exists [''r'', ACTIVE_ENGINE_NAME]) d = (False, d)"
    by (rule on_fs_pure) (rule path_exists_free [OF nf free])
  obtain l where l: "layout_of s_api s_inst Latest (nodes (pd_fs d)) l"
    and sp: "spawn demo_js s_api s_env (demo_env True) d = bind_io (write_marker demo_js s_env d) (\<lambda>_ d.
       bind_io (launch_engine (demo_env True) (vl_engine l) d) (\<lambda>_ d. engine_control demo_js (demo_env True) ''ready'' ''engine_ready'' d))"
    using demo_spawn [OF d(1,2) nf more, of demo_js s_env "demo_env True"] by metis
  obtain w where "write_new s_env [''r'', ACTIVE_ENGINE_NAME] ''id'' (pd_fs d) = (Ok (), w)"
    using write_new_complete [OF nf free] by blast
  then have "on_fs (write_new s_env [''r'', ACTIVE_ENGINE_NAME] ''id'') d = (Ok (), set_fs w d)" by (rule on_fs_set)
  then have wm: "write_marker demo_js s_env d = (Ok (), set_fs w d)"
    using x by (simp add: write_marker_def marker demo_js_def)
  have "vl_engine l \<noteq> []" using l(1) by (auto simp: layout_of_def entry_path_def)
  then obtain e where la: "launch_engine (demo_env True) (vl_engine l) (set_fs w d) = (Ok (), e)"
    and e: "command_for (vl_engine l) [''r''] \<in> set (dm_launched (pd_os e))"
    by (simp add: launch_engine_def on_os_def demo_env_def d s_inst_simps)
  have "set (dm_launched (pd_os e)) \<subseteq> set (dm_launched (pd_os (snd (engine_control demo_js (demo_env True) ''ready'' ''engine_ready'' e))))"
    using engine_control_quiet [OF demo_never_forgets [of True], where d = e and js = demo_js and control = "''ready''" and flag = "''engine_ready''"] by (simp add: quiet_def)
  moreover have "start demo_js s_api s_env (demo_env True) d = engine_control demo_js (demo_env True) ''ready'' ''engine_ready'' e"
    using x sp wm la by (simp add: start_def d marker)
  ultimately show ?thesis using e by auto
qed

theorem launches_only_verified_engines_witness:
  "\<exists>c f. c \<in> set (dm_launched (pd_os (snd (handle_request demo_js s_api s_env (demo_env True) []
        (DStart 1 (vl_identity s_layout)) (demo_dispatcher s_installed False)))))
     \<and> verified_command s_api s_inst (vl_identity s_layout) f c"
proof -
  let ?d = "demo_dispatcher s_installed False"
  let ?e = "set_fs (demo_guarded s_installed ''mutation.lock'') ?d"
  have nf: "faults s_installed = []" by (simp add: s_installed_def)
  have g: "on_fs (guard_acquire s_env [''r'']) ?d = (Ok (), ?e)"
    using demo_guard [of ?d "''mutation.lock''"] nf s_free by (simp add: guard_acquire_eq)
  obtain c where c: "c \<in> set (dm_launched (pd_os (snd (start demo_js s_api s_env (demo_env True) ?e))))"
    using demo_start [of ?e] nf s_free by (fastforce simp: demo_guarded_def ACTIVE_ENGINE_NAME_def)
  obtain response d' where h: "handle_request demo_js s_api s_env (demo_env True) [] (DStart 1 (vl_identity s_layout)) ?d = (response, d')"
    by fastforce
  have i: "handle_inner demo_js s_api s_env (demo_env True) [] (DStart 1 (vl_identity s_layout)) ?d
      = start demo_js s_api s_env (demo_env True) ?e"
    using g by (simp add: handle_inner_def select_layout_def s_inst_simps)
  have "pd_os d' = pd_os (snd (start demo_js s_api s_env (demo_env True) ?e))"
    using h i by (cases "start demo_js s_api s_env (demo_env True) ?e"; cases "fst (start demo_js s_api s_env (demo_env True) ?e)")
      (auto simp: handle_request_def on_os_def demo_env_def split: if_splits)
  with c have "c \<in> set (dm_launched (pd_os d')) - set (dm_launched (pd_os ?d))" by simp
  from launches_only_verified_engines [OF demo_log h, of c] this h show ?thesis by auto
qed

end
