(* ===== verification/SplitTunnelStore.thy ===== *)
theory SplitTunnelStore
  imports TunnelApi Rust_Fs "HOL-Library.List_Lexorder" "HOL-Library.Char_ord"
begin

unbundle bit_operations_syntax

text \<open>
  The split-tunnel policy of \<^verbatim>\<open>crates/contracts/src/split_tunnel.rs\<close> and the store of the state the
  client keeps about it, \<^verbatim>\<open>crates/client-storage/src/split_tunnel.rs\<close>, on Unix.  The RFC 3339 parser,
  serde and the \<^verbatim>\<open>tempfile\<close> crate are parameters.  Strings are ordered by their bytes, as \<^verbatim>\<open>Ord\<close> of
  \<^verbatim>\<open>String\<close> does.
\<close>

section \<open>The policy\<close>

datatype split_tunnel_address_rule_scope = ThisDevice | AllDevices

datatype split_tunnel_address_rule_kind = RuleIpv4 | RuleDomain

record split_tunnel_address_rule =
  ar_id :: int
  ar_scope :: split_tunnel_address_rule_scope
  ar_kind :: split_tunnel_address_rule_kind
  ar_value :: string

record split_tunnel_selected_package =
  pk_package_id :: string
  pk_display_name :: string

record split_tunnel_policy =
  sp_format_version :: u16
  sp_enabled :: bool
  sp_revision :: int
  sp_force_revision :: int
  sp_address_revision :: int
  sp_policy_hash :: string
  sp_mode :: split_tunnel_mode
  sp_exclude_local_networks :: bool
  sp_mandatory_excluded_packages :: "string list"
  sp_suggested_name_fragments :: "string list"
  sp_selected_packages :: "string list"
  sp_excluded_ipv4_cidrs :: "string list"
  sp_address_rules :: "split_tunnel_address_rule list"
  sp_generated_at :: string

datatype split_tunnel_apply_status = PolicyApplied | PolicyRolledBack | PolicyFailed

record split_tunnel_apply_result =
  res_format_version :: u16
  res_revision :: int
  res_force_revision :: int
  res_address_revision :: int
  res_policy_hash :: string
  res_status :: split_tunnel_apply_status
  res_error_code :: "string option"
  res_applied_at :: string

datatype split_tunnel_timestamp_field = GeneratedAt | AppliedAt

text \<open>\<open>is_rfc3339\<close> tells what \<^verbatim>\<open>OffsetDateTime::parse(_, &Rfc3339)\<close> accepts.\<close>

definition validate_rfc3339 ::
  "(string \<Rightarrow> bool) \<Rightarrow> string \<Rightarrow> split_tunnel_timestamp_field \<Rightarrow> (split_tunnel_timestamp_field, unit) result" where
  "validate_rfc3339 is_rfc3339 value field = ensure (is_rfc3339 value) field"

definition policy_validate_timestamps ::
  "(string \<Rightarrow> bool) \<Rightarrow> split_tunnel_policy \<Rightarrow> (split_tunnel_timestamp_field, unit) result" where
  "policy_validate_timestamps is_rfc3339 policy = validate_rfc3339 is_rfc3339 (sp_generated_at policy) GeneratedAt"

definition result_validate_timestamps ::
  "(string \<Rightarrow> bool) \<Rightarrow> split_tunnel_apply_result \<Rightarrow> (split_tunnel_timestamp_field, unit) result" where
  "result_validate_timestamps is_rfc3339 r = validate_rfc3339 is_rfc3339 (res_applied_at r) AppliedAt"

fun timestamp_error_display :: "split_tunnel_timestamp_field \<Rightarrow> string" where
  "timestamp_error_display GeneratedAt = ''generated_at must be an RFC 3339 timestamp''"
| "timestamp_error_display AppliedAt = ''applied_at must be an RFC 3339 timestamp''"

section \<open>The stored state\<close>

definition STATE_LIMIT_BYTES :: nat where "STATE_LIMIT_BYTES = 1024 * 1024"
definition MAX_PENDING_APPLY_RESULTS :: nat where "MAX_PENDING_APPLY_RESULTS = 32"
definition MAX_DOMAIN_RESOLUTIONS :: nat where "MAX_DOMAIN_RESOLUTIONS = 512"

record stored_domain_resolution =
  dr_domain :: string
  dr_ipv4_cidrs :: "string list"
  dr_resolved_at_unix :: int

record stored_split_tunnel_state =
  cached_policy :: "split_tunnel_policy option"
  working_policy_hash :: "string option"
  previous_working_policy :: "split_tunnel_policy option"
  applied_physical_network_fingerprint :: "string option"
  last_full_sync_unix :: "int option"
  last_revision_check_unix :: "int option"
  last_seen_force_revision :: int
  last_seen_address_revision :: int
  failed_policy_hash :: "string option"
  failed_policy_retry_after_unix :: "int option"
  pending_apply_results :: "split_tunnel_apply_result list"
  domain_resolutions :: "stored_domain_resolution list"

definition default_split_tunnel_state :: stored_split_tunnel_state where
  "default_split_tunnel_state =
     \<lparr>cached_policy = None, working_policy_hash = None, previous_working_policy = None,
      applied_physical_network_fingerprint = None, last_full_sync_unix = None,
      last_revision_check_unix = None, last_seen_force_revision = 0, last_seen_address_revision = 0,
      failed_policy_hash = None, failed_policy_retry_after_unix = None,
      pending_apply_results = [], domain_resolutions = []\<rparr>"

text \<open>\<^verbatim>\<open>Iterator::position\<close>, \<^verbatim>\<open>Vec::remove\<close> of an index in range, and \<^verbatim>\<open>Vec::dedup_by\<close> with equality of
  a key, which keeps the first of neighbours.\<close>

fun position :: "('a \<Rightarrow> bool) \<Rightarrow> 'a list \<Rightarrow> nat option" where
  "position P [] = None"
| "position P (x # xs) = (if P x then Some 0 else map_option Suc (position P xs))"

definition vec_remove :: "nat \<Rightarrow> 'a list \<Rightarrow> 'a list" where
  "vec_remove i xs = take i xs @ drop (Suc i) xs"

fun dedup_by_key :: "('a \<Rightarrow> 'b) \<Rightarrow> 'a list \<Rightarrow> 'a list" where
  "dedup_by_key f (x # y # ys) =
     (if f x = f y then dedup_by_key f (x # ys) else x # dedup_by_key f (y # ys))"
| "dedup_by_key f xs = xs"

lemma position_less: "position P xs = Some i \<Longrightarrow> i < length xs"
  by (induction xs arbitrary: i) (auto split: if_splits)

lemma length_vec_remove: "i < length xs \<Longrightarrow> length (vec_remove i xs) = length xs - 1"
  by (simp add: vec_remove_def)

definition excess_index :: "split_tunnel_apply_result list \<Rightarrow> nat" where
  "excess_index rs =
     (case position (\<lambda>r. res_status r = PolicyApplied) rs of None \<Rightarrow> 0 | Some i \<Rightarrow> i)"

lemma excess_index_less: "rs \<noteq> [] \<Longrightarrow> excess_index rs < length rs"
  by (auto simp: excess_index_def dest: position_less split: option.splits)

function drop_excess :: "split_tunnel_apply_result list \<Rightarrow> split_tunnel_apply_result list" where
  "drop_excess rs =
     (if length rs > MAX_PENDING_APPLY_RESULTS then drop_excess (vec_remove (excess_index rs) rs) else rs)"
  by pat_completeness auto
termination
proof (relation "measure length")
  fix rs :: "split_tunnel_apply_result list"
  assume l: "MAX_PENDING_APPLY_RESULTS < length rs"
  then have "rs \<noteq> []" by auto
  then show "(vec_remove (excess_index rs) rs, rs) \<in> measure length"
    using length_vec_remove [OF excess_index_less, of rs] by (cases rs) auto
qed simp

declare drop_excess.simps [simp del]

definition normalized :: "stored_split_tunnel_state \<Rightarrow> stored_split_tunnel_state" where
  "normalized s =
     s\<lparr>pending_apply_results := drop_excess (pending_apply_results s),
       domain_resolutions :=
         take MAX_DOMAIN_RESOLUTIONS (dedup_by_key dr_domain (sort_key dr_domain (domain_resolutions s)))\<rparr>"

section \<open>The stores\<close>

datatype storage_error =
  Keyring string | LinuxFallbackNotConfigured | StorageIo io_error | StorageInvalidData
| SplitTunnelStateTooLarge nat | SplitTunnelStateLock | RecoveryRequired string

text \<open>\<^verbatim>\<open>serde_json\<close> on the state.\<close>

record split_tunnel_json =
  state_to_vec :: "stored_split_tunnel_state \<Rightarrow> bytes option"
  state_from_slice :: "bytes \<Rightarrow> stored_split_tunnel_state option"

definition normalized_checked_state ::
  "split_tunnel_json \<Rightarrow> stored_split_tunnel_state \<Rightarrow> (storage_error, stored_split_tunnel_state) result" where
  "normalized_checked_state js st =
     (let st = normalized st in
      and_then (ok_or StorageInvalidData (state_to_vec js st)) (\<lambda>bytes.
        if length bytes > STATE_LIMIT_BYTES then Err (SplitTunnelStateTooLarge STATE_LIMIT_BYTES) else Ok st))"

text \<open>The store in memory; \<open>None\<close> is a poisoned lock.\<close>

type_synonym memory_split_tunnel_store = "stored_split_tunnel_state option"

definition memory_load :: "memory_split_tunnel_store \<Rightarrow> (storage_error, stored_split_tunnel_state) result" where
  "memory_load m = ok_or SplitTunnelStateLock m"

definition memory_save ::
  "split_tunnel_json \<Rightarrow> stored_split_tunnel_state \<Rightarrow> memory_split_tunnel_store \<Rightarrow>
   (storage_error, unit) result \<times> memory_split_tunnel_store" where
  "memory_save js st m =
     (case m of
        None \<Rightarrow> (Err SplitTunnelStateLock, m)
      | Some _ \<Rightarrow>
          (case normalized_checked_state js st of Err e \<Rightarrow> (Err e, m) | Ok st \<Rightarrow> (Ok (), Some st)))"

definition memory_delete ::
  "memory_split_tunnel_store \<Rightarrow> (storage_error, unit) result \<times> memory_split_tunnel_store" where
  "memory_delete m =
     (case m of
        None \<Rightarrow> (Err SplitTunnelStateLock, m)
      | Some _ \<Rightarrow> (Ok (), Some default_split_tunnel_state))"

record file_split_tunnel_store =
  fst_directory :: path
  fst_path :: path

definition new_file_store :: "path \<Rightarrow> file_split_tunnel_store" where
  "new_file_store app_data_directory =
     (let directory = app_data_directory @ [''split-tunnel''] in
      \<lparr>fst_directory = directory, fst_path = directory @ [''state.json'']\<rparr>)"

text \<open>\<^verbatim>\<open>File::open\<close> follows a link.  The opened file is its node.\<close>

definition file_open :: "os_env \<Rightarrow> path \<Rightarrow> fs \<Rightarrow> (io_error, node) result \<times> fs" where
  "file_open env p =
     guarded PermissionDenied (\<lambda>w.
       (case nodes w p of
          None \<Rightarrow> Err NotFound
        | Some n \<Rightarrow>
            (case nd_kind n of
               SymlinkNode _ \<Rightarrow> and_then (ok_or NotFound (link_target env p)) (\<lambda>q. ok_or NotFound (nodes w q))
             | SocketNode \<Rightarrow> Err (IoOther ''no such device or address'')
             | _ \<Rightarrow> Ok n), w))"

definition file_metadata_len :: "node \<Rightarrow> fs \<Rightarrow> (io_error, nat) result \<times> fs" where
  "file_metadata_len n = guarded PermissionDenied (\<lambda>w. (Ok (file_len (nd_kind n)), w))"

text \<open>\<^verbatim>\<open>file.take(limit).read_to_end(&mut bytes)\<close>.\<close>

definition take_read_to_end :: "nat \<Rightarrow> node \<Rightarrow> fs \<Rightarrow> (io_error, bytes) result \<times> fs" where
  "take_read_to_end limit n =
     guarded (IoOther ''read'') (\<lambda>w.
       (case nd_kind n of
          RegularFile bs \<Rightarrow> Ok (take limit bs)
        | _ \<Rightarrow> Err (IoOther ''is a directory''), w))"

definition load_state_file ::
  "split_tunnel_json \<Rightarrow> os_env \<Rightarrow> file_split_tunnel_store \<Rightarrow> fs \<Rightarrow>
   (storage_error, stored_split_tunnel_state) result \<times> fs" where
  "load_state_file js env store w =
     (case file_open env (fst_path store) w of
        (Err e, w) \<Rightarrow> if e = NotFound then (Ok default_split_tunnel_state, w) else (Err (StorageIo e), w)
      | (Ok file, w) \<Rightarrow>
          bind_io (map_err_io StorageIo (file_metadata_len file w)) (\<lambda>len w.
            if len > STATE_LIMIT_BYTES then (Err (SplitTunnelStateTooLarge STATE_LIMIT_BYTES), w)
            else
              bind_io (map_err_io StorageIo (take_read_to_end (STATE_LIMIT_BYTES + 1) file w)) (\<lambda>bytes w.
                if length bytes > STATE_LIMIT_BYTES
                then (Err (SplitTunnelStateTooLarge STATE_LIMIT_BYTES), w)
                else
                  (and_then (ok_or StorageInvalidData (state_from_slice js bytes)) (\<lambda>st. Ok (normalized st)), w))))"

text \<open>\<^verbatim>\<open>DirBuilder\<close> with mode 0700 under the umask, then \<^verbatim>\<open>set_permissions\<close> with 0700.\<close>

definition create_protected_dir :: "os_env \<Rightarrow> path \<Rightarrow> fs \<Rightarrow> (io_error, unit) result \<times> fs" where
  "create_protected_dir env p w =
     bind_io (create_dir_all (env\<lparr>new_dir_mode := new_dir_mode env AND 448\<rparr>) p w) (\<lambda>_ w.
       set_permissions 448 p w)"

definition set_private_file_permissions :: "path \<Rightarrow> fs \<Rightarrow> (storage_error, unit) result \<times> fs" where
  "set_private_file_permissions p w = map_err_io StorageIo (set_permissions 384 p w)"

definition sync_store_directory :: "os_env \<Rightarrow> path \<Rightarrow> fs \<Rightarrow> (storage_error, unit) result \<times> fs" where
  "sync_store_directory env p w =
     bind_io (map_err_io StorageIo (file_open env p w)) (\<lambda>_ w. map_err_io StorageIo (sync_all w))"

text \<open>The \<^verbatim>\<open>tempfile\<close> crate: \<^verbatim>\<open>Builder::tempfile_in\<close> with a prefix and a suffix, \<^verbatim>\<open>persist\<close>, and what
  dropping a \<^verbatim>\<open>NamedTempFile\<close> (also the one inside a \<^verbatim>\<open>PersistError\<close>) does.\<close>

record tempfile_api =
  tempfile_in :: "string \<Rightarrow> string \<Rightarrow> path \<Rightarrow> fs \<Rightarrow> (io_error, path) result \<times> fs"
  temp_persist :: "path \<Rightarrow> path \<Rightarrow> fs \<Rightarrow> (io_error, unit) result \<times> fs"
  temp_drop :: "path \<Rightarrow> fs \<Rightarrow> fs"

definition write_temporary :: "bytes \<Rightarrow> path \<Rightarrow> fs \<Rightarrow> (storage_error, unit) result \<times> fs" where
  "write_temporary bytes temporary w =
     bind_io (set_private_file_permissions temporary w) (\<lambda>_ w.
     bind_io (map_err_io StorageIo (file_write_all bytes temporary w)) (\<lambda>_ w.
       map_err_io StorageIo (sync_all w)))"

definition save_bytes ::
  "tempfile_api \<Rightarrow> os_env \<Rightarrow> file_split_tunnel_store \<Rightarrow> bytes \<Rightarrow> fs \<Rightarrow> (storage_error, unit) result \<times> fs" where
  "save_bytes t env store bytes w =
     bind_io (map_err_io StorageIo (create_protected_dir env (fst_directory store) w)) (\<lambda>_ w.
     bind_io (map_err_io StorageIo (tempfile_in t ''.state-'' ''.tmp'' (fst_directory store) w)) (\<lambda>temporary w.
       case write_temporary bytes temporary w of
         (Err e, w) \<Rightarrow> (Err e, temp_drop t temporary w)
       | (Ok _, w) \<Rightarrow>
           (case temp_persist t temporary (fst_path store) w of
              (Err e, w) \<Rightarrow> (Err (StorageIo e), temp_drop t temporary w)
            | (Ok _, w) \<Rightarrow> sync_store_directory env (fst_directory store) w)))"

definition save_state_file ::
  "split_tunnel_json \<Rightarrow> tempfile_api \<Rightarrow> os_env \<Rightarrow> file_split_tunnel_store \<Rightarrow> stored_split_tunnel_state \<Rightarrow> fs \<Rightarrow>
   (storage_error, unit) result \<times> fs" where
  "save_state_file js t env store st w =
     bind_io (normalized_checked_state js st, w) (\<lambda>st w.
     bind_io (ok_or StorageInvalidData (state_to_vec js st), w) (\<lambda>bytes w.
       save_bytes t env store bytes w))"

definition delete_state_file ::
  "os_env \<Rightarrow> file_split_tunnel_store \<Rightarrow> fs \<Rightarrow> (storage_error, unit) result \<times> fs" where
  "delete_state_file env store w =
     (case remove_file (fst_path store) w of
        (Ok _, w) \<Rightarrow> sync_store_directory env (fst_directory store) w
      | (Err e, w) \<Rightarrow> if e = NotFound then (Ok (), w) else (Err (StorageIo e), w))"

section \<open>What normalisation keeps\<close>

lemma drop_excess_length: "length (drop_excess rs) = min MAX_PENDING_APPLY_RESULTS (length rs)"
proof (induction rs rule: drop_excess.induct)
  case (1 rs)
  show ?case
  proof (cases "MAX_PENDING_APPLY_RESULTS < length rs")
    case True
    then have "rs \<noteq> []" by auto
    then have "length (vec_remove (excess_index rs) rs) = length rs - 1"
      by (intro length_vec_remove excess_index_less)
    with 1 True show ?thesis by (subst drop_excess.simps) simp
  qed (subst drop_excess.simps, simp)
qed

lemma filter_vec_remove:
  "position P xs = Some i \<Longrightarrow> filter (\<lambda>x. \<not> P x) (vec_remove i xs) = filter (\<lambda>x. \<not> P x) xs"
  by (induction xs arbitrary: i) (auto simp: vec_remove_def split: if_splits)

lemma position_None: "position P xs = None \<Longrightarrow> filter (\<lambda>x. \<not> P x) xs = xs"
  by (induction xs) (auto split: if_splits)

definition failure_reports :: "split_tunnel_apply_result list \<Rightarrow> split_tunnel_apply_result list" where
  "failure_reports rs = filter (\<lambda>r. \<not> res_status r = PolicyApplied) rs"

text \<open>The reports that are dropped are the oldest successes; a report of a failure is only dropped
  when more than the limit of them are pending, and then the newest are kept.\<close>

lemma drop_excess_failures:
  "failure_reports (drop_excess rs)
   = drop (length (failure_reports rs) - MAX_PENDING_APPLY_RESULTS) (failure_reports rs)"
proof (induction rs rule: drop_excess.induct)
  case (1 rs)
  show ?case
  proof (cases "MAX_PENDING_APPLY_RESULTS < length rs")
    case False
    moreover have "length (failure_reports rs) \<le> length rs" by (simp add: failure_reports_def)
    ultimately show ?thesis by (subst drop_excess.simps) simp
  next
    case long: True
    show ?thesis
    proof (cases "position (\<lambda>r. res_status r = PolicyApplied) rs")
      case (Some i)
      then have "failure_reports (vec_remove (excess_index rs) rs) = failure_reports rs"
        by (simp add: failure_reports_def excess_index_def filter_vec_remove)
      with 1 long show ?thesis by (subst drop_excess.simps) simp
    next
      case None
      have fr: "failure_reports rs = rs" using position_None [OF None] by (simp add: failure_reports_def)
      then have ft: "failure_reports (tl rs) = tl rs"
        by (metis filter_id_conv failure_reports_def list.set_sel(2) tl_Nil)
      have "vec_remove (excess_index rs) rs = tl rs"
        by (simp add: excess_index_def None vec_remove_def drop_Suc)
      moreover have "drop (length (tl rs) - MAX_PENDING_APPLY_RESULTS) (tl rs)
        = drop (length rs - MAX_PENDING_APPLY_RESULTS) rs"
        using long by (simp add: drop_Suc [symmetric] Suc_diff_Suc)
      ultimately show ?thesis using 1 long fr ft by (subst drop_excess.simps) simp
    qed
  qed
qed

lemma dedup_by_key_subset: "set (dedup_by_key f xs) \<subseteq> set xs"
  by (induction f xs rule: dedup_by_key.induct) auto

lemma dedup_by_key_keys: "f ` set (dedup_by_key f xs) = f ` set xs"
  by (induction f xs rule: dedup_by_key.induct) auto

lemma dedup_by_key_strict:
  fixes f :: "'a \<Rightarrow> 'b::linorder"
  shows "sorted (map f xs) \<Longrightarrow> sorted_wrt (<) (map f (dedup_by_key f xs))"
proof (induction f xs rule: dedup_by_key.induct)
  case (1 f x y ys)
  have "f x < f z" if "f x \<noteq> f y" "z \<in> set (dedup_by_key f (y # ys))" for z
    using that 1(3) dedup_by_key_subset [of f "y # ys"] by fastforce
  with 1 show ?case by auto
qed simp_all

lemma dedup_by_key_id: "sorted_wrt (<) (map (f :: 'a \<Rightarrow> 'b::linorder) xs) \<Longrightarrow> dedup_by_key f xs = xs"
  by (induction f xs rule: dedup_by_key.induct) auto

lemma strict_sorted: "sorted_wrt (<) (xs :: 'b::linorder list) \<Longrightarrow> sorted xs"
  by (simp add: strict_sorted_iff)

lemma sort_key_id: "sorted (map f xs) \<Longrightarrow> sort_key f xs = xs"
  by (induction xs) (auto simp: insort_is_Cons)

lemma normalized_sorted: "sorted_wrt (<) (map dr_domain (domain_resolutions (normalized s)))"
  by (simp add: normalized_def take_map [symmetric] sorted_wrt_take dedup_by_key_strict)

lemma normalized_idem: "normalized (normalized s) = normalized s"
proof -
  have "drop_excess (drop_excess rs) = drop_excess rs" for rs
    by (subst drop_excess.simps) (simp add: drop_excess_length)
  moreover have "take MAX_DOMAIN_RESOLUTIONS (dedup_by_key dr_domain (sort_key dr_domain ds)) = ds"
    if "ds = domain_resolutions (normalized s)" for ds
  proof -
    have "sorted_wrt (<) (map dr_domain ds)" using normalized_sorted that by simp
    then have "dedup_by_key dr_domain (sort_key dr_domain ds) = ds"
      by (simp add: sort_key_id strict_sorted dedup_by_key_id)
    moreover have "length ds \<le> MAX_DOMAIN_RESOLUTIONS" using that by (simp add: normalized_def)
    ultimately show ?thesis by simp
  qed
  ultimately show ?thesis by (simp add: normalized_def)
qed

section \<open>What the store holds\<close>

text \<open>What is documented of \<^verbatim>\<open>tempfile\<close>: a new file under a name that was free, with the prefix and the
  suffix; \<^verbatim>\<open>persist\<close> replaces the target at once or changes nothing; a drop concerns the file alone.\<close>

definition tempfile_laws :: "tempfile_api \<Rightarrow> bool" where
  "tempfile_laws t \<longleftrightarrow>
     (\<forall>pre suf dir w r w'. tempfile_in t pre suf dir w = (r, w') \<longrightarrow>
        (case r of
           Err _ \<Rightarrow> nodes w' = nodes w
         | Ok p \<Rightarrow> \<exists>name n. p = dir @ [pre @ name @ suf] \<and> nodes w p = None
             \<and> nd_kind n = RegularFile [] \<and> nodes w' = (nodes w)(p := Some n)))
     \<and> (\<forall>p q w r w'. temp_persist t p q w = (r, w') \<longrightarrow>
        nodes w' = (if is_ok r then (nodes w)(p := None, q := nodes w p) else nodes w))
     \<and> (\<forall>p q w. q \<noteq> p \<longrightarrow> nodes (temp_drop t p w) q = nodes w q)"

definition state_reads_back :: "split_tunnel_json \<Rightarrow> bool" where
  "state_reads_back js \<longleftrightarrow> (\<forall>st bs. state_to_vec js st = Some bs \<longrightarrow> state_from_slice js bs = Some st)"

definition content :: "path \<Rightarrow> fs \<Rightarrow> bytes option" where
  "content p w =
     (case nodes w p of
        None \<Rightarrow> None
      | Some n \<Rightarrow> (case nd_kind n of RegularFile bs \<Rightarrow> Some bs | _ \<Rightarrow> None))"

lemma content_Some: "content p w = Some bs \<longleftrightarrow> (\<exists>n. nodes w p = Some n \<and> nd_kind n = RegularFile bs)"
  by (auto simp: content_def split: option.splits node_kind.splits)

lemma only_at_map_err [only_at_rules]: "only_at T w (snd m) \<Longrightarrow> only_at T w (snd (map_err_io f m))"
  by (cases m; cases "fst m") simp_all

lemma file_open_only_at [only_at_rules]: "only_at T w (snd (file_open env p w))"
  unfolding file_open_def by (rule only_at_guarded) (simp add: only_at_refl)

lemma sync_store_directory_only_at: "only_at T w (snd (sync_store_directory env p w))"
  unfolding sync_store_directory_def by (auto intro!: only_at_rules)

lemma create_protected_dir_only_at:
  "only_at {q. prefix q p} w (snd (create_protected_dir env p w))"
  unfolding create_protected_dir_def by (intro only_at_bind create_dir_all_only_at only_at_calls) auto

lemma write_temporary_only_at: "only_at {p} w (snd (write_temporary bs p w))"
  unfolding write_temporary_def set_private_file_permissions_def by (auto intro!: only_at_rules)

lemma write_temporary_Ok:
  assumes "nodes w p = Some n" and "nd_kind n = RegularFile []" and "write_temporary bs p w = (Ok x, w')"
  shows "content p w' = Some bs"
  using assms
  by (auto simp: write_temporary_def set_private_file_permissions_def set_permissions_def
      guarded_def file_write_all_def append_file_def sync_all_def content_Some
      dest!: next_fault_frame split: prod.splits option.splits)

lemma temp_not_state:
  assumes "tempfile_laws t" and "tempfile_in t ''.state-'' suf dir w = (Ok p, w')"
  shows "p \<noteq> dir @ [''state.json''] \<and> (\<exists>n. nodes w' = (nodes w)(p := Some n) \<and> nd_kind n = RegularFile [])"
  using assms unfolding tempfile_laws_def by fastforce

lemma persist_temporary_effect:
  assumes laws: "tempfile_laws t" and c: "content temporary w = Some bs" and ne: "temporary \<noteq> fst_path store"
    and eq: "(case temp_persist t temporary (fst_path store) w of
        (Err e, w) \<Rightarrow> (Err (StorageIo e), temp_drop t temporary w)
      | (Ok _, w) \<Rightarrow> sync_store_directory env (fst_directory store) w) = (r, w')"
  shows "(nodes w' (fst_path store) = nodes w (fst_path store) \<and> r \<noteq> Ok ()) \<or> content (fst_path store) w' = Some bs"
proof (cases "temp_persist t temporary (fst_path store) w")
  case (Pair a v)
  have nv: "nodes v = (if is_ok a then (nodes w)(temporary := None, fst_path store := nodes w temporary) else nodes w)"
    using laws Pair unfolding tempfile_laws_def by blast
  show ?thesis
  proof (cases a)
    case (Inl e)
    then show ?thesis using eq Pair nv ne laws by (auto simp: tempfile_laws_def is_ok_def)
  next
    case (Inr u)
    then have "w' = snd (sync_store_directory env (fst_directory store) v)" using eq Pair by simp
    then have "nodes w' (fst_path store) = nodes v (fst_path store)"
      using only_at_nodes [OF sync_store_directory_only_at, of "fst_path store" "{}"] by simp
    then show ?thesis using nv Inr c ne by (simp add: content_def is_ok_def)
  qed
qed

lemma save_bytes_effect:
  assumes laws: "tempfile_laws t" and store: "fst_path store = fst_directory store @ [''state.json'']"
    and eq: "save_bytes t env store bs w = (r, w')"
  shows "(nodes w' (fst_path store) = nodes w (fst_path store) \<and> r \<noteq> Ok ()) \<or> content (fst_path store) w' = Some bs"
proof -
  obtain a v where a: "create_protected_dir env (fst_directory store) w = (a, v)" by force
  have nv: "nodes v (fst_path store) = nodes w (fst_path store)"
    using only_at_nodes [OF create_protected_dir_only_at, of "fst_path store" "fst_directory store" env w] a store
    by (auto dest: prefix_length_le)
  show ?thesis
  proof (cases a)
    case (Inl e)
    then show ?thesis using eq a nv by (auto simp: save_bytes_def)
  next
    case (Inr u)
    obtain b x where b: "tempfile_in t ''.state-'' ''.tmp'' (fst_directory store) v = (b, x)" by force
    show ?thesis
    proof (cases b)
      case (Inl e)
      then have "nodes x = nodes v" using laws b unfolding tempfile_laws_def by fastforce
      then show ?thesis using eq a Inr b Inl nv by (auto simp: save_bytes_def)
    next
      case Ok: (Inr temporary)
      have ne: "temporary \<noteq> fst_path store" using temp_not_state [OF laws] b Ok store by metis
      obtain n where x: "nodes x = (nodes v)(temporary := Some n)" "nd_kind n = RegularFile []"
        using temp_not_state [OF laws] b Ok by metis
      obtain c y where c: "write_temporary bs temporary x = (c, y)" by force
      have ny: "nodes y (fst_path store) = nodes w (fst_path store)"
        using only_at_nodes [OF write_temporary_only_at, of "fst_path store" temporary bs x] c ne nv x by simp
      show ?thesis
      proof (cases c)
        case (Inl e)
        then show ?thesis using eq a Inr b Ok c ny ne laws by (auto simp: save_bytes_def tempfile_laws_def)
      next
        case (Inr u)
        have "content temporary y = Some bs" using write_temporary_Ok [of x temporary n] x c Inr by simp
        from persist_temporary_effect [OF laws this ne, of env r w'] show ?thesis
          using eq a \<open>a = Inr _\<close> b Ok c Inr ny by (simp add: save_bytes_def)
      qed
    qed
  qed
qed

text \<open>The file is absent or is the text of a state as it was normalised for saving.\<close>

definition holds :: "split_tunnel_json \<Rightarrow> file_split_tunnel_store \<Rightarrow> stored_split_tunnel_state \<Rightarrow> fs \<Rightarrow> bool" where
  "holds js store st w \<longleftrightarrow>
     (\<exists>bs. state_to_vec js (normalized st) = Some bs \<and> length bs \<le> STATE_LIMIT_BYTES
       \<and> content (fst_path store) w = Some bs)"

lemma save_state_file_effect:
  assumes laws: "tempfile_laws t" and store: "fst_path store = fst_directory store @ [''state.json'']"
    and eq: "save_state_file js t env store st w = (r, w')"
  shows "(nodes w' (fst_path store) = nodes w (fst_path store) \<and> r \<noteq> Ok ()) \<or> holds js store st w'"
proof (cases "normalized_checked_state js st")
  case (Inl e)
  then show ?thesis using eq by (auto simp: save_state_file_def)
next
  case (Inr s)
  then obtain bs where bs: "s = normalized st" "state_to_vec js s = Some bs" "length bs \<le> STATE_LIMIT_BYTES"
    by (auto simp: normalized_checked_state_def Let_def ok_or_def split: if_splits option.splits)
  then have "save_bytes t env store bs w = (r, w')" using eq Inr by (simp add: save_state_file_def)
  from save_bytes_effect [OF laws store this] bs show ?thesis by (auto simp: holds_def)
qed

lemma delete_state_file_effect:
  assumes "delete_state_file env store w = (r, w')"
  shows "(nodes w' (fst_path store) = nodes w (fst_path store) \<and> (r = Ok () \<longrightarrow> nodes w' (fst_path store) = None))
    \<or> nodes w' (fst_path store) = None"
proof (cases "remove_file (fst_path store) w")
  case (Pair a v)
  show ?thesis
  proof (cases a)
    case (Inr u)
    then have "nodes v (fst_path store) = None"
      using Pair by (auto simp: remove_file_def dest!: next_fault_frame split: prod.splits option.splits if_splits)
    moreover have "w' = snd (sync_store_directory env (fst_directory store) v)"
      using assms Pair Inr by (simp add: delete_state_file_def)
    ultimately show ?thesis
      using only_at_nodes [OF sync_store_directory_only_at, of "fst_path store" "{}"] by simp
  next
    case (Inl e)
    then show ?thesis using assms Pair
      by (auto simp: delete_state_file_def remove_file_def dest!: next_fault_frame
          split: prod.splits option.splits if_splits)
  qed
qed

lemma load_holds:
  assumes "state_reads_back js" and "holds js store st w" and "faults w = []"
  shows "load_state_file js env store w = (Ok (normalized st), w)"
proof -
  from assms(2) obtain n bs where "state_to_vec js (normalized st) = Some bs" "length bs \<le> STATE_LIMIT_BYTES"
    "nodes w (fst_path store) = Some n" "nd_kind n = RegularFile bs"
    by (auto simp: holds_def content_Some)
  then show ?thesis using assms(1,3)
    by (simp add: load_state_file_def file_open_def file_metadata_len_def take_read_to_end_def guarded_def
        next_fault_def state_reads_back_def normalized_idem)
qed

lemma load_absent:
  "nodes w (fst_path store) = None \<Longrightarrow> faults w = [] \<Longrightarrow>
   load_state_file js env store w = (Ok default_split_tunnel_state, w)"
  by (simp add: load_state_file_def file_open_def guarded_def next_fault_def)

section \<open>Sequences of calls\<close>

text \<open>The calls on the store, each with the faults it meets.  The states that were given to a save are
  remembered beside the file system.\<close>

datatype store_op = StoreSave stored_split_tunnel_state "nat option list" | StoreDelete "nat option list"
  | StoreLoad "nat option list"

fun store_step ::
  "split_tunnel_json \<Rightarrow> tempfile_api \<Rightarrow> os_env \<Rightarrow> file_split_tunnel_store \<Rightarrow>
   fs \<times> stored_split_tunnel_state list \<Rightarrow> store_op \<Rightarrow> fs \<times> stored_split_tunnel_state list" where
  "store_step js t env store (w, saved) (StoreSave st fs) =
     (snd (save_state_file js t env store st (w\<lparr>faults := fs\<rparr>)), st # saved)"
| "store_step js t env store (w, saved) (StoreDelete fs) =
     (snd (delete_state_file env store (w\<lparr>faults := fs\<rparr>)), saved)"
| "store_step js t env store (w, saved) (StoreLoad fs) =
     (snd (load_state_file js env store (w\<lparr>faults := fs\<rparr>)), saved)"

definition holds_saved ::
  "split_tunnel_json \<Rightarrow> file_split_tunnel_store \<Rightarrow> fs \<times> stored_split_tunnel_state list \<Rightarrow> bool" where
  "holds_saved js store = (\<lambda>(w, saved).
     nodes w (fst_path store) = None \<or> (\<exists>st \<in> set saved. holds js store st w))"

definition store_inv ::
  "split_tunnel_json \<Rightarrow> tempfile_api \<Rightarrow> file_split_tunnel_store \<Rightarrow> fs \<times> stored_split_tunnel_state list \<Rightarrow> bool" where
  "store_inv js t store s \<longleftrightarrow>
     (tempfile_laws t \<and> fst_path store = fst_directory store @ [''state.json''] \<longrightarrow> holds_saved js store s)"

lemma load_state_file_nodes: "nodes (snd (load_state_file js env store w)) = nodes w"
  by (auto simp: load_state_file_def file_open_def file_metadata_len_def take_read_to_end_def guarded_def
      bind_io_def dest!: next_fault_frame split: prod.splits option.splits sum.splits node_kind.splits)

lemma holds_cong: "nodes w (fst_path store) = nodes v (fst_path store) \<Longrightarrow> holds js store st w = holds js store st v"
  by (simp add: holds_def content_def)

lemma holds_with_faults [simp]: "holds js store st (w\<lparr>faults := fs\<rparr>) = holds js store st w"
  by (rule holds_cong) simp

lemma holds_saved_unchanged:
  "holds_saved js store (w, saved) \<Longrightarrow> set saved \<subseteq> set saved' \<Longrightarrow>
   nodes w' (fst_path store) = nodes w (fst_path store) \<Longrightarrow> holds_saved js store (w', saved')"
  using holds_cong [of w' store w js] by (auto simp: holds_saved_def)

lemma store_step_inv:
  assumes inv: "store_inv js t store s"
  shows "store_inv js t store (store_step js t env store s x)"
  unfolding store_inv_def
proof
  assume a: "tempfile_laws t \<and> fst_path store = fst_directory store @ [''state.json'']"
  obtain w saved where s: "s = (w, saved)" by force
  have h: "holds_saved js store (w, saved)" using inv a s by (simp add: store_inv_def)
  show "holds_saved js store (store_step js t env store s x)"
  proof (cases x)
    case (StoreSave st fs)
    obtain r w' where e: "save_state_file js t env store st (w\<lparr>faults := fs\<rparr>) = (r, w')" by force
    from save_state_file_effect [OF _ _ e] a show ?thesis
      using holds_saved_unchanged [OF h set_subset_Cons, of w' st] s StoreSave e by (auto simp: holds_saved_def)
  next
    case (StoreDelete fs)
    obtain r w' where e: "delete_state_file env store (w\<lparr>faults := fs\<rparr>) = (r, w')" by force
    from delete_state_file_effect [OF e] show ?thesis
      using holds_saved_unchanged [OF h subset_refl, of w'] s StoreDelete e by (auto simp: holds_saved_def)
  next
    case (StoreLoad fs)
    then show ?thesis
      using holds_saved_unchanged [OF h subset_refl] s by (simp add: load_state_file_nodes)
  qed
qed

interpretation split_store:
  state_machine "(\<lparr>nodes = \<lambda>_. None, euid = 0, faults = []\<rparr>, [])" "store_step js t env store" "store_inv js t store"
  for js t env store
  by unfold_locales (simp add: store_inv_def holds_saved_def, rule store_step_inv)

text \<open>C38: The store of the split-tunnel state is atomic and reads back what was saved.  Start from an
  application directory with no state file and let any sequence of saves, deletions and loads run, with
  any faults.  Then a load that meets no fault succeeds, with the default state or the normalised form
  of a state that was given to a save.  A further save, with any faults, either leaves what a load gives
  as it was and reports an error, or makes a load give the normalised form of its argument.  A
  successful deletion makes a load give the default state.  Normalisation keeps at most 32 pending
  reports and drops a report of a failure only to keep 32 newer ones.\<close>

theorem split_tunnel_store_atomic:
  assumes "tempfile_laws t" and "state_reads_back js" and store: "store = new_file_store dir"
    and "nodes w0 (fst_path store) = None"
    and run: "run (store_step js t env store) (w0, []) xs = (w, saved)"
  shows "fst (load_state_file js env store (w\<lparr>faults := []\<rparr>)) \<in> Ok ` ({default_split_tunnel_state} \<union> normalized ` set saved)
    \<and> (\<forall>st fs r w'. save_state_file js t env store st (w\<lparr>faults := fs\<rparr>) = (r, w') \<longrightarrow>
         fst (load_state_file js env store (w'\<lparr>faults := []\<rparr>)) = Ok (normalized st)
         \<or> (r \<noteq> Ok () \<and> fst (load_state_file js env store (w'\<lparr>faults := []\<rparr>))
              = fst (load_state_file js env store (w\<lparr>faults := []\<rparr>))))
    \<and> (\<forall>fs w'. delete_state_file env store (w\<lparr>faults := fs\<rparr>) = (Ok (), w') \<longrightarrow>
         fst (load_state_file js env store (w'\<lparr>faults := []\<rparr>)) = Ok default_split_tunnel_state)
    \<and> length (pending_apply_results (normalized st)) \<le> 32
    \<and> failure_reports (pending_apply_results (normalized st))
      = drop (length (failure_reports (pending_apply_results st)) - 32) (failure_reports (pending_apply_results st))"
proof (intro conjI allI impI)
  have proper: "fst_path store = fst_directory store @ [''state.json'']"
    using store by (simp add: new_file_store_def Let_def)
  have "store_inv js t store (run (store_step js t env store) (w0, []) xs)"
    by (rule split_store.inv_run_from) (use assms(4) in \<open>auto simp: store_inv_def holds_saved_def\<close>)
  then have h: "holds_saved js store (w, saved)" using run assms(1) proper by (simp add: store_inv_def)
  have cong: "fst (load_state_file js env store (v\<lparr>faults := []\<rparr>)) = fst (load_state_file js env store (w\<lparr>faults := []\<rparr>))"
    if "nodes v (fst_path store) = nodes w (fst_path store)" for v
    using h that load_absent [of _ store js env] load_holds [OF assms(2)] holds_cong [OF that, of js]
    by (auto simp: holds_saved_def)
  show "fst (load_state_file js env store (w\<lparr>faults := []\<rparr>)) \<in> Ok ` ({default_split_tunnel_state} \<union> normalized ` set saved)"
    using h load_absent [of "w\<lparr>faults := []\<rparr>" store js env] load_holds [OF assms(2), of store _ "w\<lparr>faults := []\<rparr>" env]
    by (auto simp: holds_saved_def)
  show "fst (load_state_file js env store (w'\<lparr>faults := []\<rparr>)) = Ok (normalized st)
       \<or> (r \<noteq> Ok () \<and> fst (load_state_file js env store (w'\<lparr>faults := []\<rparr>))
              = fst (load_state_file js env store (w\<lparr>faults := []\<rparr>)))"
    if "save_state_file js t env store st (w\<lparr>faults := fs\<rparr>) = (r, w')" for st fs r w'
    using save_state_file_effect [OF assms(1) proper that] cong [of w']
      load_holds [OF assms(2), of store st "w'\<lparr>faults := []\<rparr>" env] by auto
  show "fst (load_state_file js env store (w'\<lparr>faults := []\<rparr>)) = Ok default_split_tunnel_state"
    if "delete_state_file env store (w\<lparr>faults := fs\<rparr>) = (Ok (), w')" for fs w'
    using delete_state_file_effect [OF that] load_absent [of "w'\<lparr>faults := []\<rparr>" store js env] by auto
qed (simp_all add: normalized_def drop_excess_length drop_excess_failures flip: MAX_PENDING_APPLY_RESULTS_def)

text \<open>Instances of the parameters: temporary files on the file system of the model, and an encoding
  of one state.\<close>

definition sample_tempfile :: tempfile_api where
  "sample_tempfile =
     \<lparr>tempfile_in = \<lambda>pre suf dir w. bind_io (create_new 384 (dir @ [pre @ ''a'' @ suf]) w)
        (\<lambda>_ w. (Ok (dir @ [pre @ ''a'' @ suf]), w)),
      temp_persist = fs_rename, temp_drop = \<lambda>p w. snd (remove_file p w)\<rparr>"

definition sample_split_state :: stored_split_tunnel_state where
  "sample_split_state = default_split_tunnel_state\<lparr>last_seen_force_revision := 3\<rparr>"

definition sample_split_json :: split_tunnel_json where
  "sample_split_json =
     \<lparr>state_to_vec = \<lambda>st. if st = sample_split_state then Some ''s'' else None,
      state_from_slice = \<lambda>bs. if bs = ''s'' then Some sample_split_state else None\<rparr>"

definition sample_split_env :: os_env where
  "sample_split_env =
     \<lparr>new_dir_mode = 493, new_file_mode = 420, link_target = \<lambda>_. None, lock_held = \<lambda>_. False,
      dir_entries = \<lambda>_ _. []\<rparr>"

lemma sample_tempfile_laws: "tempfile_laws sample_tempfile"
  by (auto simp: tempfile_laws_def sample_tempfile_def create_new_def fs_rename_def remove_file_def
      bind_io_def is_ok_def dest!: next_fault_frame split: prod.splits option.splits sum.splits if_splits)
    (rule exI, rule conjI [rotated], rule refl, simp)+

lemma sample_split_json_reads_back: "state_reads_back sample_split_json"
  by (auto simp: state_reads_back_def sample_split_json_def split: if_splits)

theorem split_tunnel_store_atomic_witness:
  "case run (store_step sample_split_json sample_tempfile sample_split_env (new_file_store [''d'']))
     (\<lparr>nodes = (\<lambda>_. None), euid = 7, faults = []\<rparr>, [])
     [StoreSave sample_split_state [], StoreLoad [Some 0], StoreDelete [Some 1],
      StoreSave default_split_tunnel_state [None, Some 2]] of
     (w, saved) \<Rightarrow>
       fst (load_state_file sample_split_json sample_split_env (new_file_store [''d'']) (w\<lparr>faults := []\<rparr>))
       \<in> Ok ` ({default_split_tunnel_state} \<union> normalized ` set saved)"
proof -
  have "nodes \<lparr>nodes = (\<lambda>_. None), euid = 7, faults = []\<rparr> (fst_path (new_file_store [''d''])) = None" by simp
  note law = split_tunnel_store_atomic [OF sample_tempfile_laws sample_split_json_reads_back refl this, THEN conjunct1]
  show ?thesis by (rule case_prodI2) (erule law)
qed

end
