(* ===== verification/SplitTunnel.thy ===== *)
theory SplitTunnel
  imports SplitTunnelStore
begin

text \<open>
  The split tunnel of \<^verbatim>\<open>crates/client-core/src/split_tunnel.rs\<close>, as far as it is not asynchronous:
  the options that a policy of the panel gives on a device, the addresses of its domains, the
  detector of changes of the physical network, and the book-keeping of policies that failed.
  \<^verbatim>\<open>ipnet\<close>, the URL and RFC 3339 parsers, the resolver, and the Unicode tables behind
  \<^verbatim>\<open>str::to_lowercase\<close> are parameters.
\<close>

section \<open>Running options and local restarts\<close>

definition LEGACY_FORMAT_VERSION :: u16 where "LEGACY_FORMAT_VERSION = 1"
definition ADDRESS_RULE_FORMAT_VERSION :: u16 where "ADDRESS_RULE_FORMAT_VERSION = 2"
definition MAX_MANDATORY_PACKAGES :: nat where "MAX_MANDATORY_PACKAGES = 512"
definition MAX_SUGGESTIONS :: nat where "MAX_SUGGESTIONS = 128"
definition MAX_SELECTED_PACKAGES :: nat where "MAX_SELECTED_PACKAGES = 512"
definition CORE_MAX_IPV4_CIDRS :: nat where "CORE_MAX_IPV4_CIDRS = 16384"
definition MAX_ADDRESS_RULES :: nat where "MAX_ADDRESS_RULES = 512"
definition MAX_IPV4_ADDRESSES_PER_DOMAIN :: nat where "MAX_IPV4_ADDRESSES_PER_DOMAIN = 64"
definition MAX_ADDRESS_RULE_INPUT_LENGTH :: nat where "MAX_ADDRESS_RULE_INPUT_LENGTH = 2048"
definition FAILED_POLICY_RETRY_SECONDS :: int where "FAILED_POLICY_RETRY_SECONDS = 60 * 60"
definition PHYSICAL_NETWORK_RETRY_SECONDS :: int where "PHYSICAL_NETWORK_RETRY_SECONDS = 5 * 60"
definition UNKNOWN_PHYSICAL_NETWORK :: string where
  "UNKNOWN_PHYSICAL_NETWORK = ''restore_requires_network_revalidation''"

type_synonym start_cancellation_epoch = u64

record running_split_tunnel_options =
  ro_options :: tunnel_options
  ro_available_to :: "(string \<times> start_cancellation_epoch) option"
  ro_native_confirmed :: bool

definition default_running_options :: running_split_tunnel_options where
  "default_running_options =
     \<lparr>ro_options = default_tunnel_options, ro_available_to = None, ro_native_confirmed = False\<rparr>"

definition confirmed_options ::
  "tunnel_options \<Rightarrow> string \<Rightarrow> start_cancellation_epoch \<Rightarrow> running_split_tunnel_options" where
  "confirmed_options options lease epoch =
     \<lparr>ro_options = options, ro_available_to = Some (lease, epoch), ro_native_confirmed = True\<rparr>"

definition is_available_for ::
  "running_split_tunnel_options \<Rightarrow> string \<Rightarrow> start_cancellation_epoch \<Rightarrow> bool" where
  "is_available_for r lease epoch \<longleftrightarrow>
     (case ro_available_to r of
        None \<Rightarrow> False
      | Some (owner, applied_epoch) \<Rightarrow> owner = lease \<and> applied_epoch = epoch)"

definition is_confirmed_for ::
  "running_split_tunnel_options \<Rightarrow> string \<Rightarrow> start_cancellation_epoch \<Rightarrow> bool" where
  "is_confirmed_for r lease epoch \<longleftrightarrow> ro_native_confirmed r \<and> is_available_for r lease epoch"

definition local_restart_connection :: "connection \<Rightarrow> quick_connection" where
  "local_restart_connection c =
     \<lparr>qc_lease_id = lease_id c, qc_layer = conn_layer c,
      qc_tic_connection_mode = conn_tic_connection_mode c, qc_route_mode = conn_route_mode c,
      qc_egress_mode = conn_egress_mode c, qc_allow_alternate = False\<rparr>"

definition issued_or_connected :: "lease_status \<Rightarrow> bool" where
  "issued_or_connected s \<longleftrightarrow> s = LeaseIssued \<or> s = LeaseConnected"

definition same_local_recovery_execution :: "connection \<Rightarrow> connection \<Rightarrow> bool" where
  "same_local_recovery_execution current expected \<longleftrightarrow>
     current = expected
     \<or> (issued_or_connected (conn_status current)
        \<and> issued_or_connected (conn_status expected)
        \<and> lease_id current = lease_id expected
        \<and> conn_session_id current = conn_session_id expected
        \<and> pool_id current = pool_id expected
        \<and> conn_layer current = conn_layer expected
        \<and> conn_transport_protocol current = conn_transport_protocol expected
        \<and> conn_tic_connection_mode current = conn_tic_connection_mode expected
        \<and> conn_route_mode current = conn_route_mode expected
        \<and> conn_egress_mode current = conn_egress_mode expected
        \<and> pinned current = pinned expected
        \<and> stopped_at current = stopped_at expected)"

section \<open>Changes of the physical network\<close>

record physical_network_change_detector =
  dt_applied :: "string option"
  dt_candidate :: "string option"
  dt_retry_after_unix :: "int option"
  dt_probe_failed :: bool
  dt_reconnect_after_probe_failure :: bool
  dt_reconnect_failure_reported :: bool

definition default_detector :: physical_network_change_detector where
  "default_detector =
     \<lparr>dt_applied = None, dt_candidate = None, dt_retry_after_unix = None, dt_probe_failed = False,
      dt_reconnect_after_probe_failure = False, dt_reconnect_failure_reported = False\<rparr>"

datatype physical_network_observation =
  BaselineRecorded | ChangePending | RetryDeferred | Unchanged | ConfirmedChange string

definition observe ::
  "physical_network_change_detector \<Rightarrow> string \<Rightarrow> int \<Rightarrow>
   physical_network_observation \<times> physical_network_change_detector" where
  "observe d fingerprint now_unix =
     (let reconnect = dt_reconnect_after_probe_failure d;
          d = d\<lparr>dt_probe_failed := False, dt_reconnect_after_probe_failure := False\<rparr> in
      case dt_applied d of
        None \<Rightarrow>
          (BaselineRecorded,
           d\<lparr>dt_applied := Some fingerprint, dt_candidate := None, dt_retry_after_unix := None\<rparr>)
      | Some applied \<Rightarrow>
          if dt_candidate d = Some fingerprint then
            (if (case dt_retry_after_unix d of None \<Rightarrow> False | Some t \<Rightarrow> now_unix < t)
             then (RetryDeferred, d)
             else (ConfirmedChange fingerprint, d\<lparr>dt_retry_after_unix := None\<rparr>))
          else if applied = fingerprint then
            (if reconnect
             then (ConfirmedChange fingerprint,
                   d\<lparr>dt_candidate := Some fingerprint, dt_retry_after_unix := None,
                     dt_reconnect_failure_reported := False\<rparr>)
             else (Unchanged,
                   d\<lparr>dt_candidate := None, dt_retry_after_unix := None,
                     dt_reconnect_failure_reported := False\<rparr>))
          else
            (ChangePending,
             d\<lparr>dt_candidate := Some fingerprint, dt_retry_after_unix := None,
               dt_reconnect_failure_reported := False\<rparr>))"

definition defer_retry ::
  "physical_network_change_detector \<Rightarrow> int \<Rightarrow> bool \<times> physical_network_change_detector" where
  "defer_retry d now_unix =
     (\<not> dt_reconnect_failure_reported d,
      d\<lparr>dt_retry_after_unix := Some (i64_saturate (now_unix + PHYSICAL_NETWORK_RETRY_SECONDS)),
        dt_reconnect_failure_reported := True\<rparr>)"

definition mark_applied ::
  "physical_network_change_detector \<Rightarrow> string \<Rightarrow> physical_network_change_detector" where
  "mark_applied d fingerprint =
     d\<lparr>dt_applied := Some fingerprint, dt_candidate := None, dt_retry_after_unix := None,
       dt_probe_failed := False, dt_reconnect_after_probe_failure := False,
       dt_reconnect_failure_reported := False\<rparr>"

definition require_revalidation ::
  "physical_network_change_detector \<Rightarrow> physical_network_change_detector" where
  "require_revalidation d =
     d\<lparr>dt_applied := Some UNKNOWN_PHYSICAL_NETWORK, dt_candidate := None, dt_retry_after_unix := None,
       dt_probe_failed := False, dt_reconnect_after_probe_failure := False,
       dt_reconnect_failure_reported := False\<rparr>"

definition mark_probe_failed ::
  "physical_network_change_detector \<Rightarrow> bool \<Rightarrow> bool \<times> physical_network_change_detector" where
  "mark_probe_failed d reconnect_after_recovery =
     (\<not> dt_probe_failed d,
      d\<lparr>dt_probe_failed := True,
        dt_reconnect_after_probe_failure := dt_reconnect_after_probe_failure d \<or> reconnect_after_recovery\<rparr>)"

definition reset_detector :: "physical_network_change_detector \<Rightarrow> physical_network_change_detector" where
  "reset_detector d =
     d\<lparr>dt_applied := None, dt_candidate := None, dt_retry_after_unix := None,
       dt_probe_failed := False, dt_reconnect_after_probe_failure := False,
       dt_reconnect_failure_reported := False\<rparr>"

fun probe_failure_requires_reconnect :: "tunnel_error \<Rightarrow> bool" where
  "probe_failure_requires_reconnect (TunnelBackend code) \<longleftrightarrow> code = ''physical_egress_unavailable''"
| "probe_failure_requires_reconnect _ \<longleftrightarrow> False"

section \<open>Validation of a policy\<close>

record split_tunnel_context =
  cx_global_enabled :: bool
  cx_platform :: tunnel_platform
  cx_android_api_level :: "u32 option"
  cx_layer :: layer
  cx_route_mode :: route_mode

definition split_tunnel_active :: "split_tunnel_context \<Rightarrow> bool" where
  "split_tunnel_active cx =
     (if \<not> cx_global_enabled cx then False
      else if cx_platform cx = PlatformAndroid
              \<and> (case cx_android_api_level cx of None \<Rightarrow> False | Some level \<Rightarrow> level \<le> 32)
      then False
      else
        (case (cx_layer cx, cx_route_mode cx) of
           (Tic, ViaTak) \<Rightarrow> True
         | (Tic, Standalone) \<Rightarrow> True
         | (Stray, _) \<Rightarrow> True))"

datatype split_tunnel_policy_error =
  UnsupportedFormat | InvalidTimestamp | MandatoryPackagesLimit | SuggestionsLimit
| SelectedPackagesLimit | CidrsLimit | EmptyIncludeSelection | InvalidTunnelOptions string
| AddressRulesLimit | InvalidAddressRule | AddressRulesRequireFormatTwo | DomainResolutionUnavailable

fun policy_stable_code :: "split_tunnel_policy_error \<Rightarrow> string" where
  "policy_stable_code UnsupportedFormat = ''split_tunnel_unsupported_format''"
| "policy_stable_code InvalidTimestamp = ''split_tunnel_invalid_timestamp''"
| "policy_stable_code MandatoryPackagesLimit = ''split_tunnel_mandatory_packages_limit''"
| "policy_stable_code SuggestionsLimit = ''split_tunnel_suggestions_limit''"
| "policy_stable_code SelectedPackagesLimit = ''split_tunnel_selected_packages_limit''"
| "policy_stable_code CidrsLimit = ''split_tunnel_cidrs_limit''"
| "policy_stable_code EmptyIncludeSelection = ''split_tunnel_empty_include_selection''"
| "policy_stable_code (InvalidTunnelOptions code) = code"
| "policy_stable_code AddressRulesLimit = ''split_tunnel_address_rules_limit''"
| "policy_stable_code InvalidAddressRule = ''split_tunnel_address_rule_invalid''"
| "policy_stable_code AddressRulesRequireFormatTwo = ''split_tunnel_address_rules_unsupported_format''"
| "policy_stable_code DomainResolutionUnavailable = ''split_tunnel_domain_resolution_unavailable''"

definition valid_domain_label :: "string \<Rightarrow> bool" where
  "valid_domain_label label \<longleftrightarrow>
     label \<noteq> [] \<and> length label \<le> 63
     \<and> list_all (\<lambda>b. is_ascii_lowercase b \<or> is_ascii_digit b \<or> b = CHR ''-'') label
     \<and> \<not> starts_with_char (CHR ''-'') label \<and> \<not> ends_with_char (CHR ''-'') label"

definition valid_normalized_domain :: "string \<Rightarrow> bool" where
  "valid_normalized_domain value \<longleftrightarrow>
     (if value = [] \<or> length value > 253 \<or> ends_with_char (CHR ''.'') value
         \<or> CHR ''.'' \<notin> set value \<or> \<not> str_is_ascii value
      then False
      else list_all valid_domain_label (split_on (CHR ''.'') value))"

text \<open>\<open>url_parse\<close> gives the scheme and the host of what \<^verbatim>\<open>Url::parse\<close> accepts.\<close>

definition normalize_address_rule_input ::
  "(string \<Rightarrow> (string \<times> string option) option) \<Rightarrow> string \<Rightarrow> (split_tunnel_policy_error, string) result" where
  "normalize_address_rule_input url_parse value =
     (let candidate = trim value in
      if candidate = [] \<or> length candidate > MAX_ADDRESS_RULE_INPUT_LENGTH \<or> any_control candidate
      then Err InvalidAddressRule
      else if \<not> contains_str ''://'' candidate then Ok candidate
      else
        (case url_parse candidate of
           None \<Rightarrow> Err InvalidAddressRule
         | Some (scheme, host) \<Rightarrow>
             if scheme \<noteq> ''http'' \<and> scheme \<noteq> ''https'' then Err InvalidAddressRule
             else
               (case host of
                  None \<Rightarrow> Err InvalidAddressRule
                | Some h \<Rightarrow> if h = [] then Err InvalidAddressRule else Ok h)))"

definition valid_address_rule :: "split_tunnel_address_rule \<Rightarrow> bool" where
  "valid_address_rule rule \<longleftrightarrow>
     ar_id rule > 0
     \<and> (case ar_kind rule of
          RuleIpv4 \<Rightarrow> parse_ipv4 (ar_value rule) \<noteq> None
        | RuleDomain \<Rightarrow> valid_normalized_domain (ar_value rule))"

definition validate_packages ::
  "split_tunnel_policy \<Rightarrow> split_tunnel_mode \<Rightarrow> string list \<Rightarrow> (split_tunnel_policy_error, unit) result" where
  "validate_packages policy mode ids =
     map_err InvalidTunnelOptions
       (tunnel_options_validate
          (default_tunnel_options\<lparr>application_mode := Some mode, package_ids := ids,
             to_policy_hash := Some (sp_policy_hash policy)\<rparr>))"

definition validate_split_tunnel_policy ::
  "('n, 'z) ipnet_api_scheme \<Rightarrow> (string \<Rightarrow> bool) \<Rightarrow> split_tunnel_policy \<Rightarrow>
   (split_tunnel_policy_error, unit) result" where
  "validate_split_tunnel_policy napi is_rfc3339 policy =
     (if sp_format_version policy \<noteq> LEGACY_FORMAT_VERSION
         \<and> sp_format_version policy \<noteq> ADDRESS_RULE_FORMAT_VERSION
      then Err UnsupportedFormat
      else if sp_format_version policy = LEGACY_FORMAT_VERSION \<and> sp_address_rules policy \<noteq> []
      then Err AddressRulesRequireFormatTwo
      else if sp_address_revision policy < 0 \<or> length (sp_address_rules policy) > MAX_ADDRESS_RULES
      then Err AddressRulesLimit
      else if list_ex (\<lambda>rule. \<not> valid_address_rule rule) (sp_address_rules policy)
      then Err InvalidAddressRule
      else
        and_then (map_err (\<lambda>_. InvalidTimestamp) (policy_validate_timestamps is_rfc3339 policy)) (\<lambda>_.
          if length (sp_mandatory_excluded_packages policy) > MAX_MANDATORY_PACKAGES
          then Err MandatoryPackagesLimit
          else if length (sp_suggested_name_fragments policy) > MAX_SUGGESTIONS then Err SuggestionsLimit
          else if length (sp_selected_packages policy) > MAX_SELECTED_PACKAGES then Err SelectedPackagesLimit
          else if length (sp_excluded_ipv4_cidrs policy) > CORE_MAX_IPV4_CIDRS then Err CidrsLimit
          else
            and_then (validate_packages policy ExcludeSelected (sp_mandatory_excluded_packages policy)) (\<lambda>_.
            and_then (validate_packages policy (sp_mode policy) (sp_selected_packages policy)) (\<lambda>_.
              if sp_mode policy = ExcludeSelected
                 \<and> card (set (sp_mandatory_excluded_packages policy @ sp_selected_packages policy))
                   > MAX_SELECTED_PACKAGES
              then Err SelectedPackagesLimit
              else
                map_err InvalidTunnelOptions
                  (desktop_options_validate napi
                     \<lparr>excluded_ipv4_cidrs = sp_excluded_ipv4_cidrs policy,
                      exclude_local_networks = sp_exclude_local_networks policy,
                      policy_hash = Some (sp_policy_hash policy)\<rparr>)))))"

section \<open>The installed packages\<close>

text \<open>A \<^verbatim>\<open>HashMap\<close> collected from pairs keeps the last value of a key.\<close>

record installed_package_index =
  ix_exact :: "string \<Rightarrow> split_tunnel_selected_package option"
  ix_folded :: "string \<Rightarrow> split_tunnel_selected_package option option"

definition installed_by_id ::
  "split_tunnel_selected_package list \<Rightarrow> string \<Rightarrow> split_tunnel_selected_package option" where
  "installed_by_id installed = map_of (rev (map (\<lambda>p. (pk_package_id p, p)) installed))"

definition add_folded ::
  "(string \<Rightarrow> split_tunnel_selected_package option option) \<Rightarrow> split_tunnel_selected_package \<Rightarrow>
   string \<Rightarrow> split_tunnel_selected_package option option" where
  "add_folded m p =
     (let key = to_ascii_lowercase (pk_package_id p) in
      m(key := Some (case m key of None \<Rightarrow> Some p | Some _ \<Rightarrow> None)))"

definition new_index :: "split_tunnel_selected_package list \<Rightarrow> installed_package_index" where
  "new_index installed =
     \<lparr>ix_exact = installed_by_id installed, ix_folded = foldl add_folded (\<lambda>_. None) installed\<rparr>"

definition index_resolve :: "installed_package_index \<Rightarrow> string \<Rightarrow> split_tunnel_selected_package option" where
  "index_resolve ix pid =
     (case ix_exact ix pid of
        Some p \<Rightarrow> Some p
      | None \<Rightarrow> (case ix_folded ix (to_ascii_lowercase pid) of None \<Rightarrow> None | Some r \<Rightarrow> r))"

definition canonical_available_packages :: "string list \<Rightarrow> installed_package_index \<Rightarrow> string list" where
  "canonical_available_packages ids ix = map pk_package_id (List.map_filter (index_resolve ix) ids)"

text \<open>The last filter of \<^verbatim>\<open>ordered_available_packages\<close> keeps the first occurrence of each identifier.\<close>

fun insert_seen :: "'a list \<Rightarrow> 'a list \<Rightarrow> 'a list" where
  "insert_seen seen [] = []"
| "insert_seen seen (x # xs) = (if x \<in> set seen then insert_seen seen xs else x # insert_seen (x # seen) xs)"

definition ordered_available_packages ::
  "string list \<Rightarrow> (string \<Rightarrow> split_tunnel_selected_package option) \<Rightarrow> string list \<Rightarrow> string list" where
  "ordered_available_packages ids by_id excluded =
     insert_seen [] (filter (\<lambda>i. i \<notin> set excluded) (filter (\<lambda>i. by_id i \<noteq> None) ids))"

definition suggested_packages ::
  "(string \<Rightarrow> string) \<Rightarrow> split_tunnel_selected_package list \<Rightarrow> string list \<Rightarrow> string list \<Rightarrow> string list \<Rightarrow>
   split_tunnel_selected_package list" where
  "suggested_packages to_lowercase installed fragments mandatory selected =
     (let fragments = map to_lowercase fragments in
      filter (\<lambda>p. list_ex (\<lambda>f. contains_str f (to_lowercase (pk_display_name p))) fragments)
        (filter (\<lambda>p. pk_package_id p \<notin> set selected)
          (filter (\<lambda>p. pk_package_id p \<notin> set mandatory) installed)))"

section \<open>The effective policy\<close>

record effective_split_tunnel_policy =
  ef_active :: bool
  ef_options :: tunnel_options
  ef_suggested_packages :: "split_tunnel_selected_package list"
  ef_unavailable_selected_packages :: "string list"

definition application_packages ::
  "split_tunnel_policy \<Rightarrow> (string \<Rightarrow> split_tunnel_selected_package option) \<Rightarrow> string list \<Rightarrow> string list \<Rightarrow>
   tunnel_capabilities \<Rightarrow> (split_tunnel_policy_error, split_tunnel_mode option \<times> string list) result" where
  "application_packages policy by_id mandatory selected capabilities =
     (if cap_application_split_tunnel capabilities then
        (let ids =
           (case sp_mode policy of
              ExcludeSelected \<Rightarrow> ordered_available_packages (mandatory @ selected) by_id []
            | IncludeSelected \<Rightarrow> ordered_available_packages selected by_id mandatory) in
         if sp_mode policy = IncludeSelected \<and> ids = [] then Err EmptyIncludeSelection
         else Ok (Some (sp_mode policy), ids))
      else Ok (None, []))"

definition rule_cidr :: "split_tunnel_address_rule \<Rightarrow> string option" where
  "rule_cidr rule =
     (if ar_kind rule = RuleIpv4
      then map_option (\<lambda>a. show_ipv4 a @ ''/32'') (parse_ipv4 (ar_value rule))
      else None)"

text \<open>\<^verbatim>\<open>sort\<close> followed by \<^verbatim>\<open>dedup\<close>.\<close>

definition sort_dedup :: "string list \<Rightarrow> string list" where
  "sort_dedup xs = remdups_adj (sort xs)"

definition excluded_cidrs ::
  "split_tunnel_policy \<Rightarrow> tunnel_capabilities \<Rightarrow> string list \<Rightarrow> string list" where
  "excluded_cidrs policy capabilities resolved =
     (if cap_address_split_tunnel capabilities
      then sort_dedup (sp_excluded_ipv4_cidrs policy
             @ List.map_filter rule_cidr (sp_address_rules policy) @ resolved)
      else [])"

definition effective_options ::
  "split_tunnel_policy \<Rightarrow> tunnel_capabilities \<Rightarrow> split_tunnel_mode option \<Rightarrow> string list \<Rightarrow> string list \<Rightarrow>
   tunnel_options" where
  "effective_options policy capabilities mode ids cidrs =
     \<lparr>application_mode = mode, package_ids = ids, to_excluded_ipv4_cidrs = cidrs,
      to_exclude_local_networks =
        cap_address_split_tunnel capabilities
        \<and> (sp_exclude_local_networks policy
           \<or> cap_platform capabilities \<in> {PlatformWindows, PlatformLinux, PlatformMacos}),
      to_policy_hash = Some (sp_policy_hash policy), dns_servers = [], dns46_dot = None,
      dns46_dot_expires_at_unix = 0\<rparr>"

definition policy_context ::
  "split_tunnel_policy \<Rightarrow> tunnel_capabilities \<Rightarrow> layer \<Rightarrow> route_mode \<Rightarrow> split_tunnel_context" where
  "policy_context policy capabilities layer route_mode =
     \<lparr>cx_global_enabled = sp_enabled policy, cx_platform = cap_platform capabilities,
      cx_android_api_level = cap_android_api_level capabilities, cx_layer = layer,
      cx_route_mode = route_mode\<rparr>"

definition build_with_resolved_domains ::
  "('n, 'z) ipnet_api_scheme \<Rightarrow> (string \<Rightarrow> bool) \<Rightarrow> (string \<Rightarrow> string) \<Rightarrow> split_tunnel_policy \<Rightarrow>
   split_tunnel_selected_package list \<Rightarrow> tunnel_capabilities \<Rightarrow> layer \<Rightarrow> route_mode \<Rightarrow> string list \<Rightarrow>
   (split_tunnel_policy_error, effective_split_tunnel_policy) result" where
  "build_with_resolved_domains napi is_rfc3339 to_lowercase policy installed capabilities layer route_mode resolved =
     and_then (validate_split_tunnel_policy napi is_rfc3339 policy) (\<lambda>_.
       if \<not> split_tunnel_active (policy_context policy capabilities layer route_mode)
       then Ok \<lparr>ef_active = False, ef_options = default_tunnel_options, ef_suggested_packages = [],
                ef_unavailable_selected_packages = []\<rparr>
       else
         (let ix = new_index installed;
              mandatory = canonical_available_packages (sp_mandatory_excluded_packages policy) ix;
              selected = canonical_available_packages (sp_selected_packages policy) ix;
              cidrs = excluded_cidrs policy capabilities resolved in
          and_then (application_packages policy (installed_by_id installed) mandatory selected capabilities)
            (\<lambda>(mode, ids).
              if length cidrs > CORE_MAX_IPV4_CIDRS then Err CidrsLimit
              else
                (let options = effective_options policy capabilities mode ids cidrs in
                 and_then (map_err InvalidTunnelOptions (tunnel_options_validate options)) (\<lambda>_.
                   Ok \<lparr>ef_active = True, ef_options = options,
                       ef_suggested_packages =
                         suggested_packages to_lowercase installed (sp_suggested_name_fragments policy)
                           mandatory selected,
                       ef_unavailable_selected_packages =
                         filter (\<lambda>i. index_resolve ix i = None) (sp_selected_packages policy)\<rparr>)))))"

definition build ::
  "('n, 'z) ipnet_api_scheme \<Rightarrow> (string \<Rightarrow> bool) \<Rightarrow> (string \<Rightarrow> string) \<Rightarrow> split_tunnel_policy \<Rightarrow>
   split_tunnel_selected_package list \<Rightarrow> tunnel_capabilities \<Rightarrow> layer \<Rightarrow> route_mode \<Rightarrow>
   (split_tunnel_policy_error, effective_split_tunnel_policy) result" where
  "build napi is_rfc3339 to_lowercase policy installed capabilities layer route_mode =
     build_with_resolved_domains napi is_rfc3339 to_lowercase policy installed capabilities layer route_mode []"

section \<open>The addresses of the domains\<close>

record domain_resolution_outcome =
  do_ipv4_cidrs :: "string list"
  do_had_failures :: bool
  do_missing_cache :: bool

datatype domain_resolution_mode = Refresh | ResolveMissing | CachedOnly

text \<open>\<open>lookup_host\<close> gives the addresses of a domain, or nothing when it fails or takes longer than
  \<^verbatim>\<open>DNS_LOOKUP_TIMEOUT\<close>.\<close>

definition bounded_cidrs :: "string list \<Rightarrow> string list" where
  "bounded_cidrs cidrs = take MAX_IPV4_ADDRESSES_PER_DOMAIN (sort_dedup cidrs)"

definition nonempty :: "'a list \<Rightarrow> 'a list option" where
  "nonempty xs = (if xs = [] then None else Some xs)"

fun ip_cidr :: "ip_addr \<Rightarrow> string option" where
  "ip_cidr (V4 a) = Some (show_ipv4 a @ ''/32'')"
| "ip_cidr (V6 _) = None"

definition resolve_domain_ipv4 :: "(string \<Rightarrow> ip_addr list option) \<Rightarrow> string \<Rightarrow> string list option" where
  "resolve_domain_ipv4 lookup_host domain =
     Option.bind (lookup_host domain) (\<lambda>addresses. nonempty (bounded_cidrs (List.map_filter ip_cidr addresses)))"

definition policy_domains :: "split_tunnel_policy \<Rightarrow> string list" where
  "policy_domains policy =
     sort_dedup (map ar_value (filter (\<lambda>rule. ar_kind rule = RuleDomain) (sp_address_rules policy)))"

definition cached_resolutions ::
  "string list \<Rightarrow> stored_domain_resolution list \<Rightarrow> string \<Rightarrow> stored_domain_resolution option" where
  "cached_resolutions domains items =
     map_of (rev (map (\<lambda>item. (dr_domain item, item)) (filter (\<lambda>item. dr_domain item \<in> set domains) items)))"

definition domains_to_resolve ::
  "domain_resolution_mode \<Rightarrow> (string \<Rightarrow> stored_domain_resolution option) \<Rightarrow> string list \<Rightarrow> string list" where
  "domains_to_resolve mode cached domains =
     filter (\<lambda>d. mode \<noteq> CachedOnly \<and> (mode = Refresh \<or> cached d = None)) domains"

definition lookup_result :: "(string \<Rightarrow> string list option) \<Rightarrow> string \<Rightarrow> string list option" where
  "lookup_result resolver domain = Option.bind (resolver domain) (\<lambda>cidrs. nonempty (bounded_cidrs cidrs))"

fun take_results ::
  "(string \<Rightarrow> string list option) \<Rightarrow> int \<Rightarrow> string list \<Rightarrow>
   (string \<Rightarrow> stored_domain_resolution option) \<times> string list \<Rightarrow>
   (string \<Rightarrow> stored_domain_resolution option) \<times> string list" where
  "take_results resolver now_unix [] s = s"
| "take_results resolver now_unix (d # ds) (cached, successful) =
     take_results resolver now_unix ds
       (case lookup_result resolver d of
          None \<Rightarrow> (cached, successful)
        | Some cidrs \<Rightarrow>
            (cached(d := Some \<lparr>dr_domain = d, dr_ipv4_cidrs = cidrs, dr_resolved_at_unix = now_unix\<rparr>),
             d # successful))"

text \<open>\<open>arrivals\<close> gives, for the lookups that were started, the ones that end before the deadline of the
  batch, in the order in which \<^verbatim>\<open>buffer_unordered\<close> delivers them.\<close>

definition resolve_policy_domains_with ::
  "(string list \<Rightarrow> string list) \<Rightarrow> split_tunnel_policy \<Rightarrow> stored_split_tunnel_state \<Rightarrow> int \<Rightarrow>
   domain_resolution_mode \<Rightarrow> (string \<Rightarrow> string list option) \<Rightarrow>
   domain_resolution_outcome \<times> stored_split_tunnel_state" where
  "resolve_policy_domains_with arrivals policy st now_unix mode resolver =
     (let domains = policy_domains policy;
          cached = cached_resolutions domains (domain_resolutions st);
          to_resolve = domains_to_resolve mode cached domains in
      case take_results resolver now_unix (arrivals to_resolve) (cached, []) of
        (cached, successful) \<Rightarrow>
          (\<lparr>do_ipv4_cidrs = sort_dedup (concat (map dr_ipv4_cidrs (List.map_filter cached domains))),
            do_had_failures = list_ex (\<lambda>d. d \<notin> set successful) to_resolve,
            do_missing_cache = list_ex (\<lambda>d. cached d = None) domains\<rparr>,
           st\<lparr>domain_resolutions := sort_key dr_domain (List.map_filter cached domains)\<rparr>))"

definition resolve_policy_domains ::
  "(string list \<Rightarrow> string list) \<Rightarrow> (string \<Rightarrow> ip_addr list option) \<Rightarrow> split_tunnel_policy \<Rightarrow>
   stored_split_tunnel_state \<Rightarrow> int \<Rightarrow> domain_resolution_mode \<Rightarrow>
   domain_resolution_outcome \<times> stored_split_tunnel_state" where
  "resolve_policy_domains arrivals lookup_host policy st now_unix mode =
     resolve_policy_domains_with arrivals policy st now_unix mode (resolve_domain_ipv4 lookup_host)"

section \<open>Policies that failed\<close>

definition physical_network_tracking_active :: "tunnel_options \<Rightarrow> bool" where
  "physical_network_tracking_active options \<longleftrightarrow>
     to_policy_hash options \<noteq> None
     \<and> (to_exclude_local_networks options \<or> to_excluded_ipv4_cidrs options \<noteq> [])"

definition policy_retry_due :: "stored_split_tunnel_state \<Rightarrow> split_tunnel_policy \<Rightarrow> int \<Rightarrow> bool" where
  "policy_retry_due st policy now_unix \<longleftrightarrow>
     failed_policy_hash st \<noteq> Some (sp_policy_hash policy)
     \<or> (case failed_policy_retry_after_unix st of None \<Rightarrow> True | Some t \<Rightarrow> now_unix \<ge> t)"

definition mark_policy_failure ::
  "stored_split_tunnel_state \<Rightarrow> split_tunnel_policy \<Rightarrow> int \<Rightarrow> stored_split_tunnel_state" where
  "mark_policy_failure st policy now_unix =
     st\<lparr>failed_policy_hash := Some (sp_policy_hash policy),
        failed_policy_retry_after_unix := Some (i64_saturate (now_unix + FAILED_POLICY_RETRY_SECONDS))\<rparr>"

definition clear_policy_failure :: "stored_split_tunnel_state \<Rightarrow> stored_split_tunnel_state" where
  "clear_policy_failure st = st\<lparr>failed_policy_hash := None, failed_policy_retry_after_unix := None\<rparr>"

definition clear_stale_policy_failure ::
  "stored_split_tunnel_state \<Rightarrow> split_tunnel_policy \<Rightarrow> stored_split_tunnel_state" where
  "clear_stale_policy_failure st policy =
     (if failed_policy_hash st \<noteq> Some (sp_policy_hash policy) then clear_policy_failure st else st)"

definition remember_previous_working_policy :: "stored_split_tunnel_state \<Rightarrow> stored_split_tunnel_state" where
  "remember_previous_working_policy st =
     (case (cached_policy st, working_policy_hash st) of
        (Some policy, Some hash) \<Rightarrow>
          if sp_policy_hash policy = hash then st\<lparr>previous_working_policy := cached_policy st\<rparr> else st
      | _ \<Rightarrow> st)"

definition working_policy :: "stored_split_tunnel_state \<Rightarrow> split_tunnel_policy option" where
  "working_policy st =
     Option.bind (working_policy_hash st) (\<lambda>hash.
       find (\<lambda>policy. sp_policy_hash policy = hash)
         (List.map_filter id [cached_policy st, previous_working_policy st]))"

section \<open>Detector and failed policies\<close>

text \<open>A change of the network is confirmed exactly by a second observation of the same network after
  the retry time, or by the applied network after a probe failure that requires a reconnection.\<close>

lemma observe_confirms_iff:
  "fst (observe d fingerprint now_unix) = ConfirmedChange g \<longleftrightarrow>
     g = fingerprint \<and> dt_applied d \<noteq> None
     \<and> (if dt_candidate d = Some fingerprint
        then (\<forall>t. dt_retry_after_unix d = Some t \<longrightarrow> t \<le> now_unix)
        else dt_applied d = Some fingerprint \<and> dt_reconnect_after_probe_failure d)"
  by (auto simp: observe_def Let_def split: option.splits if_splits)

lemma deferred_until_retry:
  assumes "observe d fingerprint now_unix = (ConfirmedChange fingerprint, d')" and "snd (defer_retry d' t) = d''"
  shows "fst (observe d'' fingerprint now') =
    (if now' < i64_saturate (t + PHYSICAL_NETWORK_RETRY_SECONDS) then RetryDeferred else ConfirmedChange fingerprint)"
  using assms by (auto simp: observe_def defer_retry_def Let_def split: option.splits if_splits)

lemma failed_policy_retry:
  "policy_retry_due (mark_policy_failure st policy now_unix) policy now'
   \<longleftrightarrow> i64_saturate (now_unix + FAILED_POLICY_RETRY_SECONDS) \<le> now'"
  by (simp add: policy_retry_due_def mark_policy_failure_def)

text \<open>Replacing the cached policy keeps a working one that was remembered before.\<close>

lemma working_policy_survives:
  assumes "working_policy st = Some policy" and "st' = remember_previous_working_policy st"
  shows "\<exists>p. working_policy (st'\<lparr>cached_policy := q\<rparr>) = Some p \<and> sp_policy_hash p = sp_policy_hash policy"
  using assms
  by (auto simp: working_policy_def remember_previous_working_policy_def bind_eq_Some_conv
      split: option.splits if_splits)

section \<open>What a package identifier stands for\<close>

text \<open>The reference for the index: an identifier stands for the installed package of that name, or
  else for the only one whose name differs in case.\<close>

definition installed_name :: "split_tunnel_selected_package list \<Rightarrow> string \<Rightarrow> string option" where
  "installed_name installed pid =
     (if pid \<in> pk_package_id ` set installed then Some pid
      else
        (case filter (\<lambda>p. to_ascii_lowercase (pk_package_id p) = to_ascii_lowercase pid) installed of
           [p] \<Rightarrow> Some (pk_package_id p)
         | _ \<Rightarrow> None))"

lemma installed_by_id_Some: "installed_by_id installed pid = Some p \<Longrightarrow> p \<in> set installed \<and> pk_package_id p = pid"
  by (auto simp: installed_by_id_def dest!: map_of_SomeD)

lemma installed_by_id_None: "installed_by_id installed pid = None \<longleftrightarrow> pid \<notin> pk_package_id ` set installed"
  by (auto simp: installed_by_id_def map_of_eq_None_iff image_image)

lemma folded_index:
  "foldl add_folded (\<lambda>_. None) installed key =
     (case filter (\<lambda>p. to_ascii_lowercase (pk_package_id p) = key) installed of
        [] \<Rightarrow> None
      | [p] \<Rightarrow> Some (Some p)
      | _ \<Rightarrow> Some None)"
  by (induction installed rule: rev_induct) (auto simp: add_folded_def Let_def split: list.splits)

lemma index_resolve_name:
  "map_option pk_package_id (index_resolve (new_index installed) pid) = installed_name installed pid"
proof (cases "installed_by_id installed pid")
  case None
  moreover from this have "pid \<notin> pk_package_id ` set installed" by (simp add: installed_by_id_None)
  ultimately show ?thesis
    by (simp add: index_resolve_def new_index_def installed_name_def folded_index split: list.splits)
next
  case (Some p)
  then have "pid \<in> pk_package_id ` set installed" using installed_by_id_None by (metis option.distinct(1))
  then show ?thesis using Some installed_by_id_Some [OF Some]
    by (simp add: index_resolve_def new_index_def installed_name_def)
qed

lemma index_resolve_None: "index_resolve (new_index installed) pid = None \<longleftrightarrow> installed_name installed pid = None"
  using index_resolve_name [of installed pid] by (metis option.map_disc_iff)

lemma installed_name_installed: "installed_name installed pid = Some n \<Longrightarrow> n \<in> pk_package_id ` set installed"
  by (auto simp: installed_name_def dest!: filter_eq_ConsD split: if_splits list.splits)

definition names_of :: "split_tunnel_selected_package list \<Rightarrow> string list \<Rightarrow> string set" where
  "names_of installed ids = {n. \<exists>i \<in> set ids. installed_name installed i = Some n}"

lemma set_canonical: "set (canonical_available_packages ids (new_index installed)) = names_of installed ids"
proof -
  have "n \<in> set (canonical_available_packages ids (new_index installed))
    \<longleftrightarrow> (\<exists>i \<in> set ids. map_option pk_package_id (index_resolve (new_index installed) i) = Some n)" for n
    by (auto simp: canonical_available_packages_def map_filter_def image_iff Bex_def)
  then show ?thesis by (auto simp: names_of_def index_resolve_name)
qed

lemma names_of_installed: "names_of installed ids \<subseteq> pk_package_id ` set installed"
  by (auto simp: names_of_def dest: installed_name_installed)

lemma card_names_of: "card (names_of installed ids) \<le> card (set ids)"
proof -
  have "names_of installed ids \<subseteq> (the \<circ> installed_name installed) ` set ids"
    by (force simp: names_of_def)
  then have "card (names_of installed ids) \<le> card ((the \<circ> installed_name installed) ` set ids)"
    by (intro card_mono) auto
  also have "\<dots> \<le> card (set ids)" by (rule card_image_le) simp
  finally show ?thesis .
qed

lemma names_of_append: "names_of installed (xs @ ys) = names_of installed xs \<union> names_of installed ys"
  by (auto simp: names_of_def)

lemma insert_seen_set: "set (insert_seen seen xs) = set xs - set seen"
  by (induction seen xs rule: insert_seen.induct) auto

lemma insert_seen_distinct: "distinct (insert_seen seen xs)"
  by (induction seen xs rule: insert_seen.induct) (auto simp: insert_seen_set)

lemma ordered_available_packages_set:
  assumes "set ids \<subseteq> pk_package_id ` set installed"
  shows "set (ordered_available_packages ids (installed_by_id installed) excluded) = set ids - set excluded"
  using assms by (auto simp: ordered_available_packages_def insert_seen_set installed_by_id_None)

lemma ordered_available_packages_distinct: "distinct (ordered_available_packages ids by_id excluded)"
  by (simp add: ordered_available_packages_def insert_seen_distinct)

lemma sort_dedup_set [simp]: "set (sort_dedup xs) = set xs"
  by (simp add: sort_dedup_def)

lemma sort_dedup_strict: "sorted_wrt (<) (sort_dedup xs)"
proof -
  have "distinct (remdups_adj ys)" if "sorted ys" for ys :: "string list"
    using that by (induction ys rule: remdups_adj.induct) (auto simp: antisym)
  then show ?thesis by (simp add: sort_dedup_def strict_sorted_iff)
qed

section \<open>The effective policy\<close>

lemma validated_rules:
  assumes "validate_split_tunnel_policy napi is_rfc3339 policy = Ok ()"
  shows "list_all valid_address_rule (sp_address_rules policy)"
  using assms by (auto simp: validate_split_tunnel_policy_def list_all_iff list_ex_iff split: if_splits)

lemma rule_cidr_valid:
  "valid_address_rule rule \<Longrightarrow>
   rule_cidr rule = (if ar_kind rule = RuleIpv4 then Some (ar_value rule @ ''/32'') else None)"
proof (cases "ar_kind rule")
  case RuleIpv4
  moreover assume "valid_address_rule rule"
  ultimately obtain a where "parse_ipv4 (ar_value rule) = Some a" by (auto simp: valid_address_rule_def)
  then show ?thesis using RuleIpv4 parse_ipv4_Some [of "ar_value rule" a] by (simp add: rule_cidr_def)
qed (simp add: rule_cidr_def)

definition wanted_cidrs :: "split_tunnel_policy \<Rightarrow> string list \<Rightarrow> string set" where
  "wanted_cidrs policy resolved =
     set (sp_excluded_ipv4_cidrs policy)
     \<union> (\<lambda>rule. ar_value rule @ ''/32'') ` set (filter (\<lambda>rule. ar_kind rule = RuleIpv4) (sp_address_rules policy))
     \<union> set resolved"

lemma excluded_cidrs_set:
  assumes "validate_split_tunnel_policy napi is_rfc3339 policy = Ok ()" and "cap_address_split_tunnel capabilities"
  shows "set (excluded_cidrs policy capabilities resolved) = wanted_cidrs policy resolved"
proof -
  have "rule_cidr rule = (if ar_kind rule = RuleIpv4 then Some (ar_value rule @ ''/32'') else None)"
    if "rule \<in> set (sp_address_rules policy)" for rule
    using validated_rules [OF assms(1)] that by (simp add: list_all_iff rule_cidr_valid)
  then have "set (List.map_filter rule_cidr (sp_address_rules policy))
    = {ar_value rule @ ''/32'' |rule. rule \<in> set (sp_address_rules policy) \<and> ar_kind rule = RuleIpv4}"
    by (auto simp: map_filter_def image_iff split: if_splits)
  then show ?thesis using assms(2) by (auto simp: excluded_cidrs_def wanted_cidrs_def)
qed

lemma excluded_cidrs_strict: "sorted_wrt (<) (excluded_cidrs policy capabilities resolved)"
  by (simp add: excluded_cidrs_def sort_dedup_strict)

text \<open>The packages a policy names on a device, by its mode.\<close>

definition wanted_packages :: "split_tunnel_selected_package list \<Rightarrow> split_tunnel_policy \<Rightarrow> string set" where
  "wanted_packages installed policy =
     (let mandatory = names_of installed (sp_mandatory_excluded_packages policy);
          selected = names_of installed (sp_selected_packages policy) in
      case sp_mode policy of
        ExcludeSelected \<Rightarrow> mandatory \<union> selected
      | IncludeSelected \<Rightarrow> selected - mandatory)"

abbreviation "policy_packages installed policy capabilities \<equiv>
  application_packages policy (installed_by_id installed)
    (canonical_available_packages (sp_mandatory_excluded_packages policy) (new_index installed))
    (canonical_available_packages (sp_selected_packages policy) (new_index installed)) capabilities"

lemma application_packages_Ok:
  assumes "policy_packages installed policy capabilities = Ok (mode, ids)"
  shows "distinct ids
    \<and> (if cap_application_split_tunnel capabilities
       then mode = Some (sp_mode policy) \<and> set ids = wanted_packages installed policy
         \<and> (sp_mode policy = IncludeSelected \<longrightarrow> ids \<noteq> [])
       else mode = None \<and> ids = [])"
  using assms names_of_installed
  by (auto simp: application_packages_def wanted_packages_def Let_def set_canonical
      ordered_available_packages_set ordered_available_packages_distinct
      split: if_splits split_tunnel_mode.splits)

lemma application_packages_progress:
  assumes "cap_application_split_tunnel capabilities \<and> sp_mode policy = IncludeSelected \<longrightarrow>
    wanted_packages installed policy \<noteq> {}"
  shows "\<exists>mode ids. policy_packages installed policy capabilities = Ok (mode, ids)"
proof -
  have "ordered_available_packages selected (installed_by_id installed) mandatory \<noteq> []"
    if "set selected = names_of installed (sp_selected_packages policy)"
      "set mandatory = names_of installed (sp_mandatory_excluded_packages policy)"
      "sp_mode policy = IncludeSelected" "cap_application_split_tunnel capabilities" for selected mandatory
  proof -
    have "set (ordered_available_packages selected (installed_by_id installed) mandatory)
      = wanted_packages installed policy"
      using that names_of_installed by (simp add: ordered_available_packages_set wanted_packages_def Let_def)
    then show ?thesis using assms that by auto
  qed
  then show ?thesis
    by (auto simp: application_packages_def Let_def set_canonical split: split_tunnel_mode.splits)
qed

lemma wanted_packages_bound:
  assumes "validate_split_tunnel_policy napi is_rfc3339 policy = Ok ()"
  shows "card (wanted_packages installed policy) \<le> MAX_PACKAGE_IDS"
proof (cases "sp_mode policy")
  case ExcludeSelected
  have "card (set (sp_mandatory_excluded_packages policy @ sp_selected_packages policy)) \<le> 512"
    using assms ExcludeSelected
    by (auto simp: validate_split_tunnel_policy_def MAX_SELECTED_PACKAGES_def split: if_splits)
  then show ?thesis
    using card_names_of [of installed "sp_mandatory_excluded_packages policy @ sp_selected_packages policy"] ExcludeSelected
    by (simp add: wanted_packages_def names_of_append MAX_PACKAGE_IDS_def)
next
  case IncludeSelected
  have "card (set (sp_selected_packages policy)) \<le> 512"
    using assms card_length [of "sp_selected_packages policy"]
    by (auto simp: validate_split_tunnel_policy_def MAX_SELECTED_PACKAGES_def split: if_splits)
  moreover have "card (wanted_packages installed policy) \<le> card (names_of installed (sp_selected_packages policy))"
    using IncludeSelected finite_subset [OF names_of_installed]
    by (auto simp: wanted_packages_def Let_def intro!: card_mono)
  ultimately show ?thesis using card_names_of [of installed "sp_selected_packages policy"]
    by (simp add: MAX_PACKAGE_IDS_def)
qed

lemma build_Ok:
  assumes "build_with_resolved_domains napi is_rfc3339 to_lowercase policy installed capabilities layer route_mode resolved = Ok e"
  shows "validate_split_tunnel_policy napi is_rfc3339 policy = Ok ()
    \<and> ef_active e = split_tunnel_active (policy_context policy capabilities layer route_mode)
    \<and> (\<not> ef_active e \<longrightarrow> ef_options e = default_tunnel_options)
    \<and> (ef_active e \<longrightarrow> (\<exists>mode ids. policy_packages installed policy capabilities = Ok (mode, ids)
        \<and> ef_options e = effective_options policy capabilities mode ids (excluded_cidrs policy capabilities resolved)
        \<and> tunnel_options_validate (ef_options e) = Ok ()
        \<and> ef_unavailable_selected_packages e
          = filter (\<lambda>i. index_resolve (new_index installed) i = None) (sp_selected_packages policy)))"
  using assms by (auto simp: build_with_resolved_domains_def Let_def split: if_splits)

lemma build_progress:
  assumes valid: "validate_split_tunnel_policy napi is_rfc3339 policy = Ok ()"
    and installed: "\<forall>p \<in> set installed. valid_package_id (pk_package_id p)"
    and cidrs: "\<forall>c \<in> wanted_cidrs policy resolved. valid_ipv4_cidr c"
    and limit: "card (wanted_cidrs policy resolved) \<le> 16384"
    and nonempty: "cap_application_split_tunnel capabilities \<and> sp_mode policy = IncludeSelected \<longrightarrow>
      wanted_packages installed policy \<noteq> {}"
  shows "is_ok (build_with_resolved_domains napi is_rfc3339 to_lowercase policy installed capabilities layer route_mode resolved)"
proof -
  let ?cidrs = "excluded_cidrs policy capabilities resolved"
  obtain mode ids where p: "policy_packages installed policy capabilities = Ok (mode, ids)"
    using application_packages_progress [OF nonempty] by blast
  note ids = application_packages_Ok [OF p]
  have sub: "set ids \<subseteq> pk_package_id ` set installed"
    using ids names_of_installed [of installed]
    by (auto simp: wanted_packages_def Let_def split: if_splits split_tunnel_mode.splits)
  have l: "length ids \<le> MAX_PACKAGE_IDS"
    using ids wanted_packages_bound [OF valid, of installed] distinct_card [of ids] by (auto split: if_splits)
  have c: "set ?cidrs \<subseteq> wanted_cidrs policy resolved"
    using excluded_cidrs_set [OF valid] by (cases "cap_address_split_tunnel capabilities") (auto simp: excluded_cidrs_def)
  have "finite (wanted_cidrs policy resolved)" by (auto simp: wanted_cidrs_def)
  then have n: "length ?cidrs \<le> 16384"
    using card_mono [OF _ c] limit excluded_cidrs_strict [of policy capabilities resolved]
    by (simp add: strict_sorted_iff distinct_card)
  have "tunnel_options_validate (effective_options policy capabilities mode ids ?cidrs) = Ok ()"
    using ids l n sub installed c cidrs
    by (auto simp: tunnel_options_validate_def effective_options_def MAX_IPV4_CIDRS_def list_ex_iff distinct_card
        split: if_splits)
  then show ?thesis using p valid n
    by (simp add: build_with_resolved_domains_def Let_def is_ok_def CORE_MAX_IPV4_CIDRS_def)
qed

lemma build_sound:
  assumes b: "build_with_resolved_domains napi is_rfc3339 to_lowercase policy installed capabilities layer route_mode resolved = Ok e"
  shows "validate_split_tunnel_policy napi is_rfc3339 policy = Ok ()
       \<and> ef_active e = split_tunnel_active (policy_context policy capabilities layer route_mode)
       \<and> (\<not> ef_active e \<longrightarrow> ef_options e = default_tunnel_options)
       \<and> (ef_active e \<longrightarrow>
           tunnel_options_validate (ef_options e) = Ok ()
           \<and> to_policy_hash (ef_options e) = Some (sp_policy_hash policy)
           \<and> distinct (package_ids (ef_options e))
           \<and> (if cap_application_split_tunnel capabilities
               then application_mode (ef_options e) = Some (sp_mode policy)
                 \<and> set (package_ids (ef_options e)) = wanted_packages installed policy
                 \<and> (sp_mode policy = IncludeSelected \<longrightarrow> package_ids (ef_options e) \<noteq> [])
               else application_mode (ef_options e) = None \<and> package_ids (ef_options e) = [])
           \<and> sorted_wrt (<) (to_excluded_ipv4_cidrs (ef_options e))
           \<and> set (to_excluded_ipv4_cidrs (ef_options e))
             = (if cap_address_split_tunnel capabilities then wanted_cidrs policy resolved else {})
           \<and> ef_unavailable_selected_packages e
             = filter (\<lambda>i. installed_name installed i = None) (sp_selected_packages policy))"
proof (cases "ef_active e")
  case False
  then show ?thesis using build_Ok [OF b] by simp
next
  case True
  with build_Ok [OF b] obtain mode ids where p: "policy_packages installed policy capabilities = Ok (mode, ids)"
    and o: "ef_options e = effective_options policy capabilities mode ids (excluded_cidrs policy capabilities resolved)"
    and v: "validate_split_tunnel_policy napi is_rfc3339 policy = Ok ()"
    by blast
  show ?thesis
    using build_Ok [OF b] True o application_packages_Ok [OF p] excluded_cidrs_set [OF v, of capabilities resolved]
      excluded_cidrs_strict [of policy capabilities resolved]
    by (auto simp: effective_options_def index_resolve_None excluded_cidrs_def)
qed

text \<open>C39: The options a device gets are what the policy says.  If the effective policy is built, the
  policy was valid, and it is active exactly in the contexts in which split tunnelling applies; if it
  is not active, the options are the default ones.  If it is active, the options pass their own
  validation and carry the hash of the policy; on a device that can split by application, they list,
  once each, exactly the installed packages the policy stands for: the mandatory and the selected
  ones of an excluding policy, the selected ones without the mandatory ones, at least one, of an
  including policy; and on a device that can split by address they list, sorted and once each, the
  networks of the policy, its addresses, and the resolved addresses of its domains.  An identifier
  stands for the package of that name, or for the only one that differs in case.  Conversely, a valid
  policy on a device with valid package names, valid networks within the limit and a package to
  include, if one is needed, is always built.\<close>

theorem effective_policy_exact:
  "(\<forall>e. build_with_resolved_domains napi is_rfc3339 to_lowercase policy installed capabilities layer
         route_mode resolved = Ok e \<longrightarrow>
       validate_split_tunnel_policy napi is_rfc3339 policy = Ok ()
       \<and> ef_active e = split_tunnel_active (policy_context policy capabilities layer route_mode)
       \<and> (\<not> ef_active e \<longrightarrow> ef_options e = default_tunnel_options)
       \<and> (ef_active e \<longrightarrow>
           tunnel_options_validate (ef_options e) = Ok ()
           \<and> to_policy_hash (ef_options e) = Some (sp_policy_hash policy)
           \<and> distinct (package_ids (ef_options e))
           \<and> (if cap_application_split_tunnel capabilities
               then application_mode (ef_options e) = Some (sp_mode policy)
                 \<and> set (package_ids (ef_options e)) = wanted_packages installed policy
                 \<and> (sp_mode policy = IncludeSelected \<longrightarrow> package_ids (ef_options e) \<noteq> [])
               else application_mode (ef_options e) = None \<and> package_ids (ef_options e) = [])
           \<and> sorted_wrt (<) (to_excluded_ipv4_cidrs (ef_options e))
           \<and> set (to_excluded_ipv4_cidrs (ef_options e))
             = (if cap_address_split_tunnel capabilities then wanted_cidrs policy resolved else {})
           \<and> ef_unavailable_selected_packages e
             = filter (\<lambda>i. installed_name installed i = None) (sp_selected_packages policy)))
    \<and> (validate_split_tunnel_policy napi is_rfc3339 policy = Ok ()
       \<and> (\<forall>p \<in> set installed. valid_package_id (pk_package_id p))
       \<and> (\<forall>c \<in> wanted_cidrs policy resolved. valid_ipv4_cidr c)
       \<and> card (wanted_cidrs policy resolved) \<le> 16384
       \<and> (cap_application_split_tunnel capabilities \<and> sp_mode policy = IncludeSelected \<longrightarrow>
           wanted_packages installed policy \<noteq> {}) \<longrightarrow>
       is_ok (build_with_resolved_domains napi is_rfc3339 to_lowercase policy installed capabilities layer
         route_mode resolved))"
  by (rule conjI, intro allI impI, erule build_sound, rule impI, elim conjE, rule build_progress)

definition sample_policy :: split_tunnel_policy where
  "sample_policy =
     \<lparr>sp_format_version = 2, sp_enabled = True, sp_revision = 4, sp_force_revision = 0, sp_address_revision = 1,
      sp_policy_hash = ''h'', sp_mode = IncludeSelected, sp_exclude_local_networks = False,
      sp_mandatory_excluded_packages = [''a.bank''], sp_suggested_name_fragments = [],
      sp_selected_packages = [''a.bank'', ''a.maps''], sp_excluded_ipv4_cidrs = [''10.0.0.0/8''],
      sp_address_rules = [\<lparr>ar_id = 1, ar_scope = AllDevices, ar_kind = RuleIpv4, ar_value = ''1.2.3.4''\<rparr>,
        \<lparr>ar_id = 2, ar_scope = ThisDevice, ar_kind = RuleDomain, ar_value = ''a.b''\<rparr>],
      sp_generated_at = ''t''\<rparr>"

definition sample_packages :: "split_tunnel_selected_package list" where
  "sample_packages =
     [\<lparr>pk_package_id = ''a.bank'', pk_display_name = ''Bank''\<rparr>,
      \<lparr>pk_package_id = ''a.Maps'', pk_display_name = ''Maps''\<rparr>]"

definition sample_android :: tunnel_capabilities where
  "sample_android =
     \<lparr>cap_platform = PlatformAndroid, cap_android_api_level = Some 34, cap_address_split_tunnel = True,
      cap_application_split_tunnel = True\<rparr>"

definition text_net_api :: "string ipnet_api" where
  "text_net_api =
     \<lparr>net_parse = Some, net_addr = (\<lambda>_. Ipv4Addr 0 0 0 0), net_network = (\<lambda>_. Ipv4Addr 0 0 0 0), net_to_string = id, net_aggregate = id\<rparr>"

lemma sample_policy_valid: "validate_split_tunnel_policy text_net_api (\<lambda>_. True) sample_policy = Ok ()"
proof -
  have "list_all valid_address_rule (sp_address_rules sample_policy)"
    "list_all valid_package_id [''a.bank'', ''a.maps'']" by code_simp+
  then show ?thesis
    by (simp add: validate_split_tunnel_policy_def validate_packages_def sample_policy_def text_net_api_def
        LEGACY_FORMAT_VERSION_def ADDRESS_RULE_FORMAT_VERSION_def MAX_ADDRESS_RULES_def
        MAX_MANDATORY_PACKAGES_def MAX_SUGGESTIONS_def MAX_SELECTED_PACKAGES_def CORE_MAX_IPV4_CIDRS_def
        MAX_PACKAGE_IDS_def MAX_IPV4_CIDRS_def MAX_POLICY_HASH_LENGTH_def default_tunnel_options_def
        policy_validate_timestamps_def validate_rfc3339_def ensure_def tunnel_options_validate_def
        desktop_options_validate_def str_is_ascii_def)
qed

lemma sample_wanted_packages: "wanted_packages sample_packages sample_policy = {''a.Maps''}"
proof -
  have "installed_name sample_packages ''a.bank'' = Some ''a.bank''"
    "installed_name sample_packages ''a.maps'' = Some ''a.Maps''" by code_simp+
  then show ?thesis by (auto simp: wanted_packages_def names_of_def sample_policy_def)
qed

lemma sample_wanted_cidrs: "wanted_cidrs sample_policy [] = {''10.0.0.0/8'', ''1.2.3.4/32''}"
  by (auto simp: wanted_cidrs_def sample_policy_def)

theorem effective_policy_exact_witness:
  "\<exists>e. build_with_resolved_domains text_net_api (\<lambda>_. True) id sample_policy sample_packages sample_android
        Tic ViaTak [] = Ok e
     \<and> ef_active e \<and> set (package_ids (ef_options e)) = {''a.Maps''}
     \<and> set (to_excluded_ipv4_cidrs (ef_options e)) = {''10.0.0.0/8'', ''1.2.3.4/32''}"
proof -
  have v: "\<forall>p \<in> set sample_packages. valid_package_id (pk_package_id p)"
    "\<forall>c \<in> wanted_cidrs sample_policy []. valid_ipv4_cidr c"
    unfolding sample_wanted_cidrs by code_simp+
  have c: "card (wanted_cidrs sample_policy []) \<le> 16384" by (simp add: sample_wanted_cidrs)
  have a: "split_tunnel_active (policy_context sample_policy sample_android Tic ViaTak)" by code_simp
  have t: "cap_application_split_tunnel sample_android" "cap_address_split_tunnel sample_android"
    by (simp_all add: sample_android_def)
  note exact = effective_policy_exact [of text_net_api "\<lambda>_. True" id sample_policy sample_packages sample_android
      Tic ViaTak "[]"]
  obtain e where e: "build_with_resolved_domains text_net_api (\<lambda>_. True) id sample_policy sample_packages
      sample_android Tic ViaTak [] = Ok e"
    using exact [THEN conjunct2] v c sample_policy_valid sample_wanted_packages by (auto simp: is_ok_def split: sum.splits)
  with exact [THEN conjunct1] a t show ?thesis by (auto simp: sample_wanted_packages sample_wanted_cidrs)
qed

section \<open>The addresses of the domains\<close>

text \<open>The reference for the resolution: the last stored addresses of a domain, and what a pass makes
  of them.  A lookup that ended in time with addresses replaces them.\<close>

definition last_resolution :: "stored_split_tunnel_state \<Rightarrow> string \<Rightarrow> stored_domain_resolution option" where
  "last_resolution st d = find (\<lambda>item. dr_domain item = d) (rev (domain_resolutions st))"

definition asked_domains ::
  "split_tunnel_policy \<Rightarrow> stored_split_tunnel_state \<Rightarrow> domain_resolution_mode \<Rightarrow> string list" where
  "asked_domains policy st mode = domains_to_resolve mode (last_resolution st) (policy_domains policy)"

definition answered ::
  "(string list \<Rightarrow> string list) \<Rightarrow> split_tunnel_policy \<Rightarrow> stored_split_tunnel_state \<Rightarrow> domain_resolution_mode \<Rightarrow>
   (string \<Rightarrow> string list option) \<Rightarrow> string \<Rightarrow> string list option" where
  "answered arrivals policy st mode resolver d =
     (if d \<in> set (arrivals (asked_domains policy st mode)) then lookup_result resolver d else None)"

definition resolution_after ::
  "(string list \<Rightarrow> string list) \<Rightarrow> split_tunnel_policy \<Rightarrow> stored_split_tunnel_state \<Rightarrow> int \<Rightarrow>
   domain_resolution_mode \<Rightarrow> (string \<Rightarrow> string list option) \<Rightarrow> string \<Rightarrow> stored_domain_resolution option" where
  "resolution_after arrivals policy st now_unix mode resolver d =
     (case answered arrivals policy st mode resolver d of
        Some cidrs \<Rightarrow> Some \<lparr>dr_domain = d, dr_ipv4_cidrs = cidrs, dr_resolved_at_unix = now_unix\<rparr>
      | None \<Rightarrow> last_resolution st d)"

lemma map_of_key_find:
  "P d \<Longrightarrow> map_of (map (\<lambda>item. (f item, item)) (filter (\<lambda>item. P (f item)) xs)) d = find (\<lambda>item. f item = d) xs"
  by (induction xs) auto

lemma cached_resolutions_last:
  "d \<in> set domains \<Longrightarrow> cached_resolutions domains (domain_resolutions st) d = last_resolution st d"
  unfolding cached_resolutions_def last_resolution_def rev_map rev_filter
  by (rule map_of_key_find)

lemma take_results_effect:
  "take_results resolver now_unix ds (cached, successful) = (cached', successful') \<Longrightarrow>
   cached' d = (case (if d \<in> set ds then lookup_result resolver d else None) of
       Some cidrs \<Rightarrow> Some \<lparr>dr_domain = d, dr_ipv4_cidrs = cidrs, dr_resolved_at_unix = now_unix\<rparr>
     | None \<Rightarrow> cached d)
   \<and> set successful' = set successful \<union> {d \<in> set ds. lookup_result resolver d \<noteq> None}"
  by (induction ds arbitrary: cached successful) (auto split: option.splits if_splits)

lemma domains_to_resolve_cong:
  "(\<And>d. d \<in> set domains \<Longrightarrow> f d = g d) \<Longrightarrow> domains_to_resolve mode f domains = domains_to_resolve mode g domains"
  by (auto simp: domains_to_resolve_def intro!: filter_cong)

lemma map_filter_cong: "(\<And>x. x \<in> set xs \<Longrightarrow> f x = g x) \<Longrightarrow> List.map_filter f xs = List.map_filter g xs"
  by (induction xs) (simp_all split: option.split)

lemma resolution_domain:
  "resolution_after arrivals policy st now_unix mode resolver d = Some r \<Longrightarrow> dr_domain r = d"
  by (auto simp: resolution_after_def last_resolution_def find_Some_iff split: option.splits)

text \<open>A pass in terms of the reference.\<close>

lemma resolve_policy_domains_unfold:
  "resolve_policy_domains_with arrivals policy st now_unix mode resolver =
     (let entries = List.map_filter (resolution_after arrivals policy st now_unix mode resolver) (policy_domains policy) in
      (\<lparr>do_ipv4_cidrs = sort_dedup (concat (map dr_ipv4_cidrs entries)),
        do_had_failures = list_ex (\<lambda>d. answered arrivals policy st mode resolver d = None) (asked_domains policy st mode),
        do_missing_cache = list_ex (\<lambda>d. resolution_after arrivals policy st now_unix mode resolver d = None) (policy_domains policy)\<rparr>,
       st\<lparr>domain_resolutions := sort_key dr_domain entries\<rparr>))"
proof -
  let ?domains = "policy_domains policy"
  let ?cached = "cached_resolutions ?domains (domain_resolutions st)"
  have asked: "domains_to_resolve mode ?cached ?domains = asked_domains policy st mode"
    unfolding asked_domains_def by (rule domains_to_resolve_cong) (rule cached_resolutions_last)
  obtain c s where t: "take_results resolver now_unix (arrivals (asked_domains policy st mode)) (?cached, []) = (c, s)"
    by force
  have c: "c d = resolution_after arrivals policy st now_unix mode resolver d" if "d \<in> set ?domains" for d
    using take_results_effect [OF t, of d] cached_resolutions_last [OF that, of st]
    by (simp add: resolution_after_def answered_def split: option.split)
  have s: "d \<notin> set s \<longleftrightarrow> answered arrivals policy st mode resolver d = None" for d
    using take_results_effect [OF t] by (simp add: answered_def)
  have e: "List.map_filter c ?domains
    = List.map_filter (resolution_after arrivals policy st now_unix mode resolver) ?domains"
    by (rule map_filter_cong) (rule c)
  have m: "list_ex (\<lambda>d. c d = None) ?domains
    = list_ex (\<lambda>d. resolution_after arrivals policy st now_unix mode resolver d = None) ?domains"
    using c by (auto simp: list_ex_iff)
  show ?thesis by (simp add: resolve_policy_domains_with_def Let_def asked t e m s)
qed

lemma map_filter_resolutions:
  "map dr_domain (List.map_filter (resolution_after arrivals policy st now_unix mode resolver) ds)
   = filter (\<lambda>d. resolution_after arrivals policy st now_unix mode resolver d \<noteq> None) ds"
  by (induction ds) (auto simp: dest: resolution_domain)

text \<open>C40: Resolving the domains of a policy never loses addresses.  Whatever lookups end before the
  deadline, in whatever order, each domain that an address rule names gets the addresses of its lookup
  if that ended in time with some, at most 64 of them, and otherwise keeps the last ones that are
  stored; the addresses of the outcome are exactly those of all domains.  The stored entries are
  exactly these, one per domain and sorted, entries of other domains are gone, and nothing else of the
  state changes.  A failure is reported exactly when a domain that was asked for did not get an answer,
  and a missing entry exactly when some domain has none.  Only \<^verbatim>\<open>Refresh\<close> asks for a domain that has an
  entry, and \<^verbatim>\<open>CachedOnly\<close> asks for none.\<close>

theorem resolution_keeps_last_addresses:
  assumes "resolve_policy_domains_with arrivals policy st now_unix mode resolver = (outcome, st')"
    and "after = resolution_after arrivals policy st now_unix mode resolver"
  shows "set (policy_domains policy) = ar_value ` {rule \<in> set (sp_address_rules policy). ar_kind rule = RuleDomain}
    \<and> (\<forall>d cidrs. answered arrivals policy st mode resolver d = Some cidrs \<longrightarrow> cidrs \<noteq> [] \<and> length cidrs \<le> 64)
    \<and> set (do_ipv4_cidrs outcome) = (\<Union>d \<in> set (policy_domains policy). \<Union>r \<in> set_option (after d). set (dr_ipv4_cidrs r))
    \<and> set (domain_resolutions st') = (\<Union>d \<in> set (policy_domains policy). set_option (after d))
    \<and> sorted_wrt (<) (map dr_domain (domain_resolutions st'))
    \<and> st' = st\<lparr>domain_resolutions := domain_resolutions st'\<rparr>
    \<and> (do_had_failures outcome \<longleftrightarrow>
         (\<exists>d \<in> set (asked_domains policy st mode). answered arrivals policy st mode resolver d = None))
    \<and> (do_missing_cache outcome \<longleftrightarrow> (\<exists>d \<in> set (policy_domains policy). after d = None))
    \<and> set (asked_domains policy st mode)
      = (case mode of
           Refresh \<Rightarrow> set (policy_domains policy)
         | ResolveMissing \<Rightarrow> {d \<in> set (policy_domains policy). last_resolution st d = None}
         | CachedOnly \<Rightarrow> {})"
proof -
  let ?entries = "List.map_filter after (policy_domains policy)"
  have o: "outcome = \<lparr>do_ipv4_cidrs = sort_dedup (concat (map dr_ipv4_cidrs ?entries)),
      do_had_failures = list_ex (\<lambda>d. answered arrivals policy st mode resolver d = None) (asked_domains policy st mode),
      do_missing_cache = list_ex (\<lambda>d. after d = None) (policy_domains policy)\<rparr>"
    and st': "st' = st\<lparr>domain_resolutions := sort_key dr_domain ?entries\<rparr>"
    using assms by (simp_all add: resolve_policy_domains_unfold Let_def)
  have "sorted_wrt (<) (map dr_domain ?entries)"
    unfolding assms(2) map_filter_resolutions
    by (rule sorted_wrt_filter) (simp add: policy_domains_def sort_dedup_strict)
  then have srt: "sorted_wrt (<) (map dr_domain (sort_key dr_domain ?entries))"
    by (simp add: sort_key_id strict_sorted)
  have set_e: "set ?entries = (\<Union>d \<in> set (policy_domains policy). set_option (after d))"
    by (force simp: map_filter_def)
  show ?thesis
    unfolding o st'
    using srt set_e
    by (auto simp: policy_domains_def list_ex_iff assms(2) resolution_after_def answered_def lookup_result_def
        nonempty_def bounded_cidrs_def MAX_IPV4_ADDRESSES_PER_DOMAIN_def asked_domains_def domains_to_resolve_def
        bind_eq_Some_conv split: option.splits domain_resolution_mode.splits if_splits)
qed

theorem resolution_keeps_last_addresses_witness:
  "case resolve_policy_domains_with rev sample_policy
     (sample_split_state\<lparr>domain_resolutions :=
        [\<lparr>dr_domain = ''a.b'', dr_ipv4_cidrs = [''9.9.9.9/32''], dr_resolved_at_unix = 1\<rparr>]\<rparr>) 7 Refresh (\<lambda>_. None) of
     (outcome, st') \<Rightarrow> do_had_failures outcome \<and> \<not> do_missing_cache outcome
       \<and> set (do_ipv4_cidrs outcome) = {''9.9.9.9/32''}"
proof -
  let ?st = "sample_split_state\<lparr>domain_resolutions :=
    [\<lparr>dr_domain = ''a.b'', dr_ipv4_cidrs = [''9.9.9.9/32''], dr_resolved_at_unix = 1\<rparr>]\<rparr>"
  have d: "policy_domains sample_policy = [''a.b'']"
    and x: "list_ex (\<lambda>rule. ar_kind rule = RuleDomain) (sp_address_rules sample_policy)" by code_simp+
  have l: "last_resolution ?st ''a.b'' = Some \<lparr>dr_domain = ''a.b'', dr_ipv4_cidrs = [''9.9.9.9/32''], dr_resolved_at_unix = 1\<rparr>"
    by (simp add: last_resolution_def)
  have n: "answered rev sample_policy ?st Refresh (\<lambda>_. None) x = None" for x
    by (simp add: answered_def lookup_result_def)
  obtain outcome st' where r: "resolve_policy_domains_with rev sample_policy ?st 7 Refresh (\<lambda>_. None) = (outcome, st')"
    by force
  from resolution_keeps_last_addresses [OF r refl] show ?thesis
    using x by (simp add: r d l n resolution_after_def list_ex_iff Bex_def)
qed

end
