(* ===== verification/Spec2Isabelle.thy ===== *)
theory Spec2Isabelle
  imports ConnectionIntent LinuxRoutes ProcessDispatcher SplitTunnel
begin

text \<open>
  Verification of the Nelomai VPN client (\<^verbatim>\<open>nelomai-app\<close>).

  \<^bold>\<open>The program.\<close>  The client has an unprivileged side and a privileged one.  On the unprivileged
  side \<^verbatim>\<open>client-core\<close> keeps the user's connection intent, asks the panel for a lease and hands a
  WireGuard or AmneziaWG configuration to a \<^verbatim>\<open>TunnelController\<close> of \<^verbatim>\<open>client-tunnel\<close>.  On the privileged
  side the dispatcher of \<^verbatim>\<open>contracts\<close> verifies the installed release, launches the engine of the
  selected slot and relays length-prefixed frames to it; the engine, \<^verbatim>\<open>unix-service\<close>, parses the
  configuration, starts its backend and owns the routes it adds.  Releases are described by signed
  manifests, and an installation transaction moves the active pointer between them.

  \<^bold>\<open>Theories and sources.\<close>  Paths are relative to \<^verbatim>\<open>src/crates\<close>.

  \<^item> \<^verbatim>\<open>Prelude\<close>: \<open>result\<close> with \<open>Err\<close> and \<open>Ok\<close>, \<open>and_then\<close>, the fallible state-passing \<open>bind_io\<close>,
    machine-integer operations (saturating and checked), \<open>run\<close> of a step function, and the locales
    \<open>state_machine\<close> (an invariant kept by every step holds along every run) and \<open>stamped_machine\<close> (a
    state machine with a counter that never decreases).
  \<^item> \<^verbatim>\<open>Rust_Str\<close>, \<^verbatim>\<open>Ip_Addr\<close>: the operations of \<^verbatim>\<open>str\<close>, \<^verbatim>\<open>char\<close>, \<^verbatim>\<open>u8\<close> and \<^verbatim>\<open>std::net\<close> that the sources
    call, with round trips of the address parsers and printers.
  \<^item> \<^verbatim>\<open>Rust_Io\<close>, \<^verbatim>\<open>Rust_Fs\<close>: readers, writers and a file system.  Its state carries a fault schedule: each
    call that can fail takes the next entry, an entry \<open>Some k\<close> makes it fail (a write leaves its first
    \<open>k\<close> bytes behind), and an exhausted schedule means that no further call fails.  A statement for all schedules covers every combination of
    failing calls.
  \<^item> \<^verbatim>\<open>Contracts\<close>, \<^verbatim>\<open>TunnelApi\<close>: the types of \<^verbatim>\<open>contracts/src/lib.rs\<close> and \<^verbatim>\<open>client-tunnel/src/lib.rs\<close>.
  \<^item> \<^verbatim>\<open>ConnectionIntent\<close> (\<^verbatim>\<open>client-core/src/connection_intent.rs\<close>): the coordinator as a record with one
    definition per method, the recovery policy and the request fingerprints.  Shown: the coordinator
    invariant, at most one attempt in flight, fencing of late results by the generation, that a
    cancelled generation never returns, the retry schedule, and that fingerprints identify requests.
    \<open>stamped_machine\<close> is interpreted on the coordinator.
  \<^item> \<^verbatim>\<open>Tunnel\<close> (\<^verbatim>\<open>client-tunnel\<close>): DNS override, transport detection, option validation, route plan.
    Shown: the override replaces exactly the DNS settings; a plan covers the union of its networks.
  \<^item> \<^verbatim>\<open>UnixConfig\<close> (\<^verbatim>\<open>unix-service/src/config.rs\<close>): the configuration parser.  Shown: parsed configurations
    are well formed, executable directives are refused, parsing undoes a DNS override, the two
    transport detections agree, and no value injects a line into the control-socket text.
  \<^item> \<^verbatim>\<open>RuntimeManifest\<close> (\<^verbatim>\<open>contracts/src/runtime.rs\<close>): the validators and verifiers of the three signed
    manifests with canonical JSON.  Shown: soundness of a verified container, that the bytes are
    determined by the content, that signatures are checked first, that a release set is complete, and
    the language of versions.
  \<^item> \<^verbatim>\<open>Frames\<close>, \<^verbatim>\<open>UnixService\<close> (\<^verbatim>\<open>contracts/src/dispatcher.rs\<close>, \<^verbatim>\<open>unix-service/src/lib.rs\<close>): frames over byte
    streams, the request handler, the engine channel and the controller.  Shown: the channel starts
    its backend only with checked configurations, implements the message-level session and stops the
    backend at its end; error codes come from a fixed set; a start travels end to end.
  \<^item> \<^verbatim>\<open>RouteManager\<close>, \<^verbatim>\<open>LinuxRoutes\<close> (\<^verbatim>\<open>unix-service/src/routes.rs\<close>, \<^verbatim>\<open>routes/linux.rs\<close>): the owners of the
    routes with their state files.  Shown: along every sequence of applications, cleanups and restarts
    with any faults, each installed route is recorded; a successful cleanup restores the table; the
    Linux backend reads listings exactly.
  \<^item> \<^verbatim>\<open>Installation\<close> (\<^verbatim>\<open>contracts/src/dispatcher.rs\<close>): loading a verified release, and the installation,
    rollback and collection of releases.  Shown: loading succeeds exactly on a complete installation,
    and the active pointer never names anything else.  \<open>install_operations\<close> is the contract of the copy
    and publish steps, interpreted on the real ones; \<open>state_machine\<close> is interpreted on the transaction.
  \<^item> \<^verbatim>\<open>ProcessDispatcher\<close> (\<^verbatim>\<open>contracts/src/dispatcher.rs\<close>): the dispatcher and the broker cache.  Shown: the
    marker outlives whatever an engine left behind, only verified engines are launched, the cache
    answers as the uncached check, and the wait loop ends.
  \<^item> \<^verbatim>\<open>SplitTunnelStore\<close> (\<^verbatim>\<open>contracts/src/split_tunnel.rs\<close>, \<^verbatim>\<open>client-storage/src/split_tunnel.rs\<close>): the policy
    types, the stored state with its normalisation, and the file and memory stores.  Shown: along every
    sequence of calls with any faults a save is atomic and a load reads back what was saved.
    \<open>state_machine\<close> is interpreted on the file store.
  \<^item> \<^verbatim>\<open>SplitTunnel\<close> (\<^verbatim>\<open>client-core/src/split_tunnel.rs\<close>): validation of a policy, the effective policy of a
    device, the resolution of its domains, the detector of network changes and the book-keeping of failed
    policies.  Shown: the options are exactly what the policy says, and a pass over the domains never
    loses addresses; also when a change is confirmed, and that a working policy is kept.
\<close>

text \<open>
  \<^bold>\<open>Parameters.\<close>  Code outside the repository is an argument of the definitions that use it: SHA-256,
  Ed25519, base64, serde, Unicode folding, \<^verbatim>\<open>ipnet\<close>, \<^verbatim>\<open>tempfile\<close>, the URL and RFC 3339 parsers, the DNS resolver, and the effects of the operating system on
  processes and the routing table.  What a statement needs of them is a named hypothesis, such as
  \<open>route_laws\<close>, \<open>ip_laws\<close>, \<open>engine_laws\<close> or \<open>tempfile_laws\<close>, and its witness gives a concrete instance that meets it.

  \<^bold>\<open>Bounds.\<close>  Loops are structural recursions or functions with a termination proof.  The walks over
  directories of \<^verbatim>\<open>Installation\<close> stop at \<open>PATH_MAX\<close>, 4096, components, which no path of the kernel
  exceeds.  The wait for the engine has a deadline of three seconds in steps of ten milliseconds,
  hence at most 301 looks; the loop is defined without fuel and shown equal to that many polls.
  The dispatcher reads at most 16 frames per exchange, as the code does.

  \<^bold>\<open>Not modelled.\<close>  The asynchronous core, application service, panel client and container of the
  unprivileged side (\<^verbatim>\<open>client-core/src/lib.rs\<close>, the async methods of \<^verbatim>\<open>client-core/src/split_tunnel.rs\<close>, \<^verbatim>\<open>client-application\<close>, \<^verbatim>\<open>client-api\<close>, \<^verbatim>\<open>client-container\<close>,
  \<^verbatim>\<open>client-updater\<close>) are tasks over HTTP, channels and secret stores, whose behaviour lies in the
  interleaving of library code.  The credential stores and migrations of \<^verbatim>\<open>client-storage\<close> rest on
  platform key stores.  The Windows service, the macOS route backend, the platform backends, sockets
  and processes of \<^verbatim>\<open>unix-service\<close>, the Kotlin plugins and the Tauri shell are operating-system calls.
  The user interface is presentation, and the scripts are not part of the running client.  Of the
  modelled files, the \<^verbatim>\<open>Debug\<close> redactions, the derived serde code and the Windows branches are left out.
\<close>

end
